(* ===== verification/Owl_Prelude.thy ===== *)
theory Owl_Prelude
  imports
    Main
    "HOL-Library.Word"
    "HOL-Library.List_Lexorder"
    "HOL-Library.Product_Lexorder"
    "HOL-Library.Sublist"
begin

text \<open>
  Shared vocabulary of the development: the machine types of \<^verbatim>\<open>query_world.cpp\<close>
  (\<^verbatim>\<open>uint8_t\<close>, \<^verbatim>\<open>char16_t\<close>, \<^verbatim>\<open>std::u16string\<close>, \<^verbatim>\<open>std::string\<close>), the exception and the
  console the program writes to, the fact collections the component theories fill, and
  the generic lemmas on words, options and lists that their proofs share.

  \<^verbatim>\<open>std::u16string\<close> is a list of 16-bit code units; its \<^verbatim>\<open>operator<\<close> is the lexicographic
  order of \<^theory_text>\<open>List_Lexorder\<close> over the unsigned order of words, and
  \<^verbatim>\<open>std::pair\<close> is ordered as in \<^theory_text>\<open>Product_Lexorder\<close>, so the keys of every
  \<^verbatim>\<open>std::map\<close> of the program are in class \<open>linorder\<close>.
\<close>

section \<open>Fact collections\<close>

named_theorems owl_defs \<open>definitions unfolded when a handler is evaluated on a concrete input\<close>
named_theorems owl_inv \<open>invariant preservation facts of the components\<close>
named_theorems owl_frame \<open>fields an operation leaves unchanged\<close>

section \<open>Machine types\<close>

type_synonym byte = "8 word"
type_synonym char16 = "16 word"
type_synonym u16string = "char16 list"
type_synonym uint128 = "128 word"

text \<open>
  A C++ exception in flight. \<open>Runtime_error\<close> is a \<^verbatim>\<open>std::runtime_error\<close>, or an
  exception of a class derived from it, with its \<^verbatim>\<open>what()\<close> text: the exceptions the
  handler in the packet callback catches (source line 152). \<open>Other_exception\<close> is an
  exception of any other type, with a description; no handler of the program catches it.
  A computation that may throw returns \<open>exn + 'a\<close>, with \<open>Inl\<close> the exception.
\<close>

datatype exn = Runtime_error string | Other_exception string

type_synonym 'a result = "exn + 'a"

fun what :: "exn \<Rightarrow> string" where
  "what (Runtime_error msg) = msg"
| "what (Other_exception d) = d"

text \<open>The clause \<^verbatim>\<open>catch (std::runtime_error& err)\<close> applies to the exception.\<close>

fun is_runtime_error :: "exn \<Rightarrow> bool" where
  "is_runtime_error (Runtime_error msg) = True"
| "is_runtime_error (Other_exception d) = False"

text \<open>
  The console: every \<^verbatim>\<open>std::cout << ...;\<close> or \<^verbatim>\<open>std::cerr << ...;\<close> statement appends one
  line, tagged with its stream, so the interleaving of both streams is kept.
\<close>

datatype out_line = Cout string | Cerr string

type_synonym console = "out_line list"

fun is_cout :: "out_line \<Rightarrow> bool" where
  "is_cout (Cout _) = True"
| "is_cout (Cerr _) = False"

definition cout_lines :: "console \<Rightarrow> string list" where
  "cout_lines con = [s. Cout s \<leftarrow> con]"

definition cerr_lines :: "console \<Rightarrow> string list" where
  "cerr_lines con = [s. Cerr s \<leftarrow> con]"

section \<open>Characters and bytes\<close>

definition byte_of_char :: "char \<Rightarrow> byte" where
  "byte_of_char c = of_char c"

definition char_of_byte :: "byte \<Rightarrow> char" where
  "char_of_byte b = char_of (unat b)"

lemma unat_byte_of_char [simp]: "unat (byte_of_char c) = of_char c"
proof -
  have "unat (word_of_nat (of_char c) :: byte) = of_char c mod 2 ^ LENGTH(8)"
    by (rule unat_of_nat)
  then show ?thesis
    by (simp add: byte_of_char_def of_nat_of_char)
qed

lemma char_of_byte_of_char [simp]: "char_of_byte (byte_of_char c) = c"
  by (simp add: char_of_byte_def)

lemma byte_of_char_of_byte [simp]: "byte_of_char (char_of_byte b) = b"
proof -
  have "unat b < 256"
    using unsigned_less [of b, where 'a = nat] by simp
  then have "unat (byte_of_char (char_of_byte b)) = unat b"
    by (simp add: char_of_byte_def)
  then show ?thesis
    by (simp only: word_unat_eq_iff)
qed

lemma byte_of_char_inj [simp]: "byte_of_char c = byte_of_char d \<longleftrightarrow> c = d"
  by (metis char_of_byte_of_char)

section \<open>Casts between 8 and 16 bits\<close>

text \<open>
  Sign extension followed by truncation is the identity; truncation followed by sign
  extension is the identity exactly on the code units whose upper nine bits agree.
\<close>

lemma ucast_scast_byte [simp]: "ucast (scast (b :: byte) :: char16) = b"
  by (rule bit_word_eqI) (auto simp: bit_simps)

lemma ucast_ucast_byte [simp]: "ucast (ucast (b :: byte) :: char16) = b"
  by (rule bit_word_eqI) (auto simp: bit_simps)

lemma scast_eq_ucast_byte:
  assumes "\<not> bit b 7"
  shows "(scast (b :: byte) :: char16) = ucast b"
proof (rule bit_word_eqI)
  fix n
  assume "n < LENGTH(16)"
  have "bit b n \<Longrightarrow> n < 7"
    using assms bit_imp_le_length [of b n] by (cases "n = 7") auto
  then show "bit (scast b :: char16) n \<longleftrightarrow> bit (ucast b :: char16) n"
    using assms by (cases "n < 7") (auto simp: bit_simps min_def)
qed

lemma div_128_small: "m < 256 \<Longrightarrow> (m::nat) div 128 = (if 128 \<le> m then 1 else 0)"
  by (simp add: div_eq_dividend_iff Euclidean_Rings.div_nat_eqI)

lemma byte_msb_iff: "bit (b :: byte) 7 \<longleftrightarrow> 128 \<le> b"
proof -
  have lt: "unat b < 256"
    using unsigned_less [of b, where 'a = nat] by simp
  have "bit b 7 \<longleftrightarrow> bit (unat b) 7"
    by (simp add: bit_unsigned_iff)
  also have "\<dots> \<longleftrightarrow> odd (unat b div 128)"
    by (simp add: bit_iff_odd_drop_bit drop_bit_eq_div)
  also have "\<dots> \<longleftrightarrow> 128 \<le> unat b"
    using lt by (simp add: div_128_small)
  also have "\<dots> \<longleftrightarrow> 128 \<le> b"
    by (simp add: word_le_nat_alt)
  finally show ?thesis .
qed

section \<open>Options, sums and lists\<close>

lemma case_sum_Some_iff:
  "(case r of Inl e \<Rightarrow> f e | Inr v \<Rightarrow> g v) = Some y \<longleftrightarrow>
     (\<exists>e. r = Inl e \<and> f e = Some y) \<or> (\<exists>v. r = Inr v \<and> g v = Some y)"
  by (cases r) auto

lemma filter_append_replicate [simp]:
  "\<not> P y \<Longrightarrow> filter P (xs @ replicate n y) = filter P xs"
  by (induction n) (simp_all add: replicate_append_same [symmetric] del: replicate_Suc)

lemma prefix_length_take: "prefix p xs \<longleftrightarrow> take (length p) xs = p"
  by (metis append_eq_conv_conj prefix_def take_is_prefix)

lemma sublist_drop_prefix:
  "sublist p xs \<longleftrightarrow> (\<exists>k \<le> length xs. prefix p (drop k xs))"
proof
  assume "sublist p xs"
  then obtain ps ss where "xs = ps @ p @ ss"
    by (auto simp: sublist_def)
  then have "length ps \<le> length xs \<and> prefix p (drop (length ps) xs)"
    by simp
  then show "\<exists>k \<le> length xs. prefix p (drop k xs)"
    by blast
next
  assume "\<exists>k \<le> length xs. prefix p (drop k xs)"
  then obtain k ss where "drop k xs = p @ ss"
    by (auto simp: prefix_def)
  then have "xs = take k xs @ p @ ss"
    by (metis append_take_drop_id)
  then show "sublist p xs"
    by (metis sublist_appendI)
qed

section \<open>The two streams of the console\<close>

lemma cout_lines_simps [simp]:
  "cout_lines [] = []"
  "cout_lines (Cout s # con) = s # cout_lines con"
  "cout_lines (Cerr s # con) = cout_lines con"
  "cout_lines (con @ con') = cout_lines con @ cout_lines con'"
  by (simp_all add: cout_lines_def)

lemma cerr_lines_simps [simp]:
  "cerr_lines [] = []"
  "cerr_lines (Cerr s # con) = s # cerr_lines con"
  "cerr_lines (Cout s # con) = cerr_lines con"
  "cerr_lines (con @ con') = cerr_lines con @ cerr_lines con'"
  by (simp_all add: cerr_lines_def)

lemma cout_lines_filter [simp]: "cout_lines (filter is_cout con) = cout_lines con"
proof (induction con)
  case Nil
  show ?case by simp
next
  case (Cons l con)
  then show ?case
    by (cases l) simp_all
qed

end
