(* ===== verification/Std_Map.thy ===== *)
theory Std_Map
  imports Owl_Prelude
begin

text \<open>
  The ordered dictionary the program keeps its tables in (\<^verbatim>\<open>object_to_solution\<close>,
  \<^verbatim>\<open>tx_to_uri\<close>, \<^verbatim>\<open>switch_state\<close>, and the \<^verbatim>\<open>WorldState\<close> it receives are all \<^verbatim>\<open>std::map\<close>).
  A \<^verbatim>\<open>std::map\<close> is modelled by the list of its entries in iteration order, because the
  program iterates over its maps and the order decides what it prints and which filter it
  builds. The operations are the ones the source calls: \<^verbatim>\<open>find\<close>, \<^verbatim>\<open>operator[]\<close> as a read
  (which inserts a value-initialised entry for a missing key), \<^verbatim>\<open>operator[]\<close> as the target
  of an assignment, \<^verbatim>\<open>empty\<close> and \<^verbatim>\<open>size\<close>. They compare keys with \<open><\<close> only, as the
  container does.

  The invariant \<open>smap_inv\<close> says that the keys are strictly increasing. Under it the
  list refines the partial function \<open>smap_abs\<close>: each operation is shown to implement
  the corresponding operation on \<open>'k \<rightharpoonup> 'v\<close>, and the list is determined by the function
  it represents.
\<close>

section \<open>Representation and operations\<close>

type_synonym ('k, 'v) std_map = "('k \<times> 'v) list"

definition smap_keys :: "('k, 'v) std_map \<Rightarrow> 'k list" where
  "smap_keys m = map fst m"

definition smap_inv :: "('k::linorder, 'v) std_map \<Rightarrow> bool" where
  "smap_inv m \<longleftrightarrow> sorted_wrt (<) (smap_keys m)"

definition smap_abs :: "('k, 'v) std_map \<Rightarrow> ('k \<rightharpoonup> 'v)" where
  "smap_abs m = map_of m"

fun smap_find :: "'k::linorder \<Rightarrow> ('k, 'v) std_map \<Rightarrow> 'v option" where
  "smap_find k [] = None"
| "smap_find k ((a, b) # m) =
     (if a < k then smap_find k m else if k < a then None else Some b)"

fun smap_assign :: "'k::linorder \<Rightarrow> 'v \<Rightarrow> ('k, 'v) std_map \<Rightarrow> ('k, 'v) std_map" where
  "smap_assign k v [] = [(k, v)]"
| "smap_assign k v ((a, b) # m) =
     (if a < k then (a, b) # smap_assign k v m
      else if k < a then (k, v) # (a, b) # m
      else (a, v) # m)"

definition smap_index :: "'v \<Rightarrow> 'k::linorder \<Rightarrow> ('k, 'v) std_map \<Rightarrow> 'v \<times> ('k, 'v) std_map" where
  "smap_index dflt k m =
     (case smap_find k m of
        Some v \<Rightarrow> (v, m)
      | None \<Rightarrow> (dflt, smap_assign k dflt m))"

text \<open>A sequence of assignments \<^verbatim>\<open>m[k] = v\<close>, in the order in which a loop performs them.\<close>

definition smap_assign_list :: "('k::linorder \<times> 'v) list \<Rightarrow> ('k, 'v) std_map \<Rightarrow> ('k, 'v) std_map" where
  "smap_assign_list es m = fold (\<lambda>(k, v). smap_assign k v) es m"

definition smap_empty :: "('k, 'v) std_map \<Rightarrow> bool" where
  "smap_empty m \<longleftrightarrow> m = []"

definition smap_size :: "('k, 'v) std_map \<Rightarrow> nat" where
  "smap_size m = length m"

lemmas smap_defs [owl_defs] =
  smap_keys_def smap_inv_def smap_abs_def smap_index_def smap_empty_def smap_size_def
  smap_assign_list_def

section \<open>The invariant\<close>

lemma smap_inv_Nil [simp, owl_inv]: "smap_inv []"
  by (simp add: smap_inv_def smap_keys_def)

lemma smap_inv_Cons [simp]:
  "smap_inv ((a, b) # m) \<longleftrightarrow> (\<forall>k \<in> set (smap_keys m). a < k) \<and> smap_inv m"
  by (simp add: smap_inv_def smap_keys_def)

lemma smap_keys_simps [simp]:
  "smap_keys [] = []"
  "smap_keys ((a, b) # m) = a # smap_keys m"
  by (simp_all add: smap_keys_def)

lemma smap_keys_assign [simp]:
  "set (smap_keys (smap_assign k v m)) = insert k (set (smap_keys m))"
  by (induction m) (auto split: if_splits)

lemma smap_assign_inv [owl_inv]: "smap_inv m \<Longrightarrow> smap_inv (smap_assign k v m)"
proof (induction m)
  case Nil
  show ?case by simp
next
  case (Cons p m)
  obtain a b where p: "p = (a, b)"
    by (cases p)
  from Cons.prems have lo: "\<forall>x \<in> set (smap_keys m). a < x" and m: "smap_inv m"
    by (simp_all add: p)
  from m have "smap_inv (smap_assign k v m)"
    by (rule Cons.IH)
  moreover have "k < a \<Longrightarrow> \<forall>x \<in> set (smap_keys m). k < x"
    using lo by (blast intro: less_trans)
  ultimately show ?case
    using lo m by (auto simp: p)
qed

lemma set_smap_assign: "set (smap_assign k v m) \<subseteq> insert (k, v) (set m)"
  by (induction m) (auto split: if_splits)

lemma set_smap_index: "set (snd (smap_index dflt k m)) \<subseteq> insert (k, dflt) (set m)"
  using set_smap_assign [of k dflt m] by (auto simp: smap_index_def split: option.splits)

lemma smap_keys_distinct: "smap_inv m \<Longrightarrow> distinct (smap_keys m)"
  by (induction m) auto

lemma smap_keys_sorted: "smap_inv m \<Longrightarrow> sorted (smap_keys m)"
  by (simp add: smap_inv_def strict_sorted_iff)

section \<open>Refinement of partial functions\<close>

lemma smap_abs_simps [simp]:
  "smap_abs [] = Map.empty"
  "smap_abs ((a, b) # m) = (smap_abs m)(a \<mapsto> b)"
  by (simp_all add: smap_abs_def)

lemma dom_smap_abs [simp]: "dom (smap_abs m) = set (smap_keys m)"
  by (simp add: smap_abs_def smap_keys_def dom_map_of_conv_image_fst)

lemma smap_abs_above:
  fixes k :: "'k::linorder"
  assumes "\<forall>x \<in> set (smap_keys m). a < x" and "k \<le> a"
  shows "smap_abs m k = None"
proof -
  from assms have "k \<notin> set (smap_keys m)"
    by auto
  then show ?thesis
    by (simp add: domIff flip: dom_smap_abs)
qed

text \<open>\<^verbatim>\<open>find\<close> implements application of the partial function.\<close>

lemma smap_find_abs: "smap_inv m \<Longrightarrow> smap_find k m = smap_abs m k"
  by (induction m) (auto simp: smap_abs_above [where k = k])

text \<open>Assignment through \<^verbatim>\<open>operator[]\<close> implements the update of the partial function.\<close>

lemma smap_assign_abs: "smap_abs (smap_assign k v m) = (smap_abs m)(k \<mapsto> v)"
  by (induction m) (auto simp: fun_upd_twist)

lemma smap_find_assign:
  "smap_inv m \<Longrightarrow> smap_find k' (smap_assign k v m) = (if k' = k then Some v else smap_find k' m)"
  by (simp add: smap_find_abs smap_assign_inv smap_assign_abs)

lemma smap_find_None_iff: "smap_inv m \<Longrightarrow> smap_find k m = None \<longleftrightarrow> k \<notin> set (smap_keys m)"
  by (simp add: smap_find_abs flip: dom_smap_abs) blast

lemma smap_find_Some_mem: "smap_inv m \<Longrightarrow> smap_find k m = Some v \<longleftrightarrow> (k, v) \<in> set m"
  by (simp add: smap_find_abs smap_abs_def smap_keys_distinct [unfolded smap_keys_def])

text \<open>
  Reading through \<^verbatim>\<open>operator[]\<close>: the value found, or the default, which is then stored.
\<close>

lemma smap_index_value:
  "fst (smap_index dflt k m) = (case smap_find k m of Some v \<Rightarrow> v | None \<Rightarrow> dflt)"
  by (simp add: smap_index_def split: option.splits)

lemma smap_index_inv [owl_inv]: "smap_inv m \<Longrightarrow> smap_inv (snd (smap_index dflt k m))"
  by (simp add: smap_index_def smap_assign_inv split: option.splits)

lemma smap_index_abs:
  assumes "smap_inv m"
  shows "smap_abs (snd (smap_index dflt k m)) =
     (if k \<in> dom (smap_abs m) then smap_abs m else (smap_abs m)(k \<mapsto> dflt))"
proof (cases "smap_find k m")
  case None
  with assms have "k \<notin> set (smap_keys m)"
    by (simp add: smap_find_None_iff)
  with None show ?thesis
    by (simp add: smap_index_def smap_assign_abs)
next
  case (Some v)
  with assms have "k \<in> set (smap_keys m)"
    using smap_find_None_iff [of m k] by simp
  with Some show ?thesis
    by (simp add: smap_index_def)
qed

lemma smap_index_find:
  "smap_inv m \<Longrightarrow> smap_find k (snd (smap_index dflt k m)) = Some (fst (smap_index dflt k m))"
  by (simp add: smap_index_def smap_find_assign split: option.splits)

section \<open>Size and canonicity\<close>

lemma smap_size_assign:
  "smap_inv m \<Longrightarrow>
   smap_size (smap_assign k v m) =
     (if k \<in> set (smap_keys m) then smap_size m else Suc (smap_size m))"
  by (induction m) (auto simp: smap_size_def)

lemma smap_assign_not_empty [simp]: "\<not> smap_empty (smap_assign k v m)"
  by (cases m) (auto simp: smap_empty_def split: if_splits)

lemma smap_empty_abs: "smap_empty m \<longleftrightarrow> smap_abs m = Map.empty"
  by (cases m) (auto simp: smap_empty_def)

text \<open>
  Two maps that satisfy the invariant and represent the same partial function are the same
  list: iteration order is a function of the contents.
\<close>

lemma smap_abs_inject:
  "smap_inv m \<Longrightarrow> smap_inv m' \<Longrightarrow> smap_abs m = smap_abs m' \<Longrightarrow> m = m'"
proof (induction m arbitrary: m')
  case Nil
  from Nil.prems(3) have "dom (smap_abs m') = dom (smap_abs ([] :: ('a, 'b) std_map))"
    by (simp only:)
  then show ?case
    by (simp add: smap_keys_def)
next
  case (Cons p m)
  obtain a b where p: "p = (a, b)"
    by (cases p)
  from Cons.prems(3) have "dom (smap_abs (p # m)) = dom (smap_abs m')"
    by (simp only:)
  then have keys: "insert a (set (smap_keys m)) = set (smap_keys m')"
    by (simp add: p)
  then obtain q n where m': "m' = q # n"
    by (cases m') auto
  obtain c d where q: "q = (c, d)"
    by (cases q)
  from keys have doms: "insert a (set (smap_keys m)) = insert c (set (smap_keys n))"
    by (simp add: m' q)
  have "a = c"
  proof (rule ccontr)
    assume "a \<noteq> c"
    with doms have "a \<in> set (smap_keys n)" and "c \<in> set (smap_keys m)"
      by auto
    with Cons.prems(1,2) have "c < a" and "a < c"
      by (auto simp: p m' q)
    then show False
      by simp
  qed
  moreover have "b = d"
    using Cons.prems(3) \<open>a = c\<close> by (auto simp: p m' q dest: fun_cong [where x = a])
  moreover have "smap_abs m = smap_abs n"
  proof
    fix k
    show "smap_abs m k = smap_abs n k"
    proof (cases "k = a")
      case True
      with Cons.prems(1,2) \<open>a = c\<close> have "smap_abs m k = None" and "smap_abs n k = None"
        by (auto simp: p m' q intro: smap_abs_above [where a = a])
      then show ?thesis
        by simp
    next
      case False
      with Cons.prems(3) \<open>a = c\<close> show ?thesis
        by (auto simp: p m' q dest: fun_cong [where x = k])
    qed
  qed
  ultimately show ?case
    using Cons.IH [of n] Cons.prems(1,2) by (simp add: p m' q)
qed

section \<open>Sequences of assignments\<close>

lemma smap_assign_list_simps [simp]:
  "smap_assign_list [] m = m"
  "smap_assign_list ((k, v) # es) m = smap_assign_list es (smap_assign k v m)"
  "smap_assign_list (es @ es') m = smap_assign_list es' (smap_assign_list es m)"
  by (simp_all add: smap_assign_list_def)

lemma smap_assign_list_inv [owl_inv]: "smap_inv m \<Longrightarrow> smap_inv (smap_assign_list es m)"
  by (induction es arbitrary: m) (auto simp: smap_assign_inv)

text \<open>Later assignments override earlier ones.\<close>

lemma smap_assign_list_abs: "smap_abs (smap_assign_list es m) = smap_abs m ++ map_of (rev es)"
proof (induction es arbitrary: m)
  case Nil
  show ?case by simp
next
  case (Cons e es)
  obtain k v where e: "e = (k, v)"
    by (cases e)
  have "smap_abs (smap_assign_list (e # es) m) = (smap_abs m)(k \<mapsto> v) ++ map_of (rev es)"
    by (simp only: e smap_assign_list_simps Cons.IH smap_assign_abs)
  also have "\<dots> = smap_abs m ++ map_of (rev (e # es))"
    by (simp add: e)
  finally show ?case .
qed

lemma smap_keys_assign_list [simp]:
  "set (smap_keys (smap_assign_list es m)) = set (smap_keys m) \<union> fst ` set es"
  by (induction es arbitrary: m) (auto simp: rev_image_eqI)

lemma set_smap_assign_list: "set (smap_assign_list es m) \<subseteq> set m \<union> set es"
proof (induction es arbitrary: m)
  case Nil
  show ?case by simp
next
  case (Cons e es)
  obtain k v where e: "e = (k, v)"
    by (cases e)
  from Cons.IH [of "smap_assign k v m"] set_smap_assign [of k v m] show ?case
    by (auto simp: e)
qed

lemma smap_empty_assign_list [simp]: "smap_empty (smap_assign_list es m) \<longleftrightarrow> es = [] \<and> smap_empty m"
proof (induction es arbitrary: m)
  case Nil
  show ?case by simp
next
  case (Cons e es)
  then show ?case
    by (cases e) simp
qed

lemma smap_empty_Nil [simp]: "smap_empty []"
  by (simp add: smap_empty_def)

end
