(* ===== verification/U16_String.thy ===== *)
theory U16_String
  imports Owl_Prelude
begin

text \<open>
  The two string conversions of \<^verbatim>\<open>query_world.cpp\<close> (\<^verbatim>\<open>toU16\<close>, \<^verbatim>\<open>toString\<close>) and the string
  operations the program calls on \<^verbatim>\<open>std::u16string\<close>: literals, concatenation (list append)
  and \<^verbatim>\<open>find\<close>.

  \<^verbatim>\<open>toU16\<close> builds a \<^verbatim>\<open>std::u16string\<close> from the iterator range of a \<^verbatim>\<open>std::string\<close>, so each
  \<^verbatim>\<open>char\<close> is converted to \<^verbatim>\<open>char16_t\<close> on its own; \<^verbatim>\<open>char\<close> is taken as signed (the x86-64
  System V ABI), so bytes from 128 on are sign-extended. \<^verbatim>\<open>toString\<close> converts each
  \<^verbatim>\<open>char16_t\<close> to \<^verbatim>\<open>char\<close>, which keeps the low eight bits. On 7-bit text neither choice is
  visible, which \<open>toU16_ascii\<close> states.
\<close>

section \<open>Conversions\<close>

definition widen :: "char \<Rightarrow> char16" where
  "widen c = scast (byte_of_char c)"

definition narrow :: "char16 \<Rightarrow> char" where
  "narrow w = char_of_byte (ucast w)"

definition toU16 :: "string \<Rightarrow> u16string" where
  "toU16 str = map widen str"

definition toString :: "u16string \<Rightarrow> string" where
  "toString str = map narrow str"

text \<open>A \<^verbatim>\<open>u"..."\<close> literal of the source: its characters are 7-bit, one code unit each.\<close>

definition u16_lit :: "string \<Rightarrow> u16string" where
  "u16_lit s = map (\<lambda>c. ucast (byte_of_char c)) s"

definition is_ascii :: "string \<Rightarrow> bool" where
  "is_ascii s \<longleftrightarrow> (\<forall>c \<in> set s. byte_of_char c < 128)"

lemmas u16_defs [owl_defs] =
  widen_def narrow_def toU16_def toString_def u16_lit_def is_ascii_def
  byte_of_char_def char_of_byte_def

section \<open>\<^verbatim>\<open>find\<close>\<close>

text \<open>
  \<^verbatim>\<open>s.find(pat)\<close> returns the least position at which \<^verbatim>\<open>pat\<close> occurs in \<^verbatim>\<open>s\<close>, or \<^verbatim>\<open>npos\<close>
  (here \<open>None\<close>). \<open>find_from pat s i\<close> scans the rest \<open>s\<close> of the string, which
  starts at position \<open>i\<close>.
\<close>

fun find_from :: "'a list \<Rightarrow> 'a list \<Rightarrow> nat \<Rightarrow> nat option" where
  "find_from pat [] i = (if pat = [] then Some i else None)"
| "find_from pat (x # xs) i =
     (if prefix pat (x # xs) then Some i else find_from pat xs (Suc i))"

definition u16_find :: "u16string \<Rightarrow> u16string \<Rightarrow> nat option" where
  "u16_find s pat = find_from pat s 0"

section \<open>Round trips of the conversions\<close>

lemma narrow_widen [simp]: "narrow (widen c) = c"
  by (simp add: narrow_def widen_def)

lemma toString_toU16 [simp]: "toString (toU16 s) = s"
  by (simp add: toString_def toU16_def comp_def)

lemma toU16_inj [simp]: "toU16 s = toU16 t \<longleftrightarrow> s = t"
  by (metis toString_toU16)

lemma length_toU16 [simp]: "length (toU16 s) = length s"
  by (simp add: toU16_def)

lemma length_toString [simp]: "length (toString u) = length u"
  by (simp add: toString_def)

lemma toU16_append [simp]: "toU16 (s @ t) = toU16 s @ toU16 t"
  by (simp add: toU16_def)

lemma toString_append [simp]: "toString (u @ v) = toString u @ toString v"
  by (simp add: toString_def)

lemma toU16_Nil [simp]: "toU16 [] = []"
  by (simp add: toU16_def)

lemma toU16_eq_Nil [simp]: "toU16 s = [] \<longleftrightarrow> s = []"
  by (simp add: toU16_def)

lemma widen_ascii: "byte_of_char c < 128 \<Longrightarrow> widen c = ucast (byte_of_char c)"
  by (simp add: widen_def scast_eq_ucast_byte byte_msb_iff not_le)

lemma toU16_ascii: "is_ascii s \<Longrightarrow> toU16 s = u16_lit s"
  by (simp add: is_ascii_def toU16_def u16_lit_def widen_ascii)

lemma widen_narrow_iff: "widen (narrow w) = w \<longleftrightarrow> scast (ucast w :: byte) = w"
  by (simp add: narrow_def widen_def)

text \<open>
  Property C37. Converting a byte string to 16-bit code units and back gives the string
  again. The other direction loses the high byte: a 16-bit string survives \<^verbatim>\<open>toString\<close> and
  \<^verbatim>\<open>toU16\<close> exactly if each of its code units is the sign extension of its low byte.
\<close>

theorem conversions_round_trip:
  "toString (toU16 s) = s \<and>
   (toU16 (toString u) = u \<longleftrightarrow> (\<forall>w \<in> set u. scast (ucast w :: byte) = w))"
proof -
  have "toU16 (toString u) = u \<longleftrightarrow> (\<forall>w \<in> set u. scast (ucast w :: byte) = w)"
    by (induction u) (auto simp: toU16_def toString_def widen_narrow_iff)
  then show ?thesis
    by simp
qed

theorem conversions_round_trip_witness:
  "toString (toU16 ''mug'') = ''mug'' \<and> toU16 (toString [0xE9]) \<noteq> [0xE9]"
  using conversions_round_trip [of "''mug''" "[0xE9]"] by simp

section \<open>Correctness of \<^verbatim>\<open>find\<close>\<close>

lemma find_from_Some_ge: "find_from pat s i = Some j \<Longrightarrow> i \<le> j"
  by (induction s arbitrary: i) (auto split: if_splits dest: Suc_leD)

lemma find_from_shift:
  "find_from pat s i = map_option (\<lambda>j. j + i) (find_from pat s 0)"
proof (induction s arbitrary: i)
  case Nil
  show ?case by simp
next
  case (Cons x xs)
  have "find_from pat xs (Suc i) = map_option (\<lambda>j. j + Suc i) (find_from pat xs 0)"
    by (rule Cons.IH)
  moreover have "find_from pat xs (Suc 0) = map_option (\<lambda>j. j + Suc 0) (find_from pat xs 0)"
    by (rule Cons.IH)
  ultimately show ?case
    by (simp add: option.map_comp comp_def)
qed

text \<open>\<^verbatim>\<open>find\<close> fails exactly if the pattern occurs nowhere.\<close>

lemma find_from_None_iff: "find_from pat s i = None \<longleftrightarrow> \<not> sublist pat s"
  by (induction s arbitrary: i) (auto simp: sublist_Cons_right)

text \<open>What \<^verbatim>\<open>find\<close> returns is an occurrence, and no earlier position is one.\<close>

lemma find_from_Some_prefix:
  "find_from pat s i = Some j \<Longrightarrow> prefix pat (drop (j - i) s)"
proof (induction s arbitrary: i)
  case Nil
  then show ?case by (simp split: if_splits)
next
  case (Cons x xs)
  show ?case
  proof (cases "prefix pat (x # xs)")
    case True
    with Cons.prems show ?thesis by simp
  next
    case False
    with Cons.prems have rest: "find_from pat xs (Suc i) = Some j"
      by simp
    then have "Suc i \<le> j"
      by (rule find_from_Some_ge)
    then have "j - i = Suc (j - Suc i)"
      by simp
    with Cons.IH [OF rest] show ?thesis
      by simp
  qed
qed

lemma find_from_Some_least:
  "find_from pat s i = Some j \<Longrightarrow> k < j - i \<Longrightarrow> \<not> prefix pat (drop k s)"
proof (induction s arbitrary: i k)
  case Nil
  then show ?case by (simp split: if_splits)
next
  case (Cons x xs)
  from Cons.prems have no: "\<not> prefix pat (x # xs)"
    by (auto split: if_splits)
  with Cons.prems have rest: "find_from pat xs (Suc i) = Some j"
    by simp
  show ?case
  proof (cases k)
    case 0
    with no show ?thesis by simp
  next
    case (Suc k')
    with Cons.prems(2) have "k' < j - Suc i"
      by simp
    with Cons.IH [OF rest] Suc show ?thesis
      by simp
  qed
qed

lemma find_from_Some_bound:
  "find_from pat s i = Some j \<Longrightarrow> j - i + length pat \<le> length s"
proof -
  assume "find_from pat s i = Some j"
  then have "prefix pat (drop (j - i) s)"
    by (rule find_from_Some_prefix)
  then have "length pat \<le> length s - (j - i)"
    using prefix_length_le by fastforce
  moreover have "j - i \<le> length s \<or> pat = []"
    using \<open>prefix pat (drop (j - i) s)\<close> by (cases "j - i \<le> length s") auto
  moreover have "pat = [] \<Longrightarrow> j - i \<le> length s"
    using \<open>find_from pat s i = Some j\<close>
    by (cases s) (auto split: if_splits)
  ultimately show ?thesis
    by auto
qed

lemma u16_find_None_iff: "u16_find s pat = None \<longleftrightarrow> \<not> sublist pat s"
  by (simp add: u16_find_def find_from_None_iff)

lemma u16_find_Some:
  assumes "u16_find s pat = Some j"
  shows "take (length pat) (drop j s) = pat"
    and "j + length pat \<le> length s"
    and "\<forall>k < j. take (length pat) (drop k s) \<noteq> pat"
  using assms find_from_Some_prefix [of pat s 0 j] find_from_Some_bound [of pat s 0 j]
    find_from_Some_least [of pat s 0 j]
  by (simp_all add: u16_find_def prefix_length_take)

end
