(* ===== verification/World_Model.thy ===== *)
theory World_Model
  imports Std_Map U16_String
begin

text \<open>
  The data model shared by every component: URIs, attributes, world states, attribute
  updates and raw samples. The program takes these types from the Owl headers
  (\<^verbatim>\<open>world_model::URI\<close>, \<^verbatim>\<open>world_model::Attribute\<close>, \<^verbatim>\<open>world_model::WorldState\<close>,
  \<^verbatim>\<open>SolverWorldModel::AttrUpdate\<close>, \<^verbatim>\<open>SampleData\<close>); the records below have the fields the
  design document gives them, in the order in which \<^verbatim>\<open>query_world.cpp\<close> initialises them.
  The two buffer helpers of \<^verbatim>\<open>owl/netbuffer.hpp\<close> are given for the one type the program
  instantiates them at, \<^verbatim>\<open>uint8_t\<close>.
\<close>

section \<open>Entities and attributes\<close>

type_synonym URI = u16string

type_synonym grail_time = "64 word"

record Attribute =
  attr_name :: u16string
  attr_data :: "byte list"
  attr_creation_date :: grail_time
  attr_origin :: u16string

type_synonym WorldState = "(URI, Attribute list) std_map"

record AttrUpdate =
  au_name :: u16string
  au_creation_date :: grail_time
  au_uri :: URI
  au_data :: "byte list"

record SampleData =
  sd_valid :: bool
  sd_physical_layer :: byte
  sd_tx_id :: uint128
  sd_sense_data :: "byte list"

type_synonym tx_key = "byte \<times> uint128"

section \<open>Buffer helpers\<close>

text \<open>
  \<^verbatim>\<open>readPrimitive<uint8_t>(buf, i)\<close> reads the byte at index \<^verbatim>\<open>i\<close>. The library does not
  check the index, and the program calls it only under a check of the buffer's size, so
  the model reads with \<open>!\<close> and \<open>readable_u8\<close> names the condition under which the
  read is defined. \<^verbatim>\<open>pushBackVal<uint8_t>(v, buf)\<close> appends one byte.
\<close>

definition readable_u8 :: "byte list \<Rightarrow> nat \<Rightarrow> bool" where
  "readable_u8 buf i \<longleftrightarrow> i < length buf"

definition readPrimitive_u8 :: "byte list \<Rightarrow> nat \<Rightarrow> byte" where
  "readPrimitive_u8 buf i = buf ! i"

definition pushBackVal_u8 :: "byte \<Rightarrow> byte list \<Rightarrow> byte list" where
  "pushBackVal_u8 v buf = buf @ [v]"

lemmas buffer_defs [owl_defs] = readable_u8_def readPrimitive_u8_def pushBackVal_u8_def

lemma readPrimitive_u8_single [simp]: "readPrimitive_u8 [b] 0 = b"
  by (simp add: readPrimitive_u8_def)

lemma readable_u8_single [simp]: "length buf = 1 \<Longrightarrow> readable_u8 buf 0"
  by (simp add: readable_u8_def)

lemma readPrimitive_pushBack:
  "readable_u8 (pushBackVal_u8 v buf) (length buf) \<and>
   readPrimitive_u8 (pushBackVal_u8 v buf) (length buf) = v"
  by (simp add: readable_u8_def readPrimitive_u8_def pushBackVal_u8_def)

lemma length_pushBackVal_u8 [simp]: "length (pushBackVal_u8 v buf) = Suc (length buf)"
  by (simp add: pushBackVal_u8_def)

section \<open>The clock\<close>

text \<open>
  \<^verbatim>\<open>world_model::getGRAILTime()\<close> reads the clock of the machine. What the program observes
  of the clock is the sequence of its readings, so the model of the clock is the reading
  the next call returns, with the readings of the calls after that one; when these are used
  up the clock stands still. Every finite sequence of readings is the beginning of such a
  clock, and a run of the program reads the clock a finite number of times. Each call
  returns the next reading and leaves the clock with the readings that remain.
\<close>

type_synonym readings = "grail_time \<times> grail_time list"

fun getGRAILTime :: "readings \<Rightarrow> grail_time \<times> readings" where
  "getGRAILTime (now, []) = (now, (now, []))"
| "getGRAILTime (now, t # ts) = (now, (t, ts))"

text \<open>The clock after \<open>n\<close> calls.\<close>

fun after_reads :: "nat \<Rightarrow> readings \<Rightarrow> readings" where
  "after_reads 0 clk = clk"
| "after_reads (Suc n) clk = after_reads n (snd (getGRAILTime clk))"

lemma fst_getGRAILTime [simp]: "fst (getGRAILTime clk) = fst clk"
  by (cases clk rule: getGRAILTime.cases) simp_all

lemma after_reads_add: "after_reads (m + n) clk = after_reads n (after_reads m clk)"
  by (induction m arbitrary: clk) simp_all

lemma after_reads_standing [simp]: "after_reads n (now, []) = (now, [])"
  by (induction n) simp_all

section \<open>Printing numbers\<close>

text \<open>
  \<^verbatim>\<open>operator<<\<close> on an integer prints its decimal digits, with a minus sign for a negative
  \<^verbatim>\<open>int64_t\<close>.
\<close>

definition digit_char :: "nat \<Rightarrow> char" where
  "digit_char d = char_of (48 + d)"

fun show_nat :: "nat \<Rightarrow> string" where
  "show_nat n = (if n < 10 then [digit_char n] else show_nat (n div 10) @ [digit_char (n mod 10)])"

declare show_nat.simps [simp del]

definition show_int :: "int \<Rightarrow> string" where
  "show_int i = (if i < 0 then CHR ''-'' # show_nat (nat (- i)) else show_nat (nat i))"

definition show_time :: "grail_time \<Rightarrow> string" where
  "show_time t = show_int (sint t)"

lemma show_nat_nonempty [simp]: "show_nat n \<noteq> []"
  by (subst show_nat.simps) simp

lemma digit_char_inj: "d < 10 \<Longrightarrow> e < 10 \<Longrightarrow> digit_char d = digit_char e \<longleftrightarrow> d = e"
  by (auto simp: digit_char_def)

lemma show_nat_digits: "c \<in> set (show_nat n) \<Longrightarrow> \<exists>d < 10. c = digit_char d"
proof (induction n rule: show_nat.induct)
  case (1 n)
  show ?case
  proof (cases "n < 10")
    case True
    with "1.prems" show ?thesis
      by (subst (asm) show_nat.simps) auto
  next
    case False
    with "1.prems" have "c \<in> set (show_nat (n div 10)) \<or> c = digit_char (n mod 10)"
      by (subst (asm) show_nat.simps) auto
    with False "1.IH" show ?thesis
      by (auto intro: exI [of _ "n mod 10"])
  qed
qed

end
