(* ===== verification/Update_Dispatcher.thy ===== *)
theory Update_Dispatcher
  imports World_Model
begin

text \<open>
  The update path of the solver: the connection to the world model
  (\<^verbatim>\<open>SolverWorldModel swm\<close>) and the loop around \<^verbatim>\<open>swm.sendData\<close> in the packet callback of
  \<^verbatim>\<open>query_world.cpp\<close>, which retries while the connection throws the
  ``resource temporarily unavailable'' error and rethrows every other error.

  The connection is an external collaborator. What the program can observe of it is the
  outcome of each \<^verbatim>\<open>sendData\<close> call, so the model of the connection carries a script of
  outcomes for the calls to come and a fallback outcome for every call after the script
  is used up; every eventually constant behaviour of a connection is such a script. The
  record also logs the batches the connection accepted and counts the calls, which is what
  the properties of the retry loop are stated over.

  The retry loop has no bound in the source. It is a \<^theory_text>\<open>partial_function\<close> in the
  option monad: \<open>None\<close> is the loop that never returns, and the theorems say exactly
  when it returns, with which result, after how many calls.
\<close>

section \<open>The solver connection\<close>

datatype send_outcome = Sent | Throws exn

record solver_conn =
  sc_connected :: bool
  sc_types :: "(u16string \<times> bool) list"
  sc_origin :: u16string
  sc_script :: "send_outcome list"
  sc_fallback :: send_outcome
  sc_attempts :: nat
  sc_accepted :: "AttrUpdate list list"

definition next_outcome :: "solver_conn \<Rightarrow> send_outcome \<times> send_outcome list" where
  "next_outcome c = (case sc_script c of [] \<Rightarrow> (sc_fallback c, []) | x # xs \<Rightarrow> (x, xs))"

text \<open>
  \<^verbatim>\<open>sendData(updates, synchronous)\<close>: the batch is accepted as a whole or the call throws.
\<close>

definition sendData :: "AttrUpdate list \<Rightarrow> bool \<Rightarrow> solver_conn \<Rightarrow> unit result \<times> solver_conn" where
  "sendData solns synchronous c =
     (let (outcome, rest) = next_outcome c;
          c' = c\<lparr>sc_script := rest, sc_attempts := Suc (sc_attempts c)\<rparr>
      in case outcome of
           Sent \<Rightarrow> (Inr (), c'\<lparr>sc_accepted := sc_accepted c' @ [solns]\<rparr>)
         | Throws err \<Rightarrow> (Inl err, c'))"

section \<open>The retry loop\<close>

definition transient_msg :: string where
  "transient_msg = ''Error sending data over socket: Resource temporarily unavailable''"

definition retry_warning :: out_line where
  "retry_warning =
     Cerr ''Experiencing socket slow down with world model connection. Retrying...\<newline>''"

partial_function (option) send_with_retry ::
  "AttrUpdate list \<Rightarrow> solver_conn \<Rightarrow> console \<Rightarrow> (unit result \<times> solver_conn \<times> console) option"
where
  "send_with_retry solns c con =
     (case sendData solns False c of
        (Inr u, c') \<Rightarrow> Some (Inr (), c', con)
      | (Inl err, c') \<Rightarrow>
          if is_runtime_error err
          then if what err = transient_msg
               then send_with_retry solns c' (con @ [retry_warning])
               else Some (Inl err, c', con)
          else Some (Inl err, c', con))"

lemmas dispatcher_defs [owl_defs] =
  next_outcome_def sendData_def transient_msg_def retry_warning_def send_with_retry.simps

section \<open>Classification of outcomes\<close>

text \<open>
  The outcome the loop answers with a retry: a \<^verbatim>\<open>std::runtime_error\<close> with the text of source
  line 154.
\<close>

abbreviation Transient :: send_outcome where
  "Transient \<equiv> Throws (Runtime_error transient_msg)"

definition is_transient :: "send_outcome \<Rightarrow> bool" where
  "is_transient outcome \<longleftrightarrow> outcome = Transient"

text \<open>
  A connection is stuck if every call to come fails with the transient error.
\<close>

definition stuck :: "solver_conn \<Rightarrow> bool" where
  "stuck c \<longleftrightarrow> list_all is_transient (sc_script c) \<and> is_transient (sc_fallback c)"

lemma is_transient_simps [simp]:
  "\<not> is_transient Sent"
  "is_transient (Throws err) \<longleftrightarrow> err = Runtime_error transient_msg"
  by (auto simp: is_transient_def)

section \<open>One call\<close>

definition advance :: "solver_conn \<Rightarrow> solver_conn" where
  "advance c = c\<lparr>sc_script := tl (sc_script c), sc_attempts := Suc (sc_attempts c)\<rparr>"

definition accept :: "AttrUpdate list \<Rightarrow> solver_conn \<Rightarrow> solver_conn" where
  "accept solns c = c\<lparr>sc_accepted := sc_accepted c @ [solns]\<rparr>"

lemma next_outcome_Cons [simp]: "sc_script c = x # xs \<Longrightarrow> next_outcome c = (x, xs)"
  by (simp add: next_outcome_def)

lemma next_outcome_Nil [simp]: "sc_script c = [] \<Longrightarrow> next_outcome c = (sc_fallback c, [])"
  by (simp add: next_outcome_def)

lemma snd_next_outcome [simp]: "snd (next_outcome c) = tl (sc_script c)"
  by (simp add: next_outcome_def split: list.splits)

lemma sendData_eq:
  "sendData solns sync c =
     (case fst (next_outcome c) of
        Sent \<Rightarrow> (Inr (), accept solns (advance c))
      | Throws err \<Rightarrow> (Inl err, advance c))"
  by (simp add: sendData_def advance_def accept_def split_beta Let_def
      split: send_outcome.splits)

lemma advance_simps [simp]:
  "sc_script (advance c) = tl (sc_script c)"
  "sc_fallback (advance c) = sc_fallback c"
  "sc_attempts (advance c) = Suc (sc_attempts c)"
  "sc_accepted (advance c) = sc_accepted c"
  "sc_types (advance c) = sc_types c"
  "sc_origin (advance c) = sc_origin c"
  "sc_connected (advance c) = sc_connected c"
  by (simp_all add: advance_def)

lemma accept_simps [simp]:
  "sc_script (accept solns c) = sc_script c"
  "sc_fallback (accept solns c) = sc_fallback c"
  "sc_attempts (accept solns c) = sc_attempts c"
  "sc_accepted (accept solns c) = sc_accepted c @ [solns]"
  "sc_types (accept solns c) = sc_types c"
  "sc_origin (accept solns c) = sc_origin c"
  "sc_connected (accept solns c) = sc_connected c"
  by (simp_all add: accept_def)

text \<open>The three ways one turn of the loop can go.\<close>

lemma send_with_retry_Sent:
  "fst (next_outcome c) = Sent \<Longrightarrow>
   send_with_retry solns c con = Some (Inr (), accept solns (advance c), con)"
  by (subst send_with_retry.simps) (simp add: sendData_eq)

lemma send_with_retry_permanent:
  "fst (next_outcome c) = Throws err \<Longrightarrow> err \<noteq> Runtime_error transient_msg \<Longrightarrow>
   send_with_retry solns c con = Some (Inl err, advance c, con)"
  by (subst send_with_retry.simps) (cases err; simp add: sendData_eq)

lemma send_with_retry_transient:
  "fst (next_outcome c) = Transient \<Longrightarrow>
   send_with_retry solns c con = send_with_retry solns (advance c) (con @ [retry_warning])"
  by (subst send_with_retry.simps) (simp add: sendData_eq)

lemmas send_with_retry_turn =
  send_with_retry_Sent send_with_retry_permanent send_with_retry_transient

section \<open>The contract of the dispatcher\<close>

text \<open>
  What the loop promises, in closed form. \<open>decisive\<close> finds the first outcome that is
  not the transient error and counts the transient ones before it; \<open>dispatch_spec\<close>
  says that the loop makes that many calls and one more, logs one warning per retry, and
  ends as the decisive outcome says, unless there is no decisive outcome.
\<close>

fun decisive :: "send_outcome list \<Rightarrow> send_outcome \<Rightarrow> nat \<times> send_outcome" where
  "decisive [] fb = (0, fb)"
| "decisive (x # xs) fb = (if is_transient x then apfst Suc (decisive xs fb) else (0, x))"

definition advance_by :: "nat \<Rightarrow> solver_conn \<Rightarrow> solver_conn" where
  "advance_by n c = c\<lparr>sc_script := drop n (sc_script c), sc_attempts := sc_attempts c + n\<rparr>"

definition dispatch_spec ::
  "AttrUpdate list \<Rightarrow> solver_conn \<Rightarrow> console \<Rightarrow> (unit result \<times> solver_conn \<times> console) option"
where
  "dispatch_spec solns c con =
     (if stuck c then None
      else
        let (n, outcome) = decisive (sc_script c) (sc_fallback c);
            c' = advance_by (Suc n) c;
            con' = con @ replicate n retry_warning
        in case outcome of
             Sent \<Rightarrow> Some (Inr (), accept solns c', con')
           | Throws err \<Rightarrow> Some (Inl err, c', con'))"

lemma advance_by_simps [simp]:
  "sc_script (advance_by n c) = drop n (sc_script c)"
  "sc_fallback (advance_by n c) = sc_fallback c"
  "sc_attempts (advance_by n c) = sc_attempts c + n"
  "sc_accepted (advance_by n c) = sc_accepted c"
  "sc_types (advance_by n c) = sc_types c"
  "sc_origin (advance_by n c) = sc_origin c"
  "sc_connected (advance_by n c) = sc_connected c"
  by (simp_all add: advance_by_def)

lemma advance_by_0 [simp]: "advance_by 0 c = c"
  by (simp add: advance_by_def)

lemma advance_by_Suc: "advance_by (Suc n) c = advance_by n (advance c)"
  by (simp add: advance_by_def advance_def drop_Suc)

lemma advance_by_1 [simp]: "advance_by (Suc 0) c = advance c"
  by (simp add: advance_by_Suc)

lemma stuck_advance: "stuck (advance c) \<Longrightarrow> fst (next_outcome c) = Transient \<Longrightarrow> stuck c"
  by (cases "sc_script c") (auto simp: stuck_def is_transient_def)

lemma stuck_next_outcome: "stuck c \<Longrightarrow> fst (next_outcome c) = Transient"
  by (cases "sc_script c") (auto simp: stuck_def is_transient_def)

lemma stuck_advance_iff:
  "fst (next_outcome c) = Transient \<Longrightarrow> stuck (advance c) \<longleftrightarrow> stuck c"
  by (cases "sc_script c") (auto simp: stuck_def is_transient_def)

lemma decisive_not_transient:
  "\<not> (list_all is_transient xs \<and> is_transient fb) \<Longrightarrow> \<not> is_transient (snd (decisive xs fb))"
  by (induction xs) auto

lemma decisive_le_length: "fst (decisive xs fb) \<le> length xs"
  by (induction xs) auto

lemma decisive_prefix:
  "take (fst (decisive xs fb)) xs = replicate (fst (decisive xs fb)) (Transient)"
  by (induction xs) (auto simp: is_transient_def)

lemma decisive_replicate [simp]:
  "\<not> is_transient x \<Longrightarrow> decisive (replicate n (Transient) @ x # xs) fb = (n, x)"
  by (induction n) auto

lemma decisive_transient_head:
  "fst (next_outcome c) = Transient \<Longrightarrow> \<not> stuck c \<Longrightarrow>
   decisive (sc_script c) (sc_fallback c) =
     apfst Suc (decisive (sc_script (advance c)) (sc_fallback c))"
  by (cases "sc_script c") (auto simp: stuck_def)

lemma decisive_other_head:
  "\<not> is_transient (fst (next_outcome c)) \<Longrightarrow>
   decisive (sc_script c) (sc_fallback c) = (0, fst (next_outcome c))"
  by (cases "sc_script c") auto

section \<open>Divergence and termination\<close>

text \<open>
  If the loop returns, some call to come was not a transient failure: by the induction rule
  of the partial function, over the turns of the loop.
\<close>

lemma send_with_retry_Some_not_stuck:
  assumes ret: "send_with_retry solns c con = Some r"
  shows "\<not> stuck c"
proof (rule send_with_retry.raw_induct [where P = "\<lambda>solns c con r. \<not> stuck c", OF _ ret])
  fix f solns c con r
  assume IH: "\<And>solns c con r. f solns c con = Some r \<Longrightarrow> \<not> stuck c"
    and body: "(case sendData solns False c of
        (Inr u, c') \<Rightarrow> Some (Inr (), c', con)
      | (Inl err, c') \<Rightarrow>
          if is_runtime_error err
          then if what err = transient_msg
               then f solns c' (con @ [retry_warning])
               else Some (Inl err, c', con)
          else Some (Inl err, c', con)) = Some r"
  show "\<not> stuck c"
  proof (cases "fst (next_outcome c) = Transient")
    case True
    with body have "f solns (advance c) (con @ [retry_warning]) = Some r"
      by (simp add: sendData_eq)
    then have "\<not> stuck (advance c)"
      by (rule IH)
    with True show ?thesis
      by (simp add: stuck_advance_iff)
  next
    case False
    then show ?thesis
      by (auto dest: stuck_next_outcome)
  qed
qed

lemma send_with_retry_stuck: "stuck c \<Longrightarrow> send_with_retry solns c con = None"
  using send_with_retry_Some_not_stuck by (cases "send_with_retry solns c con") auto

text \<open>The loop implements its contract: by induction on the script of the connection.\<close>

lemma send_with_retry_spec: "send_with_retry solns c con = dispatch_spec solns c con"
proof (cases "stuck c")
  case True
  then show ?thesis
    by (simp add: send_with_retry_stuck dispatch_spec_def)
next
  case False
  then show ?thesis
  proof (induction "sc_script c" arbitrary: c con)
    case Nil
    then have "\<not> is_transient (sc_fallback c)"
      by (simp add: stuck_def)
    with Nil show ?case
      by (cases "sc_fallback c")
        (simp_all add: dispatch_spec_def send_with_retry_turn Nil.hyps [symmetric])
  next
    case (Cons x xs)
    from Cons.hyps(2) have head: "fst (next_outcome c) = x"
      by (simp add: next_outcome_def Cons.hyps(2) [symmetric])
    show ?case
    proof (cases "is_transient x")
      case True
      with head have tr: "fst (next_outcome c) = Transient"
        by (simp add: is_transient_def)
      with Cons.prems have ns: "\<not> stuck (advance c)"
        by (simp add: stuck_advance_iff)
      have "xs = sc_script (advance c)"
        using Cons.hyps(2) by (simp add: Cons.hyps(2) [symmetric])
      then have "send_with_retry solns (advance c) (con @ [retry_warning]) =
          dispatch_spec solns (advance c) (con @ [retry_warning])"
        using ns by (rule Cons.hyps(1))
      with tr ns Cons.prems show ?thesis
        by (simp add: send_with_retry_transient dispatch_spec_def decisive_transient_head
            split_beta advance_by_Suc [symmetric] replicate_append_same)
    next
      case False
      with head Cons.prems show ?thesis
        by (cases x)
          (simp_all add: dispatch_spec_def send_with_retry_turn decisive_other_head)
    qed
  qed
qed

section \<open>Reliable connections\<close>

text \<open>
  A connection is reliable if it never fails with an error other than the transient one
  and accepts in the end. Against a reliable connection the loop always succeeds, and it
  leaves a reliable connection.
\<close>

definition reliable :: "solver_conn \<Rightarrow> bool" where
  "reliable c \<longleftrightarrow>
     sc_fallback c = Sent \<and> list_all (\<lambda>x. x = Sent \<or> is_transient x) (sc_script c)"

lemma reliable_not_stuck: "reliable c \<Longrightarrow> \<not> stuck c"
  by (simp add: reliable_def stuck_def)

lemma reliable_advance_by [simp]: "reliable c \<Longrightarrow> reliable (advance_by n c)"
  by (auto simp: reliable_def list_all_iff dest: in_set_dropD)

lemma reliable_accept [simp]: "reliable (accept solns c) \<longleftrightarrow> reliable c"
  by (simp add: reliable_def)

lemma reliable_decisive: "reliable c \<Longrightarrow> snd (decisive (sc_script c) (sc_fallback c)) = Sent"
proof -
  have "list_all (\<lambda>x. x = Sent \<or> is_transient x) xs \<Longrightarrow> snd (decisive xs Sent) = Sent" for xs
    by (induction xs) auto
  then show "reliable c \<Longrightarrow> snd (decisive (sc_script c) (sc_fallback c)) = Sent"
    by (simp add: reliable_def)
qed

lemma send_with_retry_reliable:
  assumes "reliable c"
  obtains n where
    "send_with_retry solns c con =
       Some (Inr (), accept solns (advance_by (Suc n) c), con @ replicate n retry_warning)"
proof -
  obtain n x where d: "decisive (sc_script c) (sc_fallback c) = (n, x)"
    by (cases "decisive (sc_script c) (sc_fallback c)")
  with assms have "x = Sent"
    using reliable_decisive [of c] by simp
  with assms d have
    "send_with_retry solns c con =
       Some (Inr (), accept solns (advance_by (Suc n) c), con @ replicate n retry_warning)"
    by (simp add: send_with_retry_spec dispatch_spec_def reliable_not_stuck Let_def)
  then show thesis
    by (rule that)
qed

section \<open>Results of the retry loop\<close>

lemma send_with_retry_after_transients:
  assumes "sc_script c = replicate n (Transient) @ x # rest" and "\<not> is_transient x"
  shows "send_with_retry solns c con =
     (case x of
        Sent \<Rightarrow> Some (Inr (), accept solns (advance_by (Suc n) c), con @ replicate n retry_warning)
      | Throws err \<Rightarrow> Some (Inl err, advance_by (Suc n) c, con @ replicate n retry_warning))"
proof -
  from assms have "\<not> stuck c"
    by (simp add: stuck_def)
  with assms show ?thesis
    by (simp add: send_with_retry_spec dispatch_spec_def Let_def)
qed

lemma send_with_retry_cases:
  assumes "send_with_retry solns c con = Some (r, c', con')"
  obtains (sent) n where "r = Inr ()" and "c' = accept solns (advance_by (Suc n) c)"
      and "con' = con @ replicate n retry_warning"
    | (thrown) n err where "r = Inl err" and "err \<noteq> Runtime_error transient_msg"
      and "c' = advance_by (Suc n) c" and "con' = con @ replicate n retry_warning"
proof -
  from assms have ns: "\<not> stuck c"
    by (rule send_with_retry_Some_not_stuck)
  obtain n x where d: "decisive (sc_script c) (sc_fallback c) = (n, x)"
    by (cases "decisive (sc_script c) (sc_fallback c)")
  from ns have "\<not> is_transient (snd (decisive (sc_script c) (sc_fallback c)))"
    by (simp add: stuck_def decisive_not_transient)
  with d have x: "\<not> is_transient x"
    by simp
  show thesis
  proof (cases x)
    case Sent
    with assms ns d show ?thesis
      by (intro sent [of n]) (simp_all add: send_with_retry_spec dispatch_spec_def Let_def)
  next
    case (Throws err)
    with assms ns d x show ?thesis
      by (intro thrown [of err n]) (simp_all add: send_with_retry_spec dispatch_spec_def Let_def)
  qed
qed

text \<open>The loop leaves the registration of the connection as it was.\<close>

lemma send_with_retry_frame [owl_frame]:
  assumes "send_with_retry solns c con = Some (r, c', con')"
  shows "sc_types c' = sc_types c" and "sc_origin c' = sc_origin c"
    and "sc_connected c' = sc_connected c"
  using assms by (cases rule: send_with_retry_cases; simp)+

text \<open>
  Property C4. If the connection fails \<open>n\<close> times with the transient error and then
  accepts, \<^verbatim>\<open>sendData\<close> is called exactly \<open>n + 1\<close> times, the batch is accepted once, one
  warning is logged per retry, and nothing is raised to the caller.
\<close>

theorem retry_succeeds_after_transients:
  assumes "sc_script c = replicate n (Transient) @ Sent # rest"
  shows "\<exists>c'. send_with_retry solns c con = Some (Inr (), c', con @ replicate n retry_warning) \<and>
     sc_attempts c' = sc_attempts c + n + 1 \<and>
     sc_accepted c' = sc_accepted c @ [solns] \<and>
     sc_script c' = rest"
  using send_with_retry_after_transients [of c n Sent rest solns con] assms by simp

definition conn0 :: "send_outcome list \<Rightarrow> send_outcome \<Rightarrow> solver_conn" where
  "conn0 script fallback =
     \<lparr>sc_connected = True, sc_types = [], sc_origin = [], sc_script = script,
      sc_fallback = fallback, sc_attempts = 0, sc_accepted = []\<rparr>"

lemma conn0_simps [simp]:
  "sc_script (conn0 script fallback) = script"
  "sc_fallback (conn0 script fallback) = fallback"
  "sc_attempts (conn0 script fallback) = 0"
  "sc_accepted (conn0 script fallback) = []"
  "sc_types (conn0 script fallback) = []"
  "sc_origin (conn0 script fallback) = []"
  "sc_connected (conn0 script fallback)"
  by (simp_all add: conn0_def)

theorem retry_succeeds_after_transients_witness:
  "\<exists>c'. send_with_retry []
        (conn0 [Transient, Transient, Sent, Throws (Runtime_error ''x'')] Sent) [] =
      Some (Inr (), c', [retry_warning, retry_warning]) \<and>
     sc_attempts c' = 3 \<and> sc_accepted c' = [[]] \<and> sc_script c' = [Throws (Runtime_error ''x'')]"
  using retry_succeeds_after_transients
    [of "conn0 [Transient, Transient, Sent, Throws (Runtime_error ''x'')] Sent"
      "Suc (Suc 0)" "[Throws (Runtime_error ''x'')]" "[]" "[]"]
  by (simp add: conn0_def numeral_3_eq_3)

text \<open>
  Property C5. If the connection fails with anything but the transient error, be it a
  \<^verbatim>\<open>std::runtime_error\<close> with another text or an exception of another type (whatever its
  text, since the handler does not apply to it), the exception is raised to the caller from
  the first call: one attempt, no retry, no warning, and nothing is accepted.
\<close>

theorem permanent_failure_raised_at_once:
  assumes "fst (next_outcome c) = Throws err" and "err \<noteq> Runtime_error transient_msg"
  shows "send_with_retry solns c con = Some (Inl err, advance c, con) \<and>
     sc_attempts (advance c) = sc_attempts c + 1 \<and>
     sc_accepted (advance c) = sc_accepted c"
  using assms by (simp add: send_with_retry_permanent)

theorem permanent_failure_raised_at_once_witness:
  "send_with_retry [] (conn0 [Throws (Runtime_error ''Broken pipe''), Sent] Sent) [] =
     Some (Inl (Runtime_error ''Broken pipe''), advance (conn0 [Throws (Runtime_error ''Broken pipe''), Sent] Sent), []) \<and>
   sc_attempts (advance (conn0 [Throws (Runtime_error ''Broken pipe''), Sent] Sent)) = 1 \<and>
   sc_accepted (advance (conn0 [Throws (Runtime_error ''Broken pipe''), Sent] Sent)) = [] \<and>
   send_with_retry [] (conn0 [Throws (Other_exception transient_msg), Sent] Sent) [] =
     Some (Inl (Other_exception transient_msg),
       advance (conn0 [Throws (Other_exception transient_msg), Sent] Sent), [])"
  using permanent_failure_raised_at_once
    [of "conn0 [Throws (Runtime_error ''Broken pipe''), Sent] Sent" "Runtime_error ''Broken pipe''" "[]" "[]"]
    permanent_failure_raised_at_once
    [of "conn0 [Throws (Other_exception transient_msg), Sent] Sent" "Other_exception transient_msg" "[]" "[]"]
  by (simp add: conn0_def transient_msg_def)

text \<open>
  Property C6. The retry loop returns if and only if some call to come does not fail with
  the transient error: against a connection that answers every call with ``resource
  temporarily unavailable'' it retries forever.
\<close>

theorem send_with_retry_returns_iff:
  "(\<exists>r. send_with_retry solns c con = Some r) \<longleftrightarrow> \<not> stuck c"
proof
  assume "\<exists>r. send_with_retry solns c con = Some r"
  then show "\<not> stuck c"
    by (auto dest: send_with_retry_Some_not_stuck)
next
  assume "\<not> stuck c"
  then show "\<exists>r. send_with_retry solns c con = Some r"
    by (simp add: send_with_retry_spec dispatch_spec_def split_beta Let_def
        split: send_outcome.splits)
qed

theorem send_with_retry_returns_iff_witness:
  "send_with_retry [] (conn0 [Transient] Transient) [] = None \<and>
   (\<exists>r. send_with_retry [] (conn0 [Transient, Throws (Other_exception transient_msg)] Transient) [] = Some r)"
proof -
  have "stuck (conn0 [Transient] Transient)"
    and "\<not> stuck (conn0 [Transient, Throws (Other_exception transient_msg)] Transient)"
    by (simp_all add: stuck_def)
  with send_with_retry_returns_iff [of "[]" "conn0 [Transient] Transient" "[]"]
    send_with_retry_returns_iff
      [of "[]" "conn0 [Transient, Throws (Other_exception transient_msg)] Transient" "[]"]
  show ?thesis
    by (cases "send_with_retry [] (conn0 [Transient] Transient) []") blast+
qed

text \<open>
  Property C31. The batch is accepted as a whole or not at all: whatever the loop returns,
  the connection has accepted exactly the given batch once if the result is a success and
  nothing if an error was raised; a raised error is never the transient one, and the
  registered types and the origin of the connection are unchanged.
\<close>

theorem send_with_retry_batch_atomic:
  assumes "send_with_retry solns c con = Some (r, c', con')"
  shows "(case r of
            Inr u \<Rightarrow> sc_accepted c' = sc_accepted c @ [solns]
          | Inl err \<Rightarrow> sc_accepted c' = sc_accepted c \<and> err \<noteq> Runtime_error transient_msg) \<and>
         sc_types c' = sc_types c \<and> sc_origin c' = sc_origin c \<and>
         sc_attempts c < sc_attempts c'"
  using assms by (cases rule: send_with_retry_cases) simp_all

theorem send_with_retry_batch_atomic_witness:
  "(case Inr () of
      Inr u \<Rightarrow> sc_accepted (accept [] (advance (conn0 [Sent] Sent))) = sc_accepted (conn0 [Sent] Sent) @ [[]]
    | Inl err \<Rightarrow> sc_accepted (accept [] (advance (conn0 [Sent] Sent))) = sc_accepted (conn0 [Sent] Sent) \<and>
        err \<noteq> Runtime_error transient_msg) \<and>
   sc_types (accept [] (advance (conn0 [Sent] Sent))) = sc_types (conn0 [Sent] Sent) \<and>
   sc_origin (accept [] (advance (conn0 [Sent] Sent))) = sc_origin (conn0 [Sent] Sent) \<and>
   sc_attempts (conn0 [Sent] Sent) < sc_attempts (accept [] (advance (conn0 [Sent] Sent)))"
  using send_with_retry_batch_atomic
    [of "[]" "conn0 [Sent] Sent" "[]" "Inr ()" "accept [] (advance (conn0 [Sent] Sent))" "[]"]
  by (simp add: send_with_retry_Sent conn0_def)

end
