(* ===== verification/Solver_Callback.thy ===== *)
theory Solver_Callback
  imports Update_Dispatcher
begin

text \<open>
  The solver side of \<^verbatim>\<open>query_world.cpp\<close>: the packet callback that \<^verbatim>\<open>main\<close> hands to the
  aggregator connection, with the state it captures by reference. One call of the callback
  is one atomic step: it filters the sample, resolves the transmitter to a URI under the
  lock, consults and updates the change tracker \<^verbatim>\<open>switch_state\<close>, and for every registered
  class that occurs in the URI as a dot-delimited segment reads the clock, pushes one
  attribute update with that creation date through the retry loop of
  \<^theory_text>\<open>Update_Dispatcher\<close> and prints one line.

  The callback returns \<open>None\<close> if a retry loop never ends, \<open>Some (Inl e, st)\<close> if a
  send error propagates out of it (the state is the one at the \<^verbatim>\<open>throw\<close>), and
  \<open>Some (Inr (), st)\<close> otherwise.
\<close>

section \<open>State captured by the callback\<close>

record solver_state =
  object_to_solution :: "(u16string, u16string) std_map"
  tx_to_uri :: "(tx_key, URI) std_map"
  switch_state :: "(URI, bool) std_map"
  swm :: solver_conn
  out :: console
  clock :: readings

section \<open>The change tracker\<close>

text \<open>
  \<^verbatim>\<open>switch_state.end() == switch_state.find(uri) or switch_state[uri] != switch_on\<close>: the
  second operand is evaluated only if the key was found.
\<close>

definition should_report :: "URI \<Rightarrow> bool \<Rightarrow> (URI, bool) std_map \<Rightarrow> bool \<times> (URI, bool) std_map" where
  "should_report uri switch_on ss =
     (if smap_find uri ss = None then (True, ss)
      else let (v, ss') = smap_index False uri ss in (v \<noteq> switch_on, ss'))"

definition track :: "URI \<Rightarrow> bool \<Rightarrow> (URI, bool) std_map \<Rightarrow> bool \<times> (URI, bool) std_map" where
  "track uri switch_on ss =
     (let (novel, ss') = should_report uri switch_on ss
      in if novel then (True, smap_assign uri switch_on ss') else (False, ss'))"

section \<open>The steps of the callback\<close>

text \<open>The sample filter: valid, exactly one byte of sense data, and that byte 0 or 255.\<close>

definition switch_value :: "SampleData \<Rightarrow> int option" where
  "switch_value s =
     (if sd_valid s \<and> 1 = length (sd_sense_data s)
      then let v = uint (readPrimitive_u8 (sd_sense_data s) 0)
           in if 0 = v \<or> 255 = v then Some v else None
      else None)"

text \<open>\<^verbatim>\<open>bool switch_on = 255 == switch_value\<close>.\<close>

definition is_on :: "int \<Rightarrow> bool" where
  "is_on v \<longleftrightarrow> 255 = v"

text \<open>
  \<^verbatim>\<open>uri = tx_to_uri[std::make_pair(s.physical_layer, s.tx_id)]\<close>, under the mutex: a
  transmitter that is not in the table is entered with an empty URI.
\<close>

definition lookup_uri :: "SampleData \<Rightarrow> solver_state \<Rightarrow> URI \<times> solver_state" where
  "lookup_uri s st =
     (let (uri, m) = smap_index [] (sd_physical_layer s, sd_tx_id s) (tx_to_uri st)
      in (uri, st\<lparr>tx_to_uri := m\<rparr>))"

definition class_in_uri :: "URI \<Rightarrow> u16string \<Rightarrow> bool" where
  "class_in_uri uri cls \<longleftrightarrow> u16_find uri (u16_lit ''.'' @ cls @ u16_lit ''.'') \<noteq> None"

definition make_update :: "u16string \<Rightarrow> grail_time \<Rightarrow> URI \<Rightarrow> bool \<Rightarrow> AttrUpdate" where
  "make_update soln_name now uri switch_on =
     (let soln = \<lparr>au_name = soln_name, au_creation_date = now, au_uri = uri, au_data = []\<rparr>
      in soln\<lparr>au_data := pushBackVal_u8 (if switch_on then 1 else 0) (au_data soln)\<rparr>)"

definition report_line :: "URI \<Rightarrow> u16string \<Rightarrow> bool \<Rightarrow> out_line" where
  "report_line uri soln_name switch_on =
     Cout (toString uri @ (if switch_on then '' is '' else '' is not '') @
           toString soln_name @ ''\<newline>'')"

text \<open>
  The loop over \<^verbatim>\<open>object_to_solution\<close>, in key order. For each class that is a segment of
  the URI the clock is read once, for the creation date of the update (source line 142).
  A send error leaves the loop at once; the entries after it are not visited.
\<close>

fun report_loop ::
  "URI \<Rightarrow> bool \<Rightarrow> (u16string \<times> u16string) list \<Rightarrow> solver_state \<Rightarrow>
   (unit result \<times> solver_state) option"
where
  "report_loop uri switch_on [] st = Some (Inr (), st)"
| "report_loop uri switch_on ((cls, soln_name) # rest) st =
     (if class_in_uri uri cls then
        (let (now, clk) = getGRAILTime (clock st);
             st1 = st\<lparr>clock := clk\<rparr>
         in case send_with_retry [make_update soln_name now uri switch_on] (swm st1) (out st1) of
              None \<Rightarrow> None
            | Some (Inl err, c, con) \<Rightarrow> Some (Inl err, st1\<lparr>swm := c, out := con\<rparr>)
            | Some (Inr u, c, con) \<Rightarrow>
                report_loop uri switch_on rest
                  (st1\<lparr>swm := c, out := con @ [report_line uri soln_name switch_on]\<rparr>))
      else report_loop uri switch_on rest st)"

definition packet_callback :: "SampleData \<Rightarrow> solver_state \<Rightarrow> (unit result \<times> solver_state) option" where
  "packet_callback s st =
     (case switch_value s of
        None \<Rightarrow> Some (Inr (), st)
      | Some v \<Rightarrow>
          let (uri, st1) = lookup_uri s st;
              switch_on = is_on v;
              (novel, ss) = track uri switch_on (switch_state st1);
              st2 = st1\<lparr>switch_state := ss\<rparr>
          in if novel
             then report_loop uri switch_on (object_to_solution st2) st2
             else Some (Inr (), st2))"

lemmas solver_defs [owl_defs] =
  should_report_def track_def switch_value_def lookup_uri_def class_in_uri_def
  make_update_def report_line_def packet_callback_def

section \<open>The abstract change tracker\<close>

text \<open>
  The contract of the change tracker over the partial function the table represents:
  report if the URI has no recorded value or a different one, and record the new value in
  the same step.
\<close>

definition shouldReport_spec :: "URI \<Rightarrow> bool \<Rightarrow> (URI \<rightharpoonup> bool) \<Rightarrow> bool \<times> (URI \<rightharpoonup> bool)" where
  "shouldReport_spec uri new_value m = (m uri \<noteq> Some new_value, m(uri \<mapsto> new_value))"

lemma should_report_state [simp]: "snd (should_report uri switch_on ss) = ss"
  by (cases "smap_find uri ss") (simp_all add: should_report_def smap_index_def)

lemma should_report_novel: "fst (should_report uri switch_on ss) \<longleftrightarrow> smap_find uri ss \<noteq> Some switch_on"
  by (cases "smap_find uri ss") (auto simp: should_report_def smap_index_def)

lemma track_novel: "fst (track uri switch_on ss) \<longleftrightarrow> smap_find uri ss \<noteq> Some switch_on"
  using should_report_novel [of uri switch_on ss]
  by (simp add: track_def split_beta)

lemma track_state:
  "snd (track uri switch_on ss) =
     (if smap_find uri ss = Some switch_on then ss else smap_assign uri switch_on ss)"
  using should_report_novel [of uri switch_on ss] should_report_state [of uri switch_on ss]
  by (simp add: track_def split_beta)

lemma track_inv [owl_inv]: "smap_inv ss \<Longrightarrow> smap_inv (snd (track uri switch_on ss))"
  by (simp add: track_state smap_assign_inv)

text \<open>
  Property C10. The change tracker implements its contract: on the partial function that
  the table \<^verbatim>\<open>switch_state\<close> represents, the test and the update of the callback are the
  single step ``report if the URI has no recorded value or a different one, and record the
  new value''.
\<close>

theorem track_refines:
  assumes "smap_inv ss"
  shows "map_prod id smap_abs (track uri new_value ss) = shouldReport_spec uri new_value (smap_abs ss)"
proof -
  have "smap_abs (snd (track uri new_value ss)) = (smap_abs ss)(uri \<mapsto> new_value)"
    using assms by (auto simp: track_state smap_assign_abs smap_find_abs)
  moreover have "fst (track uri new_value ss) \<longleftrightarrow> smap_abs ss uri \<noteq> Some new_value"
    using assms by (simp add: track_novel smap_find_abs)
  ultimately show ?thesis
    by (simp add: shouldReport_spec_def map_prod_def split_beta)
qed

theorem track_refines_witness:
  "map_prod id smap_abs (track [1, 2] True [([1, 2], False)]) =
     shouldReport_spec [1, 2] True (smap_abs [([1, 2], False)])"
  using track_refines [of "[([1, 2], False)]" "[1, 2]" True] by simp

lemma track_find [simp]:
  "smap_inv ss \<Longrightarrow> smap_find uri (snd (track uri switch_on ss)) = Some switch_on"
  by (simp add: track_state smap_find_assign)

lemma track_find_other:
  "smap_inv ss \<Longrightarrow> uri' \<noteq> uri \<Longrightarrow>
   smap_find uri' (snd (track uri switch_on ss)) = smap_find uri' ss"
  by (simp add: track_state smap_find_assign)

lemma track_twice:
  "smap_inv ss \<Longrightarrow> track uri switch_on (snd (track uri switch_on ss)) = (False, snd (track uri switch_on ss))"
  by (simp add: prod_eq_iff track_novel track_state [of uri switch_on "snd (track uri switch_on ss)"])

section \<open>The sample filter\<close>

lemma switch_value_Some_iff:
  "switch_value s = Some v \<longleftrightarrow>
     sd_valid s \<and> (sd_sense_data s = [0] \<and> v = 0 \<or> sd_sense_data s = [255] \<and> v = 255)"
proof (cases "sd_sense_data s")
  case Nil
  then show ?thesis
    by (simp add: switch_value_def)
next
  case (Cons b bs)
  have "uint b = 0 \<longleftrightarrow> b = 0" and "uint b = 255 \<longleftrightarrow> b = 255"
    by (simp_all add: word_uint_eq_iff)
  with Cons show ?thesis
    by (cases bs) (auto simp: switch_value_def Let_def)
qed

lemma switch_value_range: "switch_value s = Some v \<Longrightarrow> v = 0 \<or> v = 255"
  by (auto simp: switch_value_Some_iff)

lemma switch_value_invalid [simp]: "\<not> sd_valid s \<Longrightarrow> switch_value s = None"
  by (simp add: switch_value_def)

lemma switch_value_length [simp]: "length (sd_sense_data s) \<noteq> 1 \<Longrightarrow> switch_value s = None"
  by (auto simp: switch_value_def)

lemma switch_value_midrange:
  "sd_sense_data s = [b] \<Longrightarrow> 0 < b \<Longrightarrow> b < 255 \<Longrightarrow> switch_value s = None"
  by (cases "switch_value s") (auto simp: switch_value_Some_iff)

section \<open>The table lookup\<close>

definition uri_of :: "SampleData \<Rightarrow> solver_state \<Rightarrow> URI" where
  "uri_of s st =
     (case smap_find (sd_physical_layer s, sd_tx_id s) (tx_to_uri st) of
        Some uri \<Rightarrow> uri | None \<Rightarrow> [])"

lemma fst_lookup_uri [simp]: "fst (lookup_uri s st) = uri_of s st"
  by (simp add: lookup_uri_def uri_of_def split_beta smap_index_value)

lemma snd_lookup_uri_fields [simp, owl_frame]:
  "object_to_solution (snd (lookup_uri s st)) = object_to_solution st"
  "switch_state (snd (lookup_uri s st)) = switch_state st"
  "swm (snd (lookup_uri s st)) = swm st"
  "out (snd (lookup_uri s st)) = out st"
  "clock (snd (lookup_uri s st)) = clock st"
  by (simp_all add: lookup_uri_def split_beta)

lemma lookup_uri_table:
  "tx_to_uri (snd (lookup_uri s st)) =
     snd (smap_index [] (sd_physical_layer s, sd_tx_id s) (tx_to_uri st))"
  by (simp add: lookup_uri_def split_beta)

lemma lookup_uri_inv [owl_inv]:
  "smap_inv (tx_to_uri st) \<Longrightarrow> smap_inv (tx_to_uri (snd (lookup_uri s st)))"
  by (simp add: lookup_uri_table smap_index_inv)

lemma lookup_uri_known:
  "smap_find (sd_physical_layer s, sd_tx_id s) (tx_to_uri st) = Some uri \<Longrightarrow>
   lookup_uri s st = (uri, st)"
  by (simp add: lookup_uri_def smap_index_def)

lemma lookup_uri_again:
  "smap_inv (tx_to_uri st) \<Longrightarrow> uri_of s (snd (lookup_uri s st)) = uri_of s st"
  by (simp add: uri_of_def lookup_uri_table smap_index_find smap_index_value)

section \<open>Class segments\<close>

lemma class_in_uri_iff: "class_in_uri uri cls \<longleftrightarrow> sublist (u16_lit ''.'' @ cls @ u16_lit ''.'') uri"
  by (simp add: class_in_uri_def u16_find_None_iff)

lemma class_in_uri_short: "length uri < length cls + 2 \<Longrightarrow> \<not> class_in_uri uri cls"
  by (auto simp: class_in_uri_iff sublist_def u16_lit_def)

text \<open>
  Property C36. The test of the callback accepts a URI for a class exactly if the class name
  stands in the URI between two dots; the name at the start or the end of the URI, or
  inside a longer name, is not enough.
\<close>

theorem class_must_be_dot_delimited:
  "class_in_uri uri cls \<longleftrightarrow> (\<exists>pre suf. uri = pre @ u16_lit ''.'' @ cls @ u16_lit ''.'' @ suf)"
  by (simp add: class_in_uri_iff sublist_def)

theorem class_must_be_dot_delimited_witness:
  "class_in_uri (u16_lit ''room1.mug.mug42'') (u16_lit ''mug'') \<and>
   \<not> class_in_uri (u16_lit ''room1.mugshot.7'') (u16_lit ''mug'') \<and>
   \<not> class_in_uri (u16_lit ''mug.room1'') (u16_lit ''mug'')"
proof -
  have "class_in_uri (u16_lit ''room1.mug.mug42'') (u16_lit ''mug'')"
    using class_must_be_dot_delimited
      [of "u16_lit ''room1.mug.mug42''" "u16_lit ''mug''", THEN iffD2,
       OF exI [of _ "u16_lit ''room1''"], OF exI [of _ "u16_lit ''mug42''"]]
    by (simp add: u16_lit_def)
  moreover have "\<not> class_in_uri (u16_lit ''room1.mugshot.7'') (u16_lit ''mug'')"
    and "\<not> class_in_uri (u16_lit ''mug.room1'') (u16_lit ''mug'')"
    by code_simp+
  ultimately show ?thesis
    by simp
qed

lemma class_in_uri_Nil [simp]: "\<not> class_in_uri [] cls"
  by (simp add: class_in_uri_short)

section \<open>The loop over the classes\<close>

text \<open>
  What one call of the callback owes for a URI and a value: one update and one console line
  per entry of \<^verbatim>\<open>object_to_solution\<close> whose class is a segment of the URI, in key order,
  each update with the reading of the clock at its turn.
\<close>

fun due :: "URI \<Rightarrow> bool \<Rightarrow> readings \<Rightarrow> (u16string \<times> u16string) list \<Rightarrow> AttrUpdate list" where
  "due uri switch_on clk [] = []"
| "due uri switch_on clk ((cls, soln_name) # o2s) =
     (if class_in_uri uri cls
      then make_update soln_name (fst clk) uri switch_on #
           due uri switch_on (snd (getGRAILTime clk)) o2s
      else due uri switch_on clk o2s)"

definition due_lines :: "URI \<Rightarrow> bool \<Rightarrow> (u16string \<times> u16string) list \<Rightarrow> out_line list" where
  "due_lines uri switch_on o2s =
     map (\<lambda>(cls, soln_name). report_line uri soln_name switch_on)
       (filter (\<lambda>(cls, soln_name). class_in_uri uri cls) o2s)"

text \<open>The loop, one turn at a time.\<close>

lemma report_loop_skip [simp]:
  "\<not> class_in_uri uri cls \<Longrightarrow>
   report_loop uri switch_on ((cls, soln_name) # rest) st = report_loop uri switch_on rest st"
  by simp

lemma report_loop_turn [simp]:
  "class_in_uri uri cls \<Longrightarrow>
   report_loop uri switch_on ((cls, soln_name) # rest) st =
     (case send_with_retry [make_update soln_name (fst (clock st)) uri switch_on] (swm st) (out st) of
        None \<Rightarrow> None
      | Some (Inl err, c, con) \<Rightarrow>
          Some (Inl err, st\<lparr>clock := snd (getGRAILTime (clock st)), swm := c, out := con\<rparr>)
      | Some (Inr u, c, con) \<Rightarrow>
          report_loop uri switch_on rest
            (st\<lparr>clock := snd (getGRAILTime (clock st)), swm := c,
               out := con @ [report_line uri soln_name switch_on]\<rparr>))"
  by (simp add: split_beta Let_def)

declare report_loop.simps(2) [simp del]

lemma due_lines_simps [simp]:
  "due_lines uri switch_on [] = []"
  "class_in_uri uri cls \<Longrightarrow>
     due_lines uri switch_on ((cls, soln_name) # o2s) =
       report_line uri soln_name switch_on # due_lines uri switch_on o2s"
  "\<not> class_in_uri uri cls \<Longrightarrow>
     due_lines uri switch_on ((cls, soln_name) # o2s) = due_lines uri switch_on o2s"
  by (simp_all add: due_lines_def)

lemma length_due [simp]: "length (due uri switch_on clk o2s) = length (due_lines uri switch_on o2s)"
  by (induction uri switch_on clk o2s rule: due.induct) (simp_all add: due_lines_def)

lemma due_Nil_iff: "due uri switch_on clk o2s = [] \<longleftrightarrow> (\<forall>cls \<in> set (smap_keys o2s). \<not> class_in_uri uri cls)"
  by (induction uri switch_on clk o2s rule: due.induct) (simp_all add: smap_keys_def)

lemma due_Nil_uri [simp]: "due [] switch_on clk o2s = []"
  by (simp add: due_Nil_iff)

text \<open>With a clock that stands still every update carries the same date.\<close>

lemma due_standing:
  "due uri switch_on (now, []) o2s =
     map (\<lambda>(cls, soln_name). make_update soln_name now uri switch_on)
       (filter (\<lambda>(cls, soln_name). class_in_uri uri cls) o2s)"
  by (induction o2s) auto

lemma is_cout_simps [simp]:
  "is_cout (report_line uri soln_name switch_on)"
  "\<not> is_cout retry_warning"
  by (simp_all add: report_line_def retry_warning_def)

lemma filter_is_cout_due_lines [simp]:
  "filter is_cout (due_lines uri switch_on o2s) = due_lines uri switch_on o2s"
  by (induction o2s) (auto simp: due_lines_def)

text \<open>
  How far a loop over \<open>n\<close> due updates got: all of them if it returned normally, and
  fewer if an error left it, which is then not the transient one.
\<close>

definition completed :: "unit result \<Rightarrow> nat \<Rightarrow> nat \<Rightarrow> bool" where
  "completed r k n \<longleftrightarrow>
     (case r of Inr u \<Rightarrow> k = n | Inl err \<Rightarrow> k < n \<and> err \<noteq> Runtime_error transient_msg)"

lemma completed_simps [simp]:
  "completed (Inr u) k n \<longleftrightarrow> k = n"
  "completed (Inl err) k n \<longleftrightarrow> k < n \<and> err \<noteq> Runtime_error transient_msg"
  by (simp_all add: completed_def)

lemma completed_le: "completed r k n \<Longrightarrow> k \<le> n"
  by (cases r) auto

text \<open>
  Induction over the turns of a loop that returned: the loop is over, or the class is
  skipped, or the send raised an error, or it succeeded and the loop went on.
\<close>

lemma report_loop_induct [consumes 1, case_names Nil skip thrown sent]:
  assumes ret: "report_loop uri switch_on o2s st = Some (r, st')"
    and Nil: "\<And>st. P [] st (Inr ()) st"
    and skip: "\<And>cls soln_name rest st r st'.
      \<not> class_in_uri uri cls \<Longrightarrow> report_loop uri switch_on rest st = Some (r, st') \<Longrightarrow>
      P rest st r st' \<Longrightarrow> P ((cls, soln_name) # rest) st r st'"
    and thrown: "\<And>cls soln_name rest st err c con.
      class_in_uri uri cls \<Longrightarrow>
      send_with_retry [make_update soln_name (fst (clock st)) uri switch_on] (swm st) (out st) =
        Some (Inl err, c, con) \<Longrightarrow>
      P ((cls, soln_name) # rest) st (Inl err) (st\<lparr>clock := snd (getGRAILTime (clock st)), swm := c, out := con\<rparr>)"
    and sent: "\<And>cls soln_name rest st c con r st'.
      class_in_uri uri cls \<Longrightarrow>
      send_with_retry [make_update soln_name (fst (clock st)) uri switch_on] (swm st) (out st) =
        Some (Inr (), c, con) \<Longrightarrow>
      report_loop uri switch_on rest
        (st\<lparr>clock := snd (getGRAILTime (clock st)), swm := c,
           out := con @ [report_line uri soln_name switch_on]\<rparr>) = Some (r, st') \<Longrightarrow>
      P rest (st\<lparr>clock := snd (getGRAILTime (clock st)), swm := c,
           out := con @ [report_line uri soln_name switch_on]\<rparr>) r st' \<Longrightarrow>
      P ((cls, soln_name) # rest) st r st'"
  shows "P o2s st r st'"
  using ret
proof (induction o2s arbitrary: st)
  case Nil
  then show ?case
    using assms(2) by simp
next
  case (Cons p rest)
  obtain cls soln_name where p: "p = (cls, soln_name)"
    by (cases p)
  show ?case
  proof (cases "class_in_uri uri cls")
    case False
    with Cons p show ?thesis
      by (auto intro: skip)
  next
    case True
    with Cons.prems p obtain q c con where
      call: "send_with_retry [make_update soln_name (fst (clock st)) uri switch_on] (swm st) (out st) =
        Some (q, c, con)"
      by (auto simp: report_loop_turn split: option.splits)
    show ?thesis
    proof (cases q)
      case (Inl err)
      with True call Cons.prems p show ?thesis
        using thrown [OF True, of soln_name st err c con rest] by (simp add: report_loop_turn)
    next
      case (Inr u)
      with True call Cons.prems p show ?thesis
        using sent [OF True, of soln_name st c con rest r st'] Cons.IH by (simp add: report_loop_turn)
    qed
  qed
qed

text \<open>The loop writes the connection, the console and the clock only.\<close>

lemma report_loop_frame [owl_frame]:
  assumes "report_loop uri switch_on o2s st = Some (r, st')"
  shows "object_to_solution st' = object_to_solution st"
    and "tx_to_uri st' = tx_to_uri st"
    and "switch_state st' = switch_state st"
  using assms by (induction rule: report_loop_induct; simp)+

lemma report_loop_registration [owl_frame]:
  assumes "report_loop uri switch_on o2s st = Some (r, st')"
  shows "sc_types (swm st') = sc_types (swm st) \<and> sc_origin (swm st') = sc_origin (swm st) \<and>
     sc_connected (swm st') = sc_connected (swm st)"
  using assms by (induction rule: report_loop_induct) (auto dest: send_with_retry_frame)

text \<open>A loop that returns normally has read the clock once for each update.\<close>

lemma report_loop_clock:
  assumes "report_loop uri switch_on o2s st = Some (Inr (), st')"
  shows "clock st' = after_reads (length (due_lines uri switch_on o2s)) (clock st)"
proof -
  have "r = Inr () \<longrightarrow> clock st' = after_reads (length (due_lines uri switch_on o2s)) (clock st)"
    if "report_loop uri switch_on o2s st = Some (r, st')" for r
    using that by (induction rule: report_loop_induct) simp_all
  with assms show ?thesis
    by blast
qed

text \<open>
  Whatever the connection does, what it has accepted when the loop returns is a prefix of
  what was due, in order, each update a batch of its own, with the console line of each
  accepted update printed; the prefix is everything exactly if no error was raised.
\<close>

lemma report_loop_result:
  assumes "report_loop uri switch_on o2s st = Some (r, st')"
  shows "\<exists>k. sc_accepted (swm st') =
           sc_accepted (swm st) @ map (\<lambda>u. [u]) (take k (due uri switch_on (clock st) o2s)) \<and>
         filter is_cout (out st') = filter is_cout (out st) @ take k (due_lines uri switch_on o2s) \<and>
         completed r k (length (due uri switch_on (clock st) o2s))"
  using assms
proof (induction rule: report_loop_induct)
  case (Nil st)
  show ?case
    by (intro exI [of _ 0]) simp
next
  case (skip cls soln_name rest st r st')
  then show ?case
    by simp
next
  case (thrown cls soln_name rest st err c con)
  from thrown(2) show ?case
    by (cases rule: send_with_retry_cases) (auto intro!: exI [of _ 0] simp: thrown(1))
next
  case (sent cls soln_name rest st c con r st')
  from sent(4) obtain k where k:
    "sc_accepted (swm st') = sc_accepted c @
       map (\<lambda>u. [u]) (take k (due uri switch_on (snd (getGRAILTime (clock st))) rest))"
    "filter is_cout (out st') =
       filter is_cout (con @ [report_line uri soln_name switch_on]) @ take k (due_lines uri switch_on rest)"
    "completed r k (length (due_lines uri switch_on rest))"
    by auto
  from sent(2) k sent(1) show ?case
    by (cases rule: send_with_retry_cases) (auto intro!: exI [of _ "Suc k"] simp: completed_def split: sum.splits)
qed

text \<open>Against a reliable connection the loop returns without an error.\<close>

lemma report_loop_reliable:
  assumes "reliable (swm st)"
  shows "\<exists>st'. report_loop uri switch_on o2s st = Some (Inr (), st') \<and> reliable (swm st')"
  using assms
proof (induction o2s arbitrary: st)
  case Nil
  then show ?case by simp
next
  case (Cons p o2s)
  obtain cls soln_name where p: "p = (cls, soln_name)"
    by (cases p)
  show ?case
  proof (cases "class_in_uri uri cls")
    case False
    with Cons p show ?thesis by simp
  next
    case True
    let ?u = "make_update soln_name (fst (clock st)) uri switch_on"
    from Cons.prems obtain n where
      "send_with_retry [?u] (swm st) (out st) =
         Some (Inr (), accept [?u] (advance_by (Suc n) (swm st)), out st @ replicate n retry_warning)"
      by (rule send_with_retry_reliable)
    moreover have "reliable (accept [?u] (advance_by (Suc n) (swm st)))"
      using Cons.prems by simp
    ultimately show ?thesis
      using True p Cons.IH
        [of "st\<lparr>clock := snd (getGRAILTime (clock st)),
              swm := accept [?u] (advance_by (Suc n) (swm st)),
              out := (out st @ replicate n retry_warning) @ [report_line uri soln_name switch_on]\<rparr>"]
      by (simp add: report_loop_turn)
  qed
qed

section \<open>The callback\<close>

lemma packet_callback_ignored: "switch_value s = None \<Longrightarrow> packet_callback s st = Some (Inr (), st)"
  by (simp add: packet_callback_def)

lemma packet_callback_known:
  assumes "switch_value s = Some v"
    and "smap_find (uri_of s st) (switch_state st) = Some (is_on v)"
  shows "packet_callback s st = Some (Inr (), snd (lookup_uri s st))"
proof -
  have "track (uri_of s st) (is_on v) (switch_state st) = (False, switch_state st)"
    using assms(2) by (simp add: prod_eq_iff track_novel track_state)
  with assms(1) show ?thesis
    by (simp add: packet_callback_def split_beta Let_def is_on_def)
qed

lemma packet_callback_novel:
  assumes "switch_value s = Some v"
    and "smap_find (uri_of s st) (switch_state st) \<noteq> Some (is_on v)"
  shows "packet_callback s st =
     report_loop (uri_of s st) (is_on v) (object_to_solution st)
       ((snd (lookup_uri s st))\<lparr>switch_state := smap_assign (uri_of s st) (is_on v) (switch_state st)\<rparr>)"
proof -
  have "track (uri_of s st) (is_on v) (switch_state st) =
      (True, smap_assign (uri_of s st) (is_on v) (switch_state st))"
    using assms(2) by (simp add: prod_eq_iff track_novel track_state)
  with assms(1) show ?thesis
    by (simp add: packet_callback_def split_beta Let_def is_on_def)
qed

lemmas packet_callback_cases = packet_callback_ignored packet_callback_known packet_callback_novel

text \<open>
  A sample is novel if it passes the filter and the tracker has no value, or another value,
  for its URI. \<open>owed\<close> lists the updates the callback then has to push, and
  \<open>owed_lines\<close> the console lines that go with them.
\<close>

definition novel :: "SampleData \<Rightarrow> solver_state \<Rightarrow> bool" where
  "novel s st \<longleftrightarrow>
     (case switch_value s of
        None \<Rightarrow> False
      | Some v \<Rightarrow> smap_find (uri_of s st) (switch_state st) \<noteq> Some (is_on v))"

definition owed :: "SampleData \<Rightarrow> solver_state \<Rightarrow> AttrUpdate list" where
  "owed s st =
     (case switch_value s of
        None \<Rightarrow> []
      | Some v \<Rightarrow>
          if novel s st
          then due (uri_of s st) (is_on v) (clock st) (object_to_solution st) else [])"

definition owed_lines :: "SampleData \<Rightarrow> solver_state \<Rightarrow> out_line list" where
  "owed_lines s st =
     (case switch_value s of
        None \<Rightarrow> []
      | Some v \<Rightarrow>
          if novel s st then due_lines (uri_of s st) (is_on v) (object_to_solution st) else [])"

lemma owed_not_novel [simp]: "\<not> novel s st \<Longrightarrow> owed s st = []" "\<not> novel s st \<Longrightarrow> owed_lines s st = []"
  by (simp_all add: owed_def owed_lines_def split: option.splits)

lemma novel_ignored [simp]: "switch_value s = None \<Longrightarrow> \<not> novel s st"
  by (simp add: novel_def)

lemma packet_callback_not_novel:
  "\<not> novel s st \<Longrightarrow>
   packet_callback s st =
     Some (Inr (), if switch_value s = None then st else snd (lookup_uri s st))"
  by (cases "switch_value s") (simp_all add: novel_def packet_callback_cases)

text \<open>The tables after the callback, whatever the connection did.\<close>

lemma packet_callback_frame [owl_frame]:
  assumes "packet_callback s st = Some (r, st')"
  shows "object_to_solution st' = object_to_solution st"
proof (cases "novel s st")
  case False
  with assms show ?thesis
    by (auto simp: packet_callback_not_novel split: if_splits)
next
  case True
  then obtain v where "switch_value s = Some v"
    and "smap_find (uri_of s st) (switch_state st) \<noteq> Some (is_on v)"
    by (auto simp: novel_def split: option.splits)
  with assms show ?thesis
    by (auto simp: packet_callback_novel dest: report_loop_frame)
qed

lemma packet_callback_registration [owl_frame]:
  assumes "packet_callback s st = Some (r, st')"
  shows "sc_types (swm st') = sc_types (swm st) \<and> sc_origin (swm st') = sc_origin (swm st) \<and>
     sc_connected (swm st') = sc_connected (swm st)"
proof (cases "novel s st")
  case False
  with assms show ?thesis
    by (auto simp: packet_callback_not_novel split: if_splits)
next
  case True
  then obtain v where "switch_value s = Some v"
    and "smap_find (uri_of s st) (switch_state st) \<noteq> Some (is_on v)"
    by (auto simp: novel_def split: option.splits)
  with assms show ?thesis
    by (auto simp: packet_callback_novel dest!: report_loop_registration)
qed

lemma packet_callback_tables:
  assumes "packet_callback s st = Some (r, st')"
  shows "tx_to_uri st' =
       (if switch_value s = None then tx_to_uri st else tx_to_uri (snd (lookup_uri s st)))"
    and "switch_state st' =
       (case switch_value s of
          None \<Rightarrow> switch_state st
        | Some v \<Rightarrow> snd (track (uri_of s st) (is_on v) (switch_state st)))"
proof -
  have "tx_to_uri st' =
       (if switch_value s = None then tx_to_uri st else tx_to_uri (snd (lookup_uri s st))) \<and>
     switch_state st' =
       (case switch_value s of
          None \<Rightarrow> switch_state st
        | Some v \<Rightarrow> snd (track (uri_of s st) (is_on v) (switch_state st)))"
  proof (cases "novel s st")
    case False
    with assms show ?thesis
      by (cases "switch_value s")
        (auto simp: packet_callback_not_novel novel_def track_state)
  next
    case True
    then obtain v where "switch_value s = Some v"
      and "smap_find (uri_of s st) (switch_state st) \<noteq> Some (is_on v)"
      by (auto simp: novel_def split: option.splits)
    with assms show ?thesis
      by (auto simp: packet_callback_novel track_state dest: report_loop_frame)
  qed
  then show "tx_to_uri st' =
       (if switch_value s = None then tx_to_uri st else tx_to_uri (snd (lookup_uri s st)))"
    and "switch_state st' =
       (case switch_value s of
          None \<Rightarrow> switch_state st
        | Some v \<Rightarrow> snd (track (uri_of s st) (is_on v) (switch_state st)))"
    by simp_all
qed

text \<open>What the connection has accepted and what was printed, whatever the connection did.\<close>

lemma packet_callback_result:
  assumes "packet_callback s st = Some (r, st')"
  shows "\<exists>k. sc_accepted (swm st') = sc_accepted (swm st) @ map (\<lambda>u. [u]) (take k (owed s st)) \<and>
         filter is_cout (out st') = filter is_cout (out st) @ take k (owed_lines s st) \<and>
         completed r k (length (owed s st))"
proof (cases "novel s st")
  case False
  with assms show ?thesis
    by (intro exI [of _ 0]) (auto simp: packet_callback_not_novel split: if_splits)
next
  case True
  then obtain v where v: "switch_value s = Some v"
    and nv: "smap_find (uri_of s st) (switch_state st) \<noteq> Some (is_on v)"
    by (auto simp: novel_def split: option.splits)
  let ?st2 = "(snd (lookup_uri s st))\<lparr>switch_state :=
      smap_assign (uri_of s st) (is_on v) (switch_state st)\<rparr>"
  from assms v nv have "report_loop (uri_of s st) (is_on v) (object_to_solution st) ?st2 = Some (r, st')"
    by (simp add: packet_callback_novel)
  from report_loop_result [OF this] True v show ?thesis
    by (simp add: owed_def owed_lines_def)
qed

text \<open>A callback that returns normally has read the clock once for each update it owed.\<close>

lemma packet_callback_clock:
  assumes "packet_callback s st = Some (Inr (), st')"
  shows "clock st' = after_reads (length (owed_lines s st)) (clock st)"
proof (cases "novel s st")
  case False
  with assms show ?thesis
    by (auto simp: packet_callback_not_novel split: if_splits)
next
  case True
  then obtain v where v: "switch_value s = Some v"
    and nv: "smap_find (uri_of s st) (switch_state st) \<noteq> Some (is_on v)"
    by (auto simp: novel_def split: option.splits)
  with assms True show ?thesis
    by (auto simp: packet_callback_novel owed_lines_def dest: report_loop_clock)
qed

lemma packet_callback_reliable:
  assumes "reliable (swm st)"
  shows "\<exists>st'. packet_callback s st = Some (Inr (), st') \<and> reliable (swm st')"
proof (cases "novel s st")
  case False
  with assms show ?thesis
    by (simp add: packet_callback_not_novel)
next
  case True
  then obtain v where "switch_value s = Some v"
    and "smap_find (uri_of s st) (switch_state st) \<noteq> Some (is_on v)"
    by (auto simp: novel_def split: option.splits)
  with assms show ?thesis
    by (simp add: packet_callback_novel report_loop_reliable)
qed

text \<open>
  Against a reliable connection the callback returns normally, pushes everything that is
  owed, and leaves a reliable connection.
\<close>

lemma packet_callback_reliable_effect:
  assumes "reliable (swm st)"
  obtains st' where "packet_callback s st = Some (Inr (), st')"
    and "reliable (swm st')"
    and "sc_accepted (swm st') = sc_accepted (swm st) @ map (\<lambda>u. [u]) (owed s st)"
    and "filter is_cout (out st') = filter is_cout (out st) @ owed_lines s st"
proof -
  from assms obtain st' where ret: "packet_callback s st = Some (Inr (), st')"
    and rel: "reliable (swm st')"
    using packet_callback_reliable by blast
  from packet_callback_result [OF ret]
  have "sc_accepted (swm st') = sc_accepted (swm st) @ map (\<lambda>u. [u]) (owed s st)"
    and "filter is_cout (out st') = filter is_cout (out st) @ owed_lines s st"
    by (auto simp: owed_def owed_lines_def split: option.splits)
  with ret rel show thesis
    by (rule that)
qed

section \<open>A transmitter and a class for the examples\<close>

definition mug_classes :: "(u16string, u16string) std_map" where
  "mug_classes = [(toU16 ''mug'', toU16 ''switch_state'')]"

definition mug_uri :: URI where
  "mug_uri = toU16 ''room1.mug.mug42''"

definition mug_sample :: "byte \<Rightarrow> SampleData" where
  "mug_sample b = \<lparr>sd_valid = True, sd_physical_layer = 1, sd_tx_id = 42, sd_sense_data = [b]\<rparr>"

definition mug_state :: "(URI, bool) std_map \<Rightarrow> solver_conn \<Rightarrow> solver_state" where
  "mug_state tracked c =
     \<lparr>object_to_solution = mug_classes, tx_to_uri = [((1, 42), mug_uri)],
      switch_state = tracked, swm = c, out = [], clock = (1000, [])\<rparr>"

lemma mug_sample_value [simp]:
  "switch_value (mug_sample 255) = Some 255"
  "switch_value (mug_sample 0) = Some 0"
  "switch_value (mug_sample 7) = None"
  by (simp_all add: switch_value_def mug_sample_def)

lemma mug_uri_of [simp]: "uri_of (mug_sample b) (mug_state tracked c) = mug_uri"
  by (simp add: uri_of_def mug_sample_def mug_state_def)

lemma mug_lookup [simp]: "lookup_uri (mug_sample b) (mug_state tracked c) = (mug_uri, mug_state tracked c)"
  by (simp add: lookup_uri_known mug_sample_def mug_state_def)

lemma mug_state_simps [simp]:
  "object_to_solution (mug_state tracked c) = mug_classes"
  "switch_state (mug_state tracked c) = tracked"
  "swm (mug_state tracked c) = c"
  "out (mug_state tracked c) = []"
  "clock (mug_state tracked c) = (1000, [])"
  by (simp_all add: mug_state_def)

lemma mug_class_in_uri [simp]: "class_in_uri mug_uri (toU16 ''mug'')"
  unfolding class_in_uri_def by code_simp

lemma mug_due [simp]:
  "due mug_uri switch_on clk mug_classes = [make_update (toU16 ''switch_state'') (fst clk) mug_uri switch_on]"
  by (simp add: mug_classes_def)

lemma mug_due_lines [simp]:
  "due_lines mug_uri switch_on mug_classes = [report_line mug_uri (toU16 ''switch_state'') switch_on]"
  by (simp add: mug_classes_def)

lemma make_update_fields [simp]:
  "au_name (make_update soln_name now uri switch_on) = soln_name"
  "au_creation_date (make_update soln_name now uri switch_on) = now"
  "au_uri (make_update soln_name now uri switch_on) = uri"
  "au_data (make_update soln_name now uri switch_on) = [if switch_on then 1 else 0]"
  by (simp_all add: make_update_def pushBackVal_u8_def)

lemma mug_key_found [simp]:
  "smap_find (sd_physical_layer (mug_sample b), sd_tx_id (mug_sample b))
     (tx_to_uri (mug_state tracked c)) = Some mug_uri"
  by (simp add: mug_sample_def mug_state_def)

lemma mug_tracked_inv [simp]: "smap_inv [(mug_uri, v)]"
  by simp

lemma reliable_conn0 [simp]: "reliable (conn0 [] Sent)"
  by (simp add: reliable_def)

lemma is_on_simps [simp]: "is_on 255" "\<not> is_on 0"
  by (simp_all add: is_on_def)

section \<open>Properties of the callback\<close>

text \<open>
  Property C9. A sample that is invalid, or does not carry exactly one byte of sense data,
  or whose byte is neither 0 nor 255, causes no transition and no report: the callback
  returns normally and leaves the whole state as it was.
\<close>

theorem filtered_sample_ignored:
  assumes "\<not> (sd_valid s \<and> (sd_sense_data s = [0] \<or> sd_sense_data s = [255]))"
  shows "packet_callback s st = Some (Inr (), st)"
proof -
  from assms have "switch_value s = None"
    by (cases "switch_value s") (auto simp: switch_value_Some_iff)
  then show ?thesis
    by (rule packet_callback_ignored)
qed

theorem filtered_sample_ignored_witness:
  "packet_callback (mug_sample 7) (mug_state [] (conn0 [] Sent)) =
     Some (Inr (), mug_state [] (conn0 [] Sent))"
  using filtered_sample_ignored [of "mug_sample 7" "mug_state [] (conn0 [] Sent)"]
  by (simp add: mug_sample_def)

text \<open>
  Property C2. A sample that repeats the value the tracker has recorded for its URI is
  suppressed: the callback returns normally without calling the connection, printing or
  changing the tracker.
\<close>

theorem repeated_value_suppressed:
  assumes "switch_value s = Some v"
    and "smap_find (uri_of s st) (switch_state st) = Some (is_on v)"
  shows "\<exists>st'. packet_callback s st = Some (Inr (), st') \<and>
     swm st' = swm st \<and> out st' = out st \<and> switch_state st' = switch_state st"
  using assms by (simp add: packet_callback_known)

theorem repeated_value_suppressed_witness:
  "\<exists>st'. packet_callback (mug_sample 255) (mug_state [(mug_uri, True)] (conn0 [] Sent)) = Some (Inr (), st') \<and>
     swm st' = swm (mug_state [(mug_uri, True)] (conn0 [] Sent)) \<and>
     out st' = out (mug_state [(mug_uri, True)] (conn0 [] Sent)) \<and>
     switch_state st' = switch_state (mug_state [(mug_uri, True)] (conn0 [] Sent))"
  using repeated_value_suppressed
    [of "mug_sample 255" 255 "mug_state [(mug_uri, True)] (conn0 [] Sent)"]
  by simp

text \<open>
  Property C1. A sample whose value differs from the recorded one, or whose URI has no
  recorded value, is reported against a reliable connection: the callback returns
  normally, the connection has accepted one single-update batch per class that is a segment
  of the URI, in the key order of the class table, each update dated with the reading of
  the clock at its turn, one console line is printed for each, and the tracker records the
  new value.
\<close>

theorem novel_value_reported:
  assumes "switch_value s = Some v"
    and "smap_find (uri_of s st) (switch_state st) \<noteq> Some (is_on v)"
    and "reliable (swm st)" and "smap_inv (switch_state st)"
  shows "\<exists>st'. packet_callback s st = Some (Inr (), st') \<and>
     sc_accepted (swm st') = sc_accepted (swm st) @
       map (\<lambda>u. [u]) (due (uri_of s st) (is_on v) (clock st) (object_to_solution st)) \<and>
     filter is_cout (out st') = filter is_cout (out st) @
       due_lines (uri_of s st) (is_on v) (object_to_solution st) \<and>
     smap_find (uri_of s st) (switch_state st') = Some (is_on v)"
proof -
  from assms(3) obtain st' where ret: "packet_callback s st = Some (Inr (), st')"
    and "sc_accepted (swm st') = sc_accepted (swm st) @ map (\<lambda>u. [u]) (owed s st)"
    and "filter is_cout (out st') = filter is_cout (out st) @ owed_lines s st"
    by (rule packet_callback_reliable_effect)
  moreover from assms(1,2) have "novel s st"
    by (simp add: novel_def)
  moreover have "smap_find (uri_of s st) (switch_state st') = Some (is_on v)"
    using packet_callback_tables(2) [OF ret] assms(1,4) by simp
  ultimately show ?thesis
    using assms(1) by (simp add: owed_def owed_lines_def)
qed

text \<open>
  The witness: the mug of the examples, and a lamp in a hall whose URI holds two registered
  classes, with a clock that moves between the two updates.
\<close>

definition hall_state :: solver_state where
  "hall_state =
     \<lparr>object_to_solution = [(toU16 ''hall'', toU16 ''lit''), (toU16 ''lamp'', toU16 ''switch_state'')],
      tx_to_uri = [((1, 42), toU16 ''b.hall.lamp.7'')],
      switch_state = [], swm = conn0 [] Sent, out = [], clock = (1000, [1004, 1009])\<rparr>"

lemma hall_segments:
  "class_in_uri (toU16 ''b.hall.lamp.7'') (toU16 ''hall'')"
  "class_in_uri (toU16 ''b.hall.lamp.7'') (toU16 ''lamp'')"
  unfolding class_in_uri_def by code_simp+

theorem novel_value_reported_witness:
  "(\<exists>st'. packet_callback (mug_sample 255) (mug_state [] (conn0 [] Sent)) = Some (Inr (), st') \<and>
     sc_accepted (swm st') = [[make_update (toU16 ''switch_state'') 1000 mug_uri True]] \<and>
     filter is_cout (out st') = [report_line mug_uri (toU16 ''switch_state'') True] \<and>
     smap_find mug_uri (switch_state st') = Some True) \<and>
   (\<exists>st'. packet_callback (mug_sample 255) hall_state = Some (Inr (), st') \<and>
     sc_accepted (swm st') =
       [[make_update (toU16 ''lit'') 1000 (toU16 ''b.hall.lamp.7'') True],
        [make_update (toU16 ''switch_state'') 1004 (toU16 ''b.hall.lamp.7'') True]])"
proof -
  have uri: "uri_of (mug_sample 255) hall_state = toU16 ''b.hall.lamp.7''"
    by (simp add: uri_of_def mug_sample_def hall_state_def)
  have "reliable (swm hall_state)" and "smap_inv (switch_state hall_state)"
    and "smap_find (uri_of (mug_sample 255) hall_state) (switch_state hall_state) \<noteq> Some (is_on 255)"
    by (simp_all add: hall_state_def)
  from novel_value_reported [OF mug_sample_value(1) this(3,1,2)] obtain st' where
    "packet_callback (mug_sample 255) hall_state = Some (Inr (), st')"
    and "sc_accepted (swm st') = sc_accepted (swm hall_state) @
       map (\<lambda>u. [u]) (due (uri_of (mug_sample 255) hall_state) (is_on 255) (clock hall_state)
         (object_to_solution hall_state))"
    by blast
  then have "\<exists>st'. packet_callback (mug_sample 255) hall_state = Some (Inr (), st') \<and>
     sc_accepted (swm st') =
       [[make_update (toU16 ''lit'') 1000 (toU16 ''b.hall.lamp.7'') True],
        [make_update (toU16 ''switch_state'') 1004 (toU16 ''b.hall.lamp.7'') True]]"
    by (simp add: uri) (simp add: hall_state_def hall_segments)
  with novel_value_reported [of "mug_sample 255" 255 "mug_state [] (conn0 [] Sent)"]
  show ?thesis
    by simp
qed

text \<open>
  Property C14. Whatever the connection does, when the callback returns the connection has
  accepted a prefix of the updates that were owed, each as a batch of its own and in the key
  order of the class table, and the console shows the line of each accepted update; the
  prefix is all of them exactly if the callback returned normally, and an error that leaves
  the callback is never the transient one.
\<close>

theorem callback_pushes_prefix_of_owed:
  assumes "packet_callback s st = Some (r, st')"
  shows "\<exists>k \<le> length (owed s st).
     sc_accepted (swm st') = sc_accepted (swm st) @ map (\<lambda>u. [u]) (take k (owed s st)) \<and>
     filter is_cout (out st') = filter is_cout (out st) @ take k (owed_lines s st) \<and>
     completed r k (length (owed s st))"
  using packet_callback_result [OF assms] by (auto dest: completed_le)

lemma due_Nil_report_loop:
  "due uri switch_on (clock st) o2s = [] \<Longrightarrow> report_loop uri switch_on o2s st = Some (Inr (), st)"
  by (induction o2s) (auto split: if_splits)

lemma uri_of_cong: "tx_to_uri st1 = tx_to_uri st2 \<Longrightarrow> uri_of s st1 = uri_of s st2"
  by (simp add: uri_of_def)

lemma lookup_uri_idem:
  "smap_inv (tx_to_uri st) \<Longrightarrow> tx_to_uri st1 = tx_to_uri (snd (lookup_uri s st)) \<Longrightarrow>
   lookup_uri s st1 = (uri_of s st, st1)"
proof -
  assume inv: "smap_inv (tx_to_uri st)" and eq: "tx_to_uri st1 = tx_to_uri (snd (lookup_uri s st))"
  have "smap_find (sd_physical_layer s, sd_tx_id s) (tx_to_uri st1) = Some (uri_of s st)"
    using inv by (simp add: eq lookup_uri_table smap_index_find smap_index_value uri_of_def)
  then show ?thesis
    by (rule lookup_uri_known)
qed

text \<open>
  Property C15. The tracker is updated before the updates are pushed. If a send error
  leaves the callback, fewer updates were accepted than were owed, and a second delivery of
  the same sample is suppressed: it returns normally and changes nothing, so the updates
  that were not accepted are never pushed for this value.
\<close>

theorem failed_push_not_repeated:
  assumes "packet_callback s st = Some (Inl err, st1)"
    and "smap_inv (tx_to_uri st)" and "smap_inv (switch_state st)"
  shows "length (sc_accepted (swm st1)) < length (sc_accepted (swm st)) + length (owed s st) \<and>
     packet_callback s st1 = Some (Inr (), st1)"
proof -
  from packet_callback_result [OF assms(1)] obtain k where
    acc: "sc_accepted (swm st1) = sc_accepted (swm st) @ map (\<lambda>u. [u]) (take k (owed s st))"
    and k: "k < length (owed s st)"
    by auto
  from k have "novel s st"
    by (cases "novel s st") simp_all
  then obtain v where v: "switch_value s = Some v"
    by (auto simp: novel_def split: option.splits)
  note tabs = packet_callback_tables [OF assms(1)]
  from tabs(1) v assms(2) have look: "lookup_uri s st1 = (uri_of s st, st1)"
    by (simp add: lookup_uri_idem)
  then have "uri_of s st1 = uri_of s st"
    by (metis fst_conv fst_lookup_uri)
  moreover from tabs(2) v assms(3) have "smap_find (uri_of s st) (switch_state st1) = Some (is_on v)"
    by simp
  ultimately have "packet_callback s st1 = Some (Inr (), st1)"
    using v look by (simp add: packet_callback_known)
  with acc k show ?thesis
    by simp
qed

lemma mug_failed_push:
  "packet_callback (mug_sample 255) (mug_state [] (conn0 [Throws (Runtime_error ''Broken pipe'')] Sent)) =
     Some (Inl (Runtime_error ''Broken pipe''),
       mug_state [(mug_uri, True)] (advance (conn0 [Throws (Runtime_error ''Broken pipe'')] Sent)))"
  by (simp add: packet_callback_novel mug_classes_def transient_msg_def
      send_with_retry_permanent [where err = "Runtime_error ''Broken pipe''"])
    (simp add: mug_state_def)

theorem failed_push_not_repeated_witness:
  "length (sc_accepted (swm (mug_state [(mug_uri, True)] (advance (conn0 [Throws (Runtime_error ''Broken pipe'')] Sent)))))
     < length (sc_accepted (swm (mug_state [] (conn0 [Throws (Runtime_error ''Broken pipe'')] Sent)))) +
       length (owed (mug_sample 255) (mug_state [] (conn0 [Throws (Runtime_error ''Broken pipe'')] Sent))) \<and>
   packet_callback (mug_sample 255)
     (mug_state [(mug_uri, True)] (advance (conn0 [Throws (Runtime_error ''Broken pipe'')] Sent))) =
     Some (Inr (), mug_state [(mug_uri, True)] (advance (conn0 [Throws (Runtime_error ''Broken pipe'')] Sent)))"
  using failed_push_not_repeated [OF mug_failed_push] by (simp add: mug_state_def)

theorem callback_pushes_prefix_of_owed_witness:
  "\<exists>k \<le> length (owed (mug_sample 255) (mug_state [] (conn0 [Throws (Runtime_error ''Broken pipe'')] Sent))).
     sc_accepted (swm (mug_state [(mug_uri, True)] (advance (conn0 [Throws (Runtime_error ''Broken pipe'')] Sent)))) =
       sc_accepted (swm (mug_state [] (conn0 [Throws (Runtime_error ''Broken pipe'')] Sent))) @
       map (\<lambda>u. [u]) (take k (owed (mug_sample 255) (mug_state [] (conn0 [Throws (Runtime_error ''Broken pipe'')] Sent)))) \<and>
     filter is_cout (out (mug_state [(mug_uri, True)] (advance (conn0 [Throws (Runtime_error ''Broken pipe'')] Sent)))) =
       filter is_cout (out (mug_state [] (conn0 [Throws (Runtime_error ''Broken pipe'')] Sent))) @
       take k (owed_lines (mug_sample 255) (mug_state [] (conn0 [Throws (Runtime_error ''Broken pipe'')] Sent))) \<and>
     completed (Inl (Runtime_error ''Broken pipe'')) k
       (length (owed (mug_sample 255) (mug_state [] (conn0 [Throws (Runtime_error ''Broken pipe'')] Sent))))"
  using callback_pushes_prefix_of_owed [OF mug_failed_push] .

text \<open>
  Property C38. A sample from a transmitter that is not in \<^verbatim>\<open>tx_to_uri\<close> is resolved to
  the empty URI, which \<^verbatim>\<open>operator[]\<close> enters into the table; no class is a segment of the
  empty URI, so the callback returns normally without calling the connection or printing.
\<close>

theorem unknown_transmitter_not_reported:
  assumes "smap_find (sd_physical_layer s, sd_tx_id s) (tx_to_uri st) = None"
    and "switch_value s = Some v" and "smap_inv (tx_to_uri st)"
  shows "\<exists>st'. packet_callback s st = Some (Inr (), st') \<and> swm st' = swm st \<and> out st' = out st \<and>
     smap_find (sd_physical_layer s, sd_tx_id s) (tx_to_uri st') = Some []"
proof -
  from assms(1) have uri: "uri_of s st = []"
    by (simp add: uri_of_def)
  have tab: "smap_find (sd_physical_layer s, sd_tx_id s) (tx_to_uri (snd (lookup_uri s st))) = Some []"
    using assms(1,3) by (simp add: lookup_uri_table smap_index_find smap_index_value)
  show ?thesis
  proof (cases "novel s st")
    case False
    with assms(2) tab show ?thesis
      by (simp add: packet_callback_not_novel)
  next
    case True
    with assms(2) have "smap_find (uri_of s st) (switch_state st) \<noteq> Some (is_on v)"
      by (simp add: novel_def)
    with assms(2) tab show ?thesis
      by (simp add: packet_callback_novel uri due_Nil_report_loop)
  qed
qed

theorem unknown_transmitter_not_reported_witness:
  "\<exists>st'. packet_callback (mug_sample 255) ((mug_state [] (conn0 [] Sent))\<lparr>tx_to_uri := []\<rparr>) =
       Some (Inr (), st') \<and>
     swm st' = swm ((mug_state [] (conn0 [] Sent))\<lparr>tx_to_uri := []\<rparr>) \<and>
     out st' = out ((mug_state [] (conn0 [] Sent))\<lparr>tx_to_uri := []\<rparr>) \<and>
     smap_find (sd_physical_layer (mug_sample 255), sd_tx_id (mug_sample 255)) (tx_to_uri st') = Some []"
  using unknown_transmitter_not_reported
    [of "mug_sample 255" "(mug_state [] (conn0 [] Sent))\<lparr>tx_to_uri := []\<rparr>" 255]
  by (simp add: switch_value_def mug_sample_def)

end
