(* ===== verification/Solver_Run.thy ===== *)
theory Solver_Run
  imports Solver_Callback
begin

text \<open>
  The solver as a state machine. Its state is the \<open>solver_state\<close> that \<^verbatim>\<open>main\<close> sets up
  before it installs the callback. Its steps are the events that reach that state from
  outside:
  \<^item> \<open>Sample\<close>, the delivery of a sample by the aggregator thread: one call of
    \<open>packet_callback\<close>, atomic because the callback runs on one thread and takes the
    mutex for the table. This is the only event the program itself performs.
  \<^item> \<open>Discover\<close>, the entry of a transmitter into \<^verbatim>\<open>tx_to_uri\<close> under
    \<^verbatim>\<open>tx_to_uri_mutex\<close>. No statement of the source makes such an entry: the table and its
    mutex are declared for a writer that the comments at source lines 120 and 125
    announce and the file does not contain. The event stands for that writer, so that the
    theorems cover the solver with a table that is filled; the runs of the program as it
    is written are the runs without this event, and the last property of this theory is
    about exactly those.
  \<^item> \<open>Tick\<close>, time passing between two deliveries: the next reading of the clock is
    set. The readings within one callback are those of the clock in the state.

  An exception that leaves the callback passes into the aggregator of the library, which
  is outside the repository; the run ends there. The step relation has a step for a
  delivery only if the callback returns normally, and \<open>run_events\<close> stops at the first
  exception and returns it with the state at the throw.

  The step relation is \<^theory_text>\<open>inductive\<close>; \<open>run_events\<close> is its executable form, and
  the two are shown to agree. The invariants are proved by rule induction over runs.
\<close>

section \<open>Events, steps and runs\<close>

datatype event = Sample SampleData | Discover tx_key URI | Tick grail_time

definition init_solver ::
  "(u16string, u16string) std_map \<Rightarrow> solver_conn \<Rightarrow> console \<Rightarrow> readings \<Rightarrow> solver_state" where
  "init_solver o2s conn con now =
     \<lparr>object_to_solution = o2s, tx_to_uri = [], switch_state = [], swm = conn, out = con,
      clock = now\<rparr>"

inductive solver_step :: "solver_state \<Rightarrow> event \<Rightarrow> solver_state \<Rightarrow> bool" where
  sample: "packet_callback s st = Some (Inr (), st') \<Longrightarrow> solver_step st (Sample s) st'"
| discover: "solver_step st (Discover k uri) (st\<lparr>tx_to_uri := smap_assign k uri (tx_to_uri st)\<rparr>)"
| tick: "solver_step st (Tick t) (st\<lparr>clock := (t, snd (clock st))\<rparr>)"

inductive solver_run :: "solver_state \<Rightarrow> event list \<Rightarrow> solver_state \<Rightarrow> bool" where
  finished: "solver_run st [] st"
| step: "solver_step st e st1 \<Longrightarrow> solver_run st1 es st' \<Longrightarrow> solver_run st (e # es) st'"

inductive_cases sampleE [elim!]: "solver_step st (Sample s) st'"
inductive_cases discoverE [elim!]: "solver_step st (Discover k uri) st'"
inductive_cases tickE [elim!]: "solver_step st (Tick t) st'"
inductive_cases run_NilE [elim!]: "solver_run st [] st'"
inductive_cases run_ConsE [elim!]: "solver_run st (e # es) st'"

inductive_simps solver_run_Nil [simp]: "solver_run st [] st'"
inductive_simps solver_run_Cons: "solver_run st (e # es) st'"

fun deliver :: "event \<Rightarrow> solver_state \<Rightarrow> (unit result \<times> solver_state) option" where
  "deliver (Sample s) st = packet_callback s st"
| "deliver (Discover k uri) st = Some (Inr (), st\<lparr>tx_to_uri := smap_assign k uri (tx_to_uri st)\<rparr>)"
| "deliver (Tick t) st = Some (Inr (), st\<lparr>clock := (t, snd (clock st))\<rparr>)"

fun run_events :: "event list \<Rightarrow> solver_state \<Rightarrow> (unit result \<times> solver_state) option" where
  "run_events [] st = Some (Inr (), st)"
| "run_events (e # es) st =
     (case deliver e st of
        None \<Rightarrow> None
      | Some (Inl err, st') \<Rightarrow> Some (Inl err, st')
      | Some (Inr u, st') \<Rightarrow> run_events es st')"

lemmas run_defs [owl_defs] = init_solver_def

section \<open>The relation and the function agree\<close>

lemma solver_step_deliver: "solver_step st e st' \<longleftrightarrow> deliver e st = Some (Inr (), st')"
  by (cases e) (auto intro: solver_step.intros)

lemma solver_run_events: "solver_run st es st' \<longleftrightarrow> run_events es st = Some (Inr (), st')"
proof (induction es arbitrary: st)
  case Nil
  show ?case by auto
next
  case (Cons e es)
  show ?case
    by (auto simp: solver_run_Cons solver_step_deliver Cons.IH
        split: option.splits sum.splits prod.splits)
qed

lemma solver_step_deterministic: "solver_step st e st1 \<Longrightarrow> solver_step st e st2 \<Longrightarrow> st1 = st2"
  by (simp add: solver_step_deliver)

lemma solver_run_append:
  "solver_run st es st1 \<Longrightarrow> solver_run st1 es' st' \<Longrightarrow> solver_run st (es @ es') st'"
  by (induction rule: solver_run.induct) (auto intro: solver_run.intros)

lemma run_events_append:
  "run_events (es @ es') st =
     (case run_events es st of
        None \<Rightarrow> None
      | Some (Inl err, st1) \<Rightarrow> Some (Inl err, st1)
      | Some (Inr u, st1) \<Rightarrow> run_events es' st1)"
  by (induction es arbitrary: st) (auto split: option.splits sum.splits prod.splits)

section \<open>Invariants\<close>

text \<open>The three tables keep their keys strictly increasing.\<close>

definition solver_inv :: "solver_state \<Rightarrow> bool" where
  "solver_inv st \<longleftrightarrow>
     smap_inv (object_to_solution st) \<and> smap_inv (tx_to_uri st) \<and> smap_inv (switch_state st)"

lemma solver_inv_init [owl_inv]: "smap_inv o2s \<Longrightarrow> solver_inv (init_solver o2s conn con now)"
  by (simp add: solver_inv_def init_solver_def)

lemma packet_callback_inv [owl_inv]:
  assumes "packet_callback s st = Some (r, st')" and "solver_inv st"
  shows "solver_inv st'"
  using assms packet_callback_frame [OF assms(1)] packet_callback_tables [OF assms(1)]
  by (auto simp: solver_inv_def lookup_uri_inv track_inv split: option.splits)

lemma solver_step_inv [owl_inv]: "solver_step st e st' \<Longrightarrow> solver_inv st \<Longrightarrow> solver_inv st'"
  by (induction rule: solver_step.induct)
    (auto simp: solver_inv_def smap_assign_inv dest: packet_callback_inv [unfolded solver_inv_def])

lemma solver_run_inv [owl_inv]: "solver_run st es st' \<Longrightarrow> solver_inv st \<Longrightarrow> solver_inv st'"
  by (induction rule: solver_run.induct) (auto intro: solver_step_inv)

text \<open>No step writes the class table.\<close>

lemma solver_step_classes [owl_frame]:
  "solver_step st e st' \<Longrightarrow> object_to_solution st' = object_to_solution st"
  by (induction rule: solver_step.induct) (auto dest: packet_callback_frame)

lemma solver_run_classes [owl_frame]:
  "solver_run st es st' \<Longrightarrow> object_to_solution st' = object_to_solution st"
  by (induction rule: solver_run.induct) (auto dest: solver_step_classes)

text \<open>No step changes the registration of the connection.\<close>

lemma solver_step_registration [owl_frame]:
  "solver_step st e st' \<Longrightarrow>
   sc_types (swm st') = sc_types (swm st) \<and> sc_origin (swm st') = sc_origin (swm st)"
  by (induction rule: solver_step.induct) (auto dest: packet_callback_registration)

lemma solver_run_registration [owl_frame]:
  "solver_run st es st' \<Longrightarrow>
   sc_types (swm st') = sc_types (swm st) \<and> sc_origin (swm st') = sc_origin (swm st)"
  by (induction rule: solver_run.induct) (auto dest: solver_step_registration)

section \<open>The stream of updates for one transmitter\<close>

text \<open>
  The contract of the change tracker over a stream of derived values: starting from the
  recorded value \<open>prev\<close>, keep each value that differs from the one before it.
\<close>

fun changes :: "bool option \<Rightarrow> bool list \<Rightarrow> bool list" where
  "changes prev [] = []"
| "changes prev (v # vs) =
     (if prev = Some v then changes prev vs else v # changes (Some v) vs)"

definition sample_values :: "SampleData list \<Rightarrow> bool list" where
  "sample_values ss = map is_on (List.map_filter switch_value ss)"

lemma sample_values_simps [simp]:
  "sample_values [] = []"
  "switch_value s = None \<Longrightarrow> sample_values (s # ss) = sample_values ss"
  "switch_value s = Some v \<Longrightarrow> sample_values (s # ss) = is_on v # sample_values ss"
  by (simp_all add: sample_values_def List.map_filter_simps)

lemma changes_Some_eq: "changes (Some v) vs = tl (remdups_adj (v # vs))"
  by (induction vs arbitrary: v) auto

lemma changes_None_eq: "changes None vs = remdups_adj vs"
  by (cases vs) (simp_all add: changes_Some_eq)

lemma changes_hd: "changes prev vs \<noteq> [] \<Longrightarrow> prev \<noteq> Some (hd (changes prev vs))"
  by (induction vs arbitrary: prev) (auto split: if_splits)

lemma changes_distinct_adj: "distinct_adj (changes prev vs)"
proof (induction vs arbitrary: prev)
  case Nil
  show ?case by simp
next
  case (Cons v vs)
  have "changes (Some v) vs \<noteq> [] \<Longrightarrow> v \<noteq> hd (changes (Some v) vs)"
    using changes_hd [of "Some v" vs] by simp
  with Cons show ?case
    by (auto simp: distinct_adj_Cons)
qed

lemma changes_alternating: "distinct_adj vs \<Longrightarrow> changes None vs = vs"
  by (simp add: changes_None_eq flip: distinct_adj_altdef)

lemma changes_length: "length (changes prev vs) \<le> length vs"
  by (induction vs arbitrary: prev) (auto intro: le_SucI)

text \<open>
  What is due for a sequence of values to report for one URI: what is due for each, the
  clock going on from one to the next by one reading per update.
\<close>

fun due_all :: "URI \<Rightarrow> readings \<Rightarrow> (u16string \<times> u16string) list \<Rightarrow> bool list \<Rightarrow> AttrUpdate list" where
  "due_all uri clk o2s [] = []"
| "due_all uri clk o2s (switch_on # vs) =
     due uri switch_on clk o2s @
     due_all uri (after_reads (length (due_lines uri switch_on o2s)) clk) o2s vs"

lemma due_all_standing:
  "due_all uri (now, []) o2s vs = concat (map (\<lambda>switch_on. due uri switch_on (now, []) o2s) vs)"
  by (induction vs) simp_all

text \<open>
  One delivery to a transmitter that is in the table, against a reliable connection.
\<close>

lemma deliver_known_transmitter:
  assumes rel: "reliable (swm st)"
    and inv: "smap_inv (switch_state st)"
    and key: "smap_find (sd_physical_layer s, sd_tx_id s) (tx_to_uri st) = Some uri"
  obtains st' where "packet_callback s st = Some (Inr (), st')"
    and "reliable (swm st')" and "smap_inv (switch_state st')"
    and "tx_to_uri st' = tx_to_uri st"
    and "object_to_solution st' = object_to_solution st"
    and "sc_accepted (swm st') = sc_accepted (swm st) @ map (\<lambda>u. [u]) (owed s st)"
    and "clock st' = after_reads (length (owed s st)) (clock st)"
    and "smap_find uri (switch_state st') =
          (case switch_value s of None \<Rightarrow> smap_find uri (switch_state st) | Some v \<Rightarrow> Some (is_on v))"
proof -
  from key have uri: "uri_of s st = uri" and look: "snd (lookup_uri s st) = st"
    by (simp_all add: uri_of_def lookup_uri_known)
  from rel obtain st' where ret: "packet_callback s st = Some (Inr (), st')"
    and rel': "reliable (swm st')"
    and acc: "sc_accepted (swm st') = sc_accepted (swm st) @ map (\<lambda>u. [u]) (owed s st)"
    by (rule packet_callback_reliable_effect)
  note tabs = packet_callback_tables [OF ret] and frame = packet_callback_frame [OF ret]
  have "smap_inv (switch_state st')"
    using inv tabs(2) by (auto simp: track_inv split: option.splits)
  moreover have "tx_to_uri st' = tx_to_uri st"
    using tabs(1) look by (simp split: if_splits)
  moreover have "smap_find uri (switch_state st') =
      (case switch_value s of None \<Rightarrow> smap_find uri (switch_state st) | Some v \<Rightarrow> Some (is_on v))"
    using inv tabs(2) uri by (auto split: option.splits)
  moreover have "clock st' = after_reads (length (owed s st)) (clock st)"
    using packet_callback_clock [OF ret] by (simp add: owed_def owed_lines_def split: option.splits)
  ultimately show thesis
    using ret rel' acc frame by (intro that [of st']) simp_all
qed

lemma changes_append:
  "changes prev (vs @ ws) =
     changes prev vs @ changes (if vs = [] then prev else Some (last vs)) ws"
  by (induction vs arbitrary: prev) auto

text \<open>
  A run of deliveries to one transmitter: the updates the connection accepts are what is
  due for the changes of the value, and nothing else.
\<close>

lemma run_known_transmitter:
  assumes "reliable (swm st)" and "smap_inv (switch_state st)"
    and "\<forall>s \<in> set ss. smap_find (sd_physical_layer s, sd_tx_id s) (tx_to_uri st) = Some uri"
  shows "\<exists>st'. run_events (map Sample ss) st = Some (Inr (), st') \<and>
     reliable (swm st') \<and>
     sc_accepted (swm st') = sc_accepted (swm st) @ map (\<lambda>u. [u])
       (due_all uri (clock st) (object_to_solution st)
         (changes (smap_find uri (switch_state st)) (sample_values ss)))"
  using assms
proof (induction ss arbitrary: st)
  case Nil
  then show ?case by simp
next
  case (Cons s ss)
  from Cons.prems have key: "smap_find (sd_physical_layer s, sd_tx_id s) (tx_to_uri st) = Some uri"
    by simp
  then have uri: "uri_of s st = uri"
    by (simp add: uri_of_def)
  from Cons.prems(1,2) key obtain st1 where st1:
    "packet_callback s st = Some (Inr (), st1)"
    "reliable (swm st1)" "smap_inv (switch_state st1)"
    "tx_to_uri st1 = tx_to_uri st"
    "object_to_solution st1 = object_to_solution st"
    "sc_accepted (swm st1) = sc_accepted (swm st) @ map (\<lambda>u. [u]) (owed s st)"
    "clock st1 = after_reads (length (owed s st)) (clock st)"
    "smap_find uri (switch_state st1) =
          (case switch_value s of None \<Rightarrow> smap_find uri (switch_state st) | Some v \<Rightarrow> Some (is_on v))"
    by (rule deliver_known_transmitter)
  from Cons.prems(3) st1(4)
  have "\<forall>s \<in> set ss. smap_find (sd_physical_layer s, sd_tx_id s) (tx_to_uri st1) = Some uri"
    by simp
  from Cons.IH [OF st1(2,3) this] obtain st' where st':
    "run_events (map Sample ss) st1 = Some (Inr (), st')" "reliable (swm st')"
    "sc_accepted (swm st') = sc_accepted (swm st1) @ map (\<lambda>u. [u])
       (due_all uri (clock st1) (object_to_solution st1)
         (changes (smap_find uri (switch_state st1)) (sample_values ss)))"
    by blast
  show ?case
  proof (cases "switch_value s")
    case None
    with st1 st' show ?thesis
      by (intro exI [of _ st']) (simp add: owed_def)
  next
    case (Some v)
    with st1 st' uri show ?thesis
      by (intro exI [of _ st']) (simp add: owed_def novel_def)
  qed
qed

section \<open>What the connection is ever asked to accept\<close>

text \<open>
  A batch is well formed for a class table if it is a single update, made by
  \<open>make_update\<close> for the solution name of a class that is a segment of the update's URI.
\<close>

definition wf_batch :: "(u16string, u16string) std_map \<Rightarrow> AttrUpdate list \<Rightarrow> bool" where
  "wf_batch o2s b \<longleftrightarrow>
     (\<exists>cls soln_name now uri switch_on.
        b = [make_update soln_name now uri switch_on] \<and>
        (cls, soln_name) \<in> set o2s \<and> class_in_uri uri cls)"

definition accepted_wf :: "solver_state \<Rightarrow> bool" where
  "accepted_wf st \<longleftrightarrow> list_all (wf_batch (object_to_solution st)) (sc_accepted (swm st))"

lemma due_wf: "u \<in> set (due uri switch_on clk o2s) \<Longrightarrow> wf_batch o2s [u]"
  by (induction uri switch_on clk o2s rule: due.induct) (fastforce simp: wf_batch_def split: if_splits)+

lemma owed_wf: "u \<in> set (owed s st) \<Longrightarrow> wf_batch (object_to_solution st) [u]"
  by (auto simp: owed_def dest: due_wf split: option.splits if_splits)

lemma packet_callback_accepted_wf [owl_inv]:
  assumes "packet_callback s st = Some (r, st')" and "accepted_wf st"
  shows "accepted_wf st'"
proof -
  from packet_callback_result [OF assms(1)] obtain k where
    "sc_accepted (swm st') = sc_accepted (swm st) @ map (\<lambda>u. [u]) (take k (owed s st))"
    by auto
  moreover have "list_all (wf_batch (object_to_solution st)) (map (\<lambda>u. [u]) (take k (owed s st)))"
    by (auto simp: list_all_iff dest: in_set_takeD owed_wf)
  ultimately show ?thesis
    using assms(2) packet_callback_frame [OF assms(1)] by (simp add: accepted_wf_def)
qed

lemma solver_step_accepted_wf [owl_inv]:
  "solver_step st e st' \<Longrightarrow> accepted_wf st \<Longrightarrow> accepted_wf st'"
  by (induction rule: solver_step.induct)
    (auto simp: accepted_wf_def dest: packet_callback_accepted_wf [unfolded accepted_wf_def])

lemma solver_run_accepted_wf [owl_inv]:
  "solver_run st es st' \<Longrightarrow> accepted_wf st \<Longrightarrow> accepted_wf st'"
  by (induction rule: solver_run.induct) (auto intro: solver_step_accepted_wf)

section \<open>A table that is never filled\<close>

text \<open>
  \<^verbatim>\<open>main\<close> creates \<^verbatim>\<open>tx_to_uri\<close> empty and the program has no statement that enters a URI
  into it; the only writes are the default insertions of \<^verbatim>\<open>operator[]\<close> in the callback. A
  table is blank if every URI in it is empty.
\<close>

definition blank_table :: "solver_state \<Rightarrow> bool" where
  "blank_table st \<longleftrightarrow> (\<forall>(k, uri) \<in> set (tx_to_uri st). uri = [])"

fun is_discover :: "event \<Rightarrow> bool" where
  "is_discover (Discover k uri) = True"
| "is_discover _ = False"

lemma blank_table_init [simp]: "blank_table (init_solver o2s conn con now)"
  by (simp add: blank_table_def init_solver_def)

lemma blank_uri_of: "blank_table st \<Longrightarrow> smap_inv (tx_to_uri st) \<Longrightarrow> uri_of s st = []"
  by (auto simp: uri_of_def blank_table_def smap_find_Some_mem split: option.splits)

lemma blank_lookup: "blank_table st \<Longrightarrow> blank_table (snd (lookup_uri s st))"
  using set_smap_index [of "[]" "(sd_physical_layer s, sd_tx_id s)" "tx_to_uri st"]
  by (auto simp: blank_table_def lookup_uri_table)

lemma packet_callback_blank:
  assumes "blank_table st" and "smap_inv (tx_to_uri st)"
  obtains st' where "packet_callback s st = Some (Inr (), st')"
    and "swm st' = swm st" and "out st' = out st"
    and "blank_table st'" and "smap_inv (tx_to_uri st')"
proof -
  from assms have uri: "uri_of s st = []"
    by (rule blank_uri_of)
  have "\<exists>st'. packet_callback s st = Some (Inr (), st') \<and> swm st' = swm st \<and> out st' = out st \<and>
      tx_to_uri st' = (if switch_value s = None then tx_to_uri st else tx_to_uri (snd (lookup_uri s st)))"
  proof (cases "novel s st")
    case False
    then show ?thesis
      by (simp add: packet_callback_not_novel)
  next
    case True
    then obtain v where "switch_value s = Some v"
      and "smap_find (uri_of s st) (switch_state st) \<noteq> Some (is_on v)"
      by (auto simp: novel_def split: option.splits)
    then show ?thesis
      by (simp add: packet_callback_novel uri due_Nil_report_loop)
  qed
  then obtain st' where st': "packet_callback s st = Some (Inr (), st')"
    "swm st' = swm st" "out st' = out st"
    "tx_to_uri st' = (if switch_value s = None then tx_to_uri st else tx_to_uri (snd (lookup_uri s st)))"
    by blast
  from st'(4) assms have "blank_table st'" and "smap_inv (tx_to_uri st')"
    using blank_lookup [of st s] lookup_uri_inv [of st s]
    by (auto simp: blank_table_def split: if_splits)
  with st' show thesis
    by (intro that [of st']) simp_all
qed

lemma run_events_blank:
  assumes "blank_table st" and "smap_inv (tx_to_uri st)" and "\<forall>e \<in> set es. \<not> is_discover e"
  shows "\<exists>st'. run_events es st = Some (Inr (), st') \<and> swm st' = swm st \<and> out st' = out st"
  using assms
proof (induction es arbitrary: st)
  case Nil
  then show ?case by simp
next
  case (Cons e es)
  show ?case
  proof (cases e)
    case (Sample s)
    from Cons.prems(1,2) obtain st1 where st1: "packet_callback s st = Some (Inr (), st1)"
      "swm st1 = swm st" "out st1 = out st" "blank_table st1" "smap_inv (tx_to_uri st1)"
      by (rule packet_callback_blank)
    with Cons.IH [of st1] Cons.prems(3) Sample show ?thesis
      by auto
  next
    case (Discover k uri)
    with Cons.prems(3) show ?thesis
      by simp
  next
    case (Tick t)
    with Cons.IH [of "st\<lparr>clock := (t, snd (clock st))\<rparr>"] Cons.prems show ?thesis
      by (auto simp: blank_table_def)
  qed
qed

section \<open>The tracker and the world model\<close>

text \<open>
  The tracker is the solver's record of what it has told the world model. \<open>reported\<close>
  collects the updates the connection has accepted for a URI, \<open>last_told\<close> is the value
  of the last of them, and a state is coherent if, for every URI that holds a registered
  class, the value last told is the value the tracker records (none told if none is
  recorded), and nothing was ever told about any other URI. Every delivery that returns
  normally keeps the state coherent; a delivery that ends in a send error does not, which
  is the subject of the property on failed pushes in theory \<open>Solver_Callback\<close>.
\<close>

definition reported :: "URI \<Rightarrow> AttrUpdate list list \<Rightarrow> AttrUpdate list" where
  "reported uri bs = filter (\<lambda>u. au_uri u = uri) (concat bs)"

definition last_told :: "URI \<Rightarrow> AttrUpdate list list \<Rightarrow> bool option" where
  "last_told uri bs =
     (if reported uri bs = [] then None else Some (au_data (last (reported uri bs)) = [1]))"

definition segment_of :: "URI \<Rightarrow> (u16string \<times> u16string) list \<Rightarrow> bool" where
  "segment_of uri o2s \<longleftrightarrow> (\<exists>cls \<in> set (smap_keys o2s). class_in_uri uri cls)"

definition coherent :: "solver_state \<Rightarrow> bool" where
  "coherent st \<longleftrightarrow>
     smap_inv (switch_state st) \<and>
     (\<forall>uri. last_told uri (sc_accepted (swm st)) =
        (if segment_of uri (object_to_solution st) then smap_find uri (switch_state st) else None))"

lemma due_fields:
  "u \<in> set (due uri switch_on clk o2s) \<Longrightarrow> au_uri u = uri \<and> au_data u = [if switch_on then 1 else 0]"
  by (induction uri switch_on clk o2s rule: due.induct) (auto split: if_splits)

lemma reported_due:
  "reported uri' (bs @ map (\<lambda>u. [u]) (due uri switch_on clk o2s)) =
     reported uri' bs @ (if uri' = uri then due uri switch_on clk o2s else [])"
proof -
  have "concat (map (\<lambda>u. [u]) us) = us" for us :: "AttrUpdate list"
    by (induction us) simp_all
  moreover have "filter (\<lambda>u. au_uri u = uri') (due uri switch_on clk o2s) =
      (if uri' = uri then due uri switch_on clk o2s else [])"
    by (auto simp: filter_empty_conv filter_id_conv dest: due_fields)
  ultimately show ?thesis
    by (simp add: reported_def)
qed

lemma last_told_due:
  "last_told uri' (bs @ map (\<lambda>u. [u]) (due uri switch_on clk o2s)) =
     (if uri' = uri \<and> segment_of uri o2s then Some switch_on else last_told uri' bs)"
proof (cases "uri' = uri \<and> segment_of uri o2s")
  case False
  then show ?thesis
    by (auto simp: last_told_def reported_due segment_of_def due_Nil_iff)
next
  case True
  then have ne: "due uri switch_on clk o2s \<noteq> []"
    by (simp add: segment_of_def due_Nil_iff)
  then have "last (due uri switch_on clk o2s) \<in> set (due uri switch_on clk o2s)"
    by simp
  then have "au_data (last (due uri switch_on clk o2s)) = [if switch_on then 1 else 0]"
    by (simp add: due_fields)
  with True ne show ?thesis
    by (simp add: last_told_def reported_due)
qed

lemma coherent_init [owl_inv]: "sc_accepted conn = [] \<Longrightarrow> coherent (init_solver o2s conn con clk)"
  by (simp add: coherent_def init_solver_def last_told_def reported_def)

lemma packet_callback_coherent [owl_inv]:
  assumes ret: "packet_callback s st = Some (Inr (), st')" and coh: "coherent st"
  shows "coherent st'"
proof -
  from coh have inv: "smap_inv (switch_state st)"
    by (simp add: coherent_def)
  from packet_callback_result [OF ret]
  have acc: "sc_accepted (swm st') = sc_accepted (swm st) @ map (\<lambda>u. [u]) (owed s st)"
    by auto
  note tabs = packet_callback_tables(2) [OF ret] and frame = packet_callback_frame [OF ret]
  show ?thesis
  proof (cases "novel s st")
    case False
    then have "switch_state st' = switch_state st"
      using tabs by (auto simp: novel_def track_state split: option.splits)
    with False acc frame coh show ?thesis
      by (simp add: coherent_def)
  next
    case True
    then obtain v where v: "switch_value s = Some v"
      by (auto simp: novel_def split: option.splits)
    with True tabs have ss: "switch_state st' = smap_assign (uri_of s st) (is_on v) (switch_state st)"
      by (simp add: novel_def track_state)
    from True v have "owed s st = due (uri_of s st) (is_on v) (clock st) (object_to_solution st)"
      by (simp add: owed_def)
    with acc ss frame coh inv show ?thesis
      by (simp add: coherent_def last_told_due smap_assign_inv smap_find_assign)
  qed
qed

lemma solver_step_coherent [owl_inv]: "solver_step st e st' \<Longrightarrow> coherent st \<Longrightarrow> coherent st'"
  by (induction rule: solver_step.induct) (auto simp: coherent_def dest: packet_callback_coherent [unfolded coherent_def])

lemma solver_run_coherent [owl_inv]: "solver_run st es st' \<Longrightarrow> coherent st \<Longrightarrow> coherent st'"
  by (induction rule: solver_run.induct) (auto intro: solver_step_coherent)

section \<open>The state machine of one entity\<close>

text \<open>
  Per URI, the tracker is the machine \<open>Unknown \<rightarrow> Known v\<close> of the design: a value is
  learnt, or it changes; there is no way back to \<open>Unknown\<close> and no step to the same value.
\<close>

datatype entity = Unknown | Known bool

definition entity_of :: "solver_state \<Rightarrow> URI \<Rightarrow> entity" where
  "entity_of st uri =
     (case smap_find uri (switch_state st) of None \<Rightarrow> Unknown | Some v \<Rightarrow> Known v)"

inductive entity_step :: "entity \<Rightarrow> bool \<Rightarrow> entity \<Rightarrow> bool" where
  learn: "entity_step Unknown v (Known v)"
| change: "v \<noteq> w \<Longrightarrow> entity_step (Known w) v (Known v)"

inductive_cases entity_step_UnknownE [elim!]: "entity_step Unknown v e"
inductive_cases entity_step_KnownE [elim!]: "entity_step (Known w) v e"
inductive_simps entity_step_simps [simp]:
  "entity_step Unknown v e" "entity_step (Known w) v e" "entity_step e v Unknown"

lemma entity_of_track:
  assumes "smap_inv ss" and "switch_state st = ss" and "switch_state st' = snd (track uri v ss)"
  shows "entity_of st' uri' =
     (if uri' = uri then Known v else entity_of st uri')"
  using assms by (simp add: entity_of_def track_find_other)

section \<open>Properties of runs\<close>

definition mug_reported :: "bool \<Rightarrow> AttrUpdate" where
  "mug_reported switch_on = make_update (toU16 ''switch_state'') 1000 mug_uri switch_on"

text \<open>
  Property C3. For a run of samples from one transmitter that is in the table, against a
  reliable connection: every callback returns normally, and the updates the connection
  accepts are exactly those due for the changes of the derived value, starting from the
  value the tracker had recorded, each dated with the reading of the clock at its turn;
  samples that the filter drops and samples that repeat the last value contribute nothing
  and do not read the clock.
\<close>

theorem updates_follow_changes:
  assumes "reliable (swm st)" and "smap_inv (switch_state st)"
    and "\<forall>s \<in> set ss. smap_find (sd_physical_layer s, sd_tx_id s) (tx_to_uri st) = Some uri"
  shows "\<exists>st'. run_events (map Sample ss) st = Some (Inr (), st') \<and>
     sc_accepted (swm st') = sc_accepted (swm st) @ map (\<lambda>u. [u])
       (due_all uri (clock st) (object_to_solution st)
         (changes (smap_find uri (switch_state st)) (sample_values ss)))"
  using run_known_transmitter [OF assms] by blast

theorem updates_follow_changes_witness:
  "\<exists>st'. run_events (map Sample [mug_sample 255, mug_sample 255, mug_sample 7, mug_sample 0])
        (mug_state [] (conn0 [] Sent)) = Some (Inr (), st') \<and>
     sc_accepted (swm st') = [[mug_reported True], [mug_reported False]]"
  using updates_follow_changes
    [of "mug_state [] (conn0 [] Sent)"
      "[mug_sample 255, mug_sample 255, mug_sample 7, mug_sample 0]" mug_uri]
  by (simp add: mug_reported_def)

text \<open>
  Property C29. If the derived values of the samples of one transmitter strictly alternate
  and the tracker has no value for its URI, every sample that passes the filter is
  reported: the connection accepts what is due for each of them, in order.
\<close>

theorem alternating_samples_all_reported:
  assumes "reliable (swm st)" and "smap_inv (switch_state st)"
    and "\<forall>s \<in> set ss. smap_find (sd_physical_layer s, sd_tx_id s) (tx_to_uri st) = Some uri"
    and "smap_find uri (switch_state st) = None"
    and "distinct_adj (sample_values ss)"
  shows "\<exists>st'. run_events (map Sample ss) st = Some (Inr (), st') \<and>
     sc_accepted (swm st') = sc_accepted (swm st) @ map (\<lambda>u. [u])
       (due_all uri (clock st) (object_to_solution st) (sample_values ss))"
  using run_known_transmitter [OF assms(1-3)] assms(4,5) by (auto simp: changes_alternating)

theorem alternating_samples_all_reported_witness:
  "\<exists>st'. run_events (map Sample [mug_sample 0, mug_sample 255, mug_sample 0])
        (mug_state [] (conn0 [] Sent)) = Some (Inr (), st') \<and>
     sc_accepted (swm st') = [[mug_reported False], [mug_reported True], [mug_reported False]]"
  using alternating_samples_all_reported
    [of "mug_state [] (conn0 [] Sent)" "[mug_sample 0, mug_sample 255, mug_sample 0]" mug_uri]
  by (simp add: mug_reported_def)

text \<open>
  Property C30. Every state of the per-URI machine of the design is respected by the
  callback: after any call, whatever it returns, the tracked state of a URI is unchanged, or
  the URI is the one of the sample, the sample passed the filter, and the state made a step
  of the machine \<open>Unknown \<rightarrow> Known v\<close>, \<open>Known w \<rightarrow> Known v\<close> with \<open>v \<noteq> w\<close>.
\<close>

theorem callback_refines_entity_machine:
  assumes "packet_callback s st = Some (r, st')" and "smap_inv (switch_state st)"
  shows "entity_of st' uri = entity_of st uri \<or>
     (\<exists>v. switch_value s = Some v \<and> uri = uri_of s st \<and>
        entity_step (entity_of st uri) (is_on v) (entity_of st' uri))"
proof (cases "switch_value s")
  case None
  with packet_callback_tables(2) [OF assms(1)] show ?thesis
    by (simp add: entity_of_def)
next
  case (Some v)
  with packet_callback_tables(2) [OF assms(1)]
  have "switch_state st' = snd (track (uri_of s st) (is_on v) (switch_state st))"
    by simp
  with assms(2) have "entity_of st' uri =
      (if uri = uri_of s st then Known (is_on v) else entity_of st uri)"
    by (intro entity_of_track) simp_all
  with Some show ?thesis
    by (cases "entity_of st uri") auto
qed

theorem callback_refines_entity_machine_witness:
  "entity_of (mug_state [(mug_uri, True)] (advance (conn0 [Throws (Runtime_error ''Broken pipe'')] Sent))) mug_uri =
     entity_of (mug_state [] (conn0 [Throws (Runtime_error ''Broken pipe'')] Sent)) mug_uri \<or>
   (\<exists>v. switch_value (mug_sample 255) = Some v \<and>
      mug_uri = uri_of (mug_sample 255) (mug_state [] (conn0 [Throws (Runtime_error ''Broken pipe'')] Sent)) \<and>
      entity_step (entity_of (mug_state [] (conn0 [Throws (Runtime_error ''Broken pipe'')] Sent)) mug_uri) (is_on v)
        (entity_of (mug_state [(mug_uri, True)] (advance (conn0 [Throws (Runtime_error ''Broken pipe'')] Sent))) mug_uri))"
  using callback_refines_entity_machine [OF mug_failed_push, of mug_uri] by simp

text \<open>
  Property C21. In every state the solver reaches from the state \<^verbatim>\<open>main\<close> sets up, by
  deliveries that return normally, table entries made by other threads and clock ticks,
  each batch the connection has accepted is a single update whose data is the one byte 0
  or the one byte 1, whose name is the solution name of a registered class and whose URI
  contains that class as a dot-delimited segment.
\<close>

theorem accepted_updates_well_formed:
  assumes "solver_run (init_solver o2s conn con now) es st" and "sc_accepted conn = []"
  shows "\<forall>b \<in> set (sc_accepted (swm st)).
     \<exists>u. b = [u] \<and> (au_data u = [0] \<or> au_data u = [1]) \<and>
       (\<exists>cls. (cls, au_name u) \<in> set o2s \<and> class_in_uri (au_uri u) cls)"
proof -
  from assms(2) have "accepted_wf (init_solver o2s conn con now)"
    by (simp add: accepted_wf_def init_solver_def)
  with assms(1) have "accepted_wf st"
    by (rule solver_run_accepted_wf)
  moreover from assms(1) have "object_to_solution st = o2s"
    by (simp add: solver_run_classes init_solver_def)
  ultimately show ?thesis
    by (fastforce simp: accepted_wf_def list_all_iff wf_batch_def)
qed

lemma mug_first_report:
  "packet_callback (mug_sample 255) (mug_state [] (conn0 [] Sent)) =
     Some (Inr (), (mug_state [(mug_uri, True)] (accept [mug_reported True] (advance (conn0 [] Sent))))
       \<lparr>out := [report_line mug_uri (toU16 ''switch_state'') True]\<rparr>)"
  by (simp add: packet_callback_novel mug_classes_def send_with_retry_Sent mug_reported_def)
    (simp add: mug_state_def)

lemma mug_run:
  "solver_run (init_solver mug_classes (conn0 [] Sent) [] (1000, []))
     [Discover (1, 42) mug_uri, Sample (mug_sample 255)]
     ((mug_state [(mug_uri, True)] (accept [mug_reported True] (advance (conn0 [] Sent))))
       \<lparr>out := [report_line mug_uri (toU16 ''switch_state'') True]\<rparr>)"
proof -
  have "(init_solver mug_classes (conn0 [] Sent) [] (1000, []))
      \<lparr>tx_to_uri := smap_assign (1, 42) mug_uri
         (tx_to_uri (init_solver mug_classes (conn0 [] Sent) [] (1000, [])))\<rparr> =
      mug_state [] (conn0 [] Sent)"
    by (simp add: init_solver_def mug_state_def)
  then show ?thesis
    by (simp add: solver_run_events mug_first_report)
qed

theorem accepted_updates_well_formed_witness:
  "\<exists>u. [mug_reported True] = [u] \<and> (au_data u = [0] \<or> au_data u = [1]) \<and>
     (\<exists>cls. (cls, au_name u) \<in> set mug_classes \<and> class_in_uri (au_uri u) cls)"
  using accepted_updates_well_formed [OF mug_run, THEN bspec, of "[mug_reported True]"]
  by (simp add: accept_def)

text \<open>
  Property C39. The tracker and the world model agree as long as no send error has left
  a callback. In every state the solver reaches from the state \<^verbatim>\<open>main\<close> sets up, by
  deliveries that return normally, table entries and clock ticks: for a URI that holds a
  registered class between dots, the last update the connection accepted for it carries
  the byte 1 if the tracker records the value true and the byte 0 if it records false, and
  the connection accepted no update for it if the tracker records nothing; for any other
  URI the connection accepted no update.
\<close>

theorem tracker_agrees_with_world_model:
  assumes "solver_run (init_solver o2s conn con clk) es st" and "sc_accepted conn = []"
  shows "last_told uri (sc_accepted (swm st)) =
     (if segment_of uri o2s then smap_find uri (switch_state st) else None)"
proof -
  from assms(2) have "coherent (init_solver o2s conn con clk)"
    by (rule coherent_init)
  with assms(1) have "coherent st"
    by (rule solver_run_coherent)
  moreover from assms(1) have "object_to_solution st = o2s"
    by (simp add: solver_run_classes init_solver_def)
  ultimately show ?thesis
    by (simp add: coherent_def)
qed

theorem tracker_agrees_with_world_model_witness:
  "last_told mug_uri [[mug_reported True]] = Some True \<and>
   last_told (toU16 ''room1.door.7'') [[mug_reported True]] = None"
  using tracker_agrees_with_world_model [OF mug_run, of mug_uri]
    tracker_agrees_with_world_model [OF mug_run, of "toU16 ''room1.door.7''"]
  by (simp add: segment_of_def mug_classes_def smap_keys_def) (simp add: mug_uri_def)

text \<open>
  Property C16. The program as written never reports: \<^verbatim>\<open>main\<close> leaves \<^verbatim>\<open>tx_to_uri\<close> empty
  and no statement enters a URI into it, so from the state \<^verbatim>\<open>main\<close> sets up, for every
  sequence of samples and clock ticks and every behaviour of the connection, each callback
  returns normally, the connection is never called and nothing is printed.
\<close>

theorem solver_never_reports_without_table:
  assumes "\<forall>e \<in> set es. \<not> is_discover e"
  shows "\<exists>st'. run_events es (init_solver o2s conn con now) = Some (Inr (), st') \<and>
     swm st' = conn \<and> out st' = con"
  using run_events_blank [of "init_solver o2s conn con now" es] assms
  by (simp add: init_solver_def blank_table_def)

theorem solver_never_reports_without_table_witness:
  "\<exists>st'. run_events [Sample (mug_sample 255), Tick 5, Sample (mug_sample 0)]
       (init_solver mug_classes (conn0 [] (Throws (Runtime_error ''Broken pipe''))) [] (1000, [])) =
       Some (Inr (), st') \<and>
     swm st' = conn0 [] (Throws (Runtime_error ''Broken pipe'')) \<and> out st' = []"
  using solver_never_reports_without_table
    [of "[Sample (mug_sample 255), Tick 5, Sample (mug_sample 0)]" mug_classes
      "conn0 [] (Throws (Runtime_error ''Broken pipe''))" "[]" "(1000, [])"]
  by simp

end
