(* ===== verification/Config_Loader.thy ===== *)
theory Config_Loader
  imports Std_Map U16_String
begin

text \<open>
  The configuration loader of \<^verbatim>\<open>main\<close> (source lines 79 to 109): the file named by the
  last argument is read line by line; a line with two whitespace-separated words registers
  a class and its solution name, any other line is logged and skipped; a file that cannot
  be opened and a file that registers nothing end the program with exit code 1.

  The file system is a partial function from paths to contents, a content is the string of
  the file's characters. \<open>getline\<close> is \<^verbatim>\<open>std::getline\<close> on the rest of the stream,
  \<open>read_word\<close> is \<^verbatim>\<open>operator>>\<close> into a \<^verbatim>\<open>std::string\<close> (whitespace as \<^verbatim>\<open>isspace\<close> sees it in
  the C locale). The loader's variables are the record \<open>loader_state\<close>; a statement
  that ends \<^verbatim>\<open>main\<close> is the left injection of the result, with the exit code and the console.
\<close>

section \<open>Lines and words\<close>

fun getline :: "string \<Rightarrow> (string \<times> string) option" where
  "getline [] = None"
| "getline (c # cs) =
     (if c = CHR ''\<newline>'' then Some ([], cs)
      else case getline cs of
             None \<Rightarrow> Some ([c], [])
           | Some (l, rest) \<Rightarrow> Some (c # l, rest))"

definition is_space :: "char \<Rightarrow> bool" where
  "is_space c \<longleftrightarrow> c \<in> set [CHR '' '', CHR 0x09, CHR 0x0A, CHR 0x0B, CHR 0x0C, CHR 0x0D]"

definition read_word :: "string \<Rightarrow> (string \<times> string) option" where
  "read_word s =
     (let s' = dropWhile is_space s;
          w = takeWhile (\<lambda>c. \<not> is_space c) s'
      in if w = [] then None else Some (w, dropWhile (\<lambda>c. \<not> is_space c) s'))"

text \<open>\<^verbatim>\<open>is >> obj_class >> solution\<close>: the second extraction is attempted only if the first
  succeeded, and the condition holds if both did.\<close>

definition parse_line :: "string \<Rightarrow> (string \<times> string) option" where
  "parse_line line =
     (case read_word line of
        None \<Rightarrow> None
      | Some (obj_class, rest) \<Rightarrow>
          (case read_word rest of
             None \<Rightarrow> None
           | Some (solution, rest') \<Rightarrow> Some (obj_class, solution)))"

definition underscores_to_spaces :: "string \<Rightarrow> string" where
  "underscores_to_spaces s = map (\<lambda>c. if c = CHR ''_'' then CHR '' '' else c) s"

section \<open>The loader\<close>

record loader_state =
  cfg_type_pairs :: "(u16string \<times> bool) list"
  cfg_object_to_solution :: "(u16string, u16string) std_map"
  cfg_out :: console

definition dquote :: string where
  "dquote = [CHR 0x22]"

definition class_line :: "string \<Rightarrow> string \<Rightarrow> out_line" where
  "class_line obj_class solution =
     Cerr (''Class '' @ dquote @ obj_class @ dquote @ '' has solution name '' @ dquote @
           solution @ ''\<newline>'')"

definition bad_line :: "string \<Rightarrow> out_line" where
  "bad_line line =
     Cerr (''Couldn't make sense of line: '' @ dquote @ line @ dquote @ ''\<newline>'')"

text \<open>The body of the loop, source lines 87 to 102.\<close>

definition load_line :: "string \<Rightarrow> loader_state \<Rightarrow> loader_state" where
  "load_line line st =
     (case parse_line line of
        Some (word, solution) \<Rightarrow>
          let obj_class = underscores_to_spaces word
          in st\<lparr>cfg_type_pairs := cfg_type_pairs st @ [(toU16 solution, False)],
                cfg_out := cfg_out st @ [class_line obj_class solution],
                cfg_object_to_solution :=
                  smap_assign (toU16 obj_class) (toU16 solution) (cfg_object_to_solution st)\<rparr>
      | None \<Rightarrow> st\<lparr>cfg_out := cfg_out st @ [bad_line line]\<rparr>)"

lemma getline_shorter: "getline s = Some (l, rest) \<Longrightarrow> length rest < length s"
  by (induction s arbitrary: l rest) (auto split: if_splits option.splits)

text \<open>\<^verbatim>\<open>while (std::getline(config, line)) { ... }\<close> on the rest of the file.\<close>

function load_lines :: "string \<Rightarrow> loader_state \<Rightarrow> loader_state" where
  "load_lines content st =
     (case getline content of
        None \<Rightarrow> st
      | Some (line, rest) \<Rightarrow> load_lines rest (load_line line st))"
  by pat_completeness auto

termination
  by (relation "measure (\<lambda>(content, st). length content)") (auto dest: getline_shorter)

declare load_lines.simps [simp del]

definition loader_init :: "console \<Rightarrow> loader_state" where
  "loader_init con = \<lparr>cfg_type_pairs = [], cfg_object_to_solution = [], cfg_out = con\<rparr>"

definition open_error :: "string \<Rightarrow> out_line" where
  "open_error path =
     Cerr (''Error opening configuration file '' @ dquote @ path @ dquote @ ''\<newline>'')"

definition no_types_error :: out_line where
  "no_types_error = Cerr ''There are no types in the config file - aborting.\<newline>''"

text \<open>
  Source lines 79 to 109 as a whole. \<open>Inl (code, con)\<close>: \<^verbatim>\<open>main\<close> returns \<open>code\<close> with
  the console \<open>con\<close>; \<open>Inr st\<close>: \<^verbatim>\<open>main\<close> goes on with the tables of \<open>st\<close>.
\<close>

definition load_config ::
  "string \<Rightarrow> string option \<Rightarrow> console \<Rightarrow> (int \<times> console) + loader_state" where
  "load_config path file con =
     (case file of
        None \<Rightarrow> Inl (1, con @ [open_error path])
      | Some content \<Rightarrow>
          let st = load_lines content (loader_init con)
          in if smap_empty (cfg_object_to_solution st)
             then Inl (1, cfg_out st @ [no_types_error])
             else Inr st)"

lemmas loader_defs [owl_defs] =
  is_space_def read_word_def parse_line_def underscores_to_spaces_def dquote_def
  class_line_def bad_line_def load_line_def loader_init_def open_error_def
  no_types_error_def load_config_def

section \<open>The lines of a file\<close>

text \<open>
  The lines the loop sees, as a list. \<^verbatim>\<open>std::getline\<close> ends a line at each newline and at
  the end of the file; a newline at the very end starts no further line.
\<close>

function getlines :: "string \<Rightarrow> string list" where
  "getlines content =
     (case getline content of
        None \<Rightarrow> []
      | Some (line, rest) \<Rightarrow> line # getlines rest)"
  by pat_completeness auto

termination
  by (relation "measure length") (auto dest: getline_shorter)

declare getlines.simps [simp del]

lemma getlines_Nil [simp]: "getlines [] = []"
  by (simp add: getlines.simps)

lemma load_lines_Nil [simp]: "load_lines [] st = st"
  by (simp add: load_lines.simps)

lemma load_lines_fold: "load_lines content st = fold load_line (getlines content) st"
proof (induction content st rule: load_lines.induct)
  case (1 content st)
  show ?case
  proof (cases "getline content")
    case None
    then show ?thesis
      by (simp add: load_lines.simps [of content] getlines.simps [of content])
  next
    case (Some p)
    obtain line rest where p: "p = (line, rest)"
      by (cases p)
    from "1.IH" [OF Some [unfolded p] refl] Some show ?thesis
      by (simp add: p load_lines.simps [of content] getlines.simps [of content])
  qed
qed

lemma getline_no_newline: "getline s = Some (l, rest) \<Longrightarrow> CHR ''\<newline>'' \<notin> set l"
  by (induction s arbitrary: l rest) (auto split: if_splits option.splits)

lemma getline_line: "CHR ''\<newline>'' \<notin> set l \<Longrightarrow> getline (l @ CHR ''\<newline>'' # rest) = Some (l, rest)"
  by (induction l) auto

lemma getline_None_iff [simp]: "getline s = None \<longleftrightarrow> s = []"
  by (cases s) (auto split: option.splits)

lemma getline_last_Cons:
  "CHR ''\<newline>'' \<notin> set (c # l) \<Longrightarrow> getline (c # l) = Some (c # l, [])"
  by (induction l arbitrary: c) (auto split: option.splits)

lemma getline_last: "CHR ''\<newline>'' \<notin> set l \<Longrightarrow> l \<noteq> [] \<Longrightarrow> getline l = Some (l, [])"
  using getline_last_Cons by (cases l) auto

lemma getline_cases:
  assumes "getline s = Some (l, rest)"
  shows "s = l @ CHR ''\<newline>'' # rest \<or> (s = l \<and> rest = [] \<and> l \<noteq> [])"
  using assms by (induction s arbitrary: l rest) (auto split: if_splits option.splits)

lemma getlines_no_newline: "l \<in> set (getlines s) \<Longrightarrow> CHR ''\<newline>'' \<notin> set l"
proof (induction s rule: getlines.induct)
  case (1 content)
  show ?case
  proof (cases "getline content")
    case None
    with "1.prems" show ?thesis
      by (simp add: getlines.simps [of content])
  next
    case (Some p)
    obtain line rest where p: "p = (line, rest)"
      by (cases p)
    from "1.prems" Some have "l = line \<or> l \<in> set (getlines rest)"
      by (simp add: p getlines.simps [of content])
    with "1.IH" [OF Some [unfolded p] refl] getline_no_newline [OF Some [unfolded p]]
    show ?thesis
      by auto
  qed
qed

text \<open>Writing each line with a newline after it gives a file that reads back as the lines.\<close>

definition unlines :: "string list \<Rightarrow> string" where
  "unlines ls = concat (map (\<lambda>l. l @ ''\<newline>'') ls)"

lemma unlines_simps [simp]:
  "unlines [] = []"
  "unlines (l # ls) = l @ CHR ''\<newline>'' # unlines ls"
  by (simp_all add: unlines_def)

lemma getlines_line:
  "CHR ''\<newline>'' \<notin> set l \<Longrightarrow> getlines (l @ CHR ''\<newline>'' # rest) = l # getlines rest"
  by (simp add: getlines.simps [of "l @ CHR ''\<newline>'' # rest"] getline_line)

lemma getlines_unlines:
  "\<forall>l \<in> set ls. CHR ''\<newline>'' \<notin> set l \<Longrightarrow> getlines (unlines ls) = ls"
  by (induction ls) (simp_all add: getlines_line)

lemma unlines_getlines:
  "unlines (getlines s) = (if s = [] \<or> last s = CHR ''\<newline>'' then s else s @ ''\<newline>'')"
proof (induction s rule: getlines.induct)
  case (1 content)
  show ?case
  proof (cases "getline content")
    case None
    then show ?thesis
      by simp
  next
    case (Some p)
    obtain line rest where p: "p = (line, rest)"
      by (cases p)
    note IH = "1.IH" [OF Some [unfolded p] refl]
    have line: "CHR ''\<newline>'' \<notin> set line"
      using Some by (auto simp: p dest: getline_no_newline)
    have lines: "getlines content = line # getlines rest"
      using Some by (simp add: p getlines.simps [of content])
    from getline_cases [OF Some [unfolded p]] show ?thesis
    proof
      assume "content = line @ CHR ''\<newline>'' # rest"
      with IH show ?thesis
        unfolding lines by simp
    next
      assume last: "content = line \<and> rest = [] \<and> line \<noteq> []"
      then have "last line \<in> set line"
        by simp
      with line have "last line \<noteq> CHR ''\<newline>''"
        by metis
      with last show ?thesis
        unfolding lines by simp
    qed
  qed
qed

section \<open>Words\<close>

definition spaces :: "string \<Rightarrow> bool" where
  "spaces ws \<longleftrightarrow> (\<forall>c \<in> set ws. is_space c)"

definition is_word :: "string \<Rightarrow> bool" where
  "is_word w \<longleftrightarrow> w \<noteq> [] \<and> (\<forall>c \<in> set w. \<not> is_space c)"

definition word_end :: "string \<Rightarrow> bool" where
  "word_end rest \<longleftrightarrow> (case rest of [] \<Rightarrow> True | c # cs \<Rightarrow> is_space c)"

lemma spaces_simps [simp]:
  "spaces []"
  "spaces (c # ws) \<longleftrightarrow> is_space c \<and> spaces ws"
  "spaces (ws @ ws') \<longleftrightarrow> spaces ws \<and> spaces ws'"
  by (auto simp: spaces_def)

lemma word_end_simps [simp]:
  "word_end []"
  "word_end (c # cs) \<longleftrightarrow> is_space c"
  by (simp_all add: word_end_def)

lemma is_word_Cons: "is_word (c # w) \<longleftrightarrow> \<not> is_space c \<and> (w = [] \<or> is_word w)"
  by (auto simp: is_word_def)

lemma is_space_blank [simp]: "is_space CHR '' ''"
  by (simp add: is_space_def)

lemma is_space_newline [simp]: "is_space CHR ''\<newline>''"
  by (simp add: is_space_def)

lemma not_space_underscore [simp]: "\<not> is_space CHR ''_''"
  by (simp add: is_space_def)

lemma dropWhile_spaces: "spaces ws \<Longrightarrow> \<not> spaces [c] \<Longrightarrow> dropWhile is_space (ws @ c # s) = c # s"
  by (induction ws) auto

lemma takeWhile_word:
  "is_word w \<Longrightarrow> word_end rest \<Longrightarrow> takeWhile (\<lambda>c. \<not> is_space c) (w @ rest) = w"
  by (cases rest) (auto simp: is_word_def takeWhile_append)

lemma dropWhile_word:
  "is_word w \<Longrightarrow> word_end rest \<Longrightarrow> dropWhile (\<lambda>c. \<not> is_space c) (w @ rest) = rest"
  by (cases rest) (auto simp: is_word_def dropWhile_append)

text \<open>
  \<^verbatim>\<open>operator>>\<close> skips leading whitespace and extracts the longest run of other characters;
  it fails exactly if the stream holds nothing but whitespace.
\<close>

lemma read_word_word:
  assumes "spaces ws" and "is_word w" and "word_end rest"
  shows "read_word (ws @ w @ rest) = Some (w, rest)"
proof -
  from assms(2) obtain c w' where w: "w = c # w'" and c: "\<not> is_space c"
    by (cases w) (auto simp: is_word_def)
  from assms(1) c have "dropWhile is_space (ws @ w @ rest) = w @ rest"
    by (simp add: w dropWhile_spaces)
  with assms(2,3) show ?thesis
    by (simp add: read_word_def takeWhile_word dropWhile_word) (simp add: is_word_def)
qed

lemma read_word_None_iff: "read_word s = None \<longleftrightarrow> spaces s"
proof -
  let ?s = "dropWhile is_space s"
  have "takeWhile (\<lambda>c. \<not> is_space c) ?s = [] \<longleftrightarrow> ?s = []"
  proof (cases ?s)
    case Nil
    show ?thesis
      unfolding Nil by simp
  next
    case (Cons c cs)
    then have "?s \<noteq> []"
      by (simp only: list.distinct not_False_eq_True)
    from hd_dropWhile [OF this] show ?thesis
      unfolding Cons by simp
  qed
  moreover have "?s = [] \<longleftrightarrow> spaces s"
    by (simp add: dropWhile_eq_Nil_conv spaces_def)
  ultimately show ?thesis
    by (simp add: read_word_def Let_def)
qed

lemma read_word_Some:
  assumes "read_word s = Some (w, rest)"
  shows "\<exists>ws. s = ws @ w @ rest \<and> spaces ws \<and> is_word w \<and> word_end rest"
proof -
  let ?s = "dropWhile is_space s"
  from assms have w: "w = takeWhile (\<lambda>c. \<not> is_space c) ?s" and "w \<noteq> []"
    and rest: "rest = dropWhile (\<lambda>c. \<not> is_space c) ?s"
    by (auto simp: read_word_def Let_def split: if_splits)
  have "s = takeWhile is_space s @ w @ rest"
    by (simp add: w rest)
  moreover have "spaces (takeWhile is_space s)"
    by (auto simp: spaces_def dest: set_takeWhileD)
  moreover have "is_word w"
    using \<open>w \<noteq> []\<close> by (auto simp: is_word_def w dest: set_takeWhileD)
  moreover have "word_end rest"
  proof (cases rest)
    case Nil
    then show ?thesis by simp
  next
    case (Cons c cs)
    then have "dropWhile (\<lambda>c. \<not> is_space c) ?s \<noteq> []"
      by (simp flip: rest)
    from hd_dropWhile [OF this] Cons show ?thesis
      by (simp flip: rest)
  qed
  ultimately show ?thesis
    by blast
qed

text \<open>
  A line is accepted exactly if it holds at least two words; the first two are the class
  and the solution name, and whatever follows them is dropped.
\<close>

lemma parse_line_words:
  assumes "spaces ws" and "is_word a" and "spaces ws'" and "ws' \<noteq> []" and "is_word b"
    and "word_end rest"
  shows "parse_line (ws @ a @ ws' @ b @ rest) = Some (a, b)"
proof -
  from assms(3,4) have "word_end (ws' @ b @ rest)"
    by (cases ws') auto
  with assms(1,2) have "read_word (ws @ a @ ws' @ b @ rest) = Some (a, ws' @ b @ rest)"
    by (rule read_word_word)
  moreover from assms(3,5,6) have "read_word (ws' @ b @ rest) = Some (b, rest)"
    by (rule read_word_word)
  ultimately show ?thesis
    by (simp add: parse_line_def)
qed

lemma parse_line_Some:
  assumes "parse_line line = Some (a, b)"
  shows "\<exists>ws ws' rest. line = ws @ a @ ws' @ b @ rest \<and> spaces ws \<and> is_word a \<and>
     spaces ws' \<and> ws' \<noteq> [] \<and> is_word b \<and> word_end rest"
proof -
  from assms obtain r r' where 1: "read_word line = Some (a, r)" and 2: "read_word r = Some (b, r')"
    by (auto simp: parse_line_def split: option.splits)
  from read_word_Some [OF 1] obtain ws where
    line: "line = ws @ a @ r" "spaces ws" "is_word a" "word_end r"
    by blast
  from read_word_Some [OF 2] obtain ws' where
    r: "r = ws' @ b @ r'" "spaces ws'" "is_word b" "word_end r'"
    by blast
  have "ws' \<noteq> []"
  proof
    assume "ws' = []"
    with r(1,3) obtain c cs where "r = c # cs" and "\<not> is_space c"
      by (cases b) (auto simp: is_word_def)
    with line(4) show False
      by simp
  qed
  with line r show ?thesis
    by blast
qed

lemma parse_line_None_iff:
  "parse_line line = None \<longleftrightarrow>
     spaces line \<or> (\<exists>ws a ws'. line = ws @ a @ ws' \<and> spaces ws \<and> is_word a \<and> spaces ws')"
proof (cases "read_word line")
  case None
  then have "parse_line line = None"
    by (simp add: parse_line_def)
  moreover from None have "spaces line"
    by (simp add: read_word_None_iff)
  ultimately show ?thesis
    by simp
next
  case (Some p)
  obtain a r where p: "p = (a, r)"
    by (cases p)
  from read_word_Some [OF Some [unfolded p]] obtain ws where
    line: "line = ws @ a @ r" "spaces ws" "is_word a" "word_end r"
    by blast
  have none: "parse_line line = None \<longleftrightarrow> spaces r"
    using Some read_word_None_iff [of r]
    by (cases "read_word r") (auto simp: p parse_line_def)
  have "\<not> spaces line"
    using line(3) by (cases a) (auto simp: line(1) is_word_def)
  moreover have "spaces ws'" and "b = a" and "ws' = r"
    if "line = vs @ b @ ws'" "spaces vs" "is_word b" "spaces ws'" for vs b ws'
  proof -
    from that have "word_end ws'"
      by (cases ws') auto
    with that have "read_word line = Some (b, ws')"
      by (simp add: read_word_word)
    with Some show "b = a" and "ws' = r"
      by (simp_all add: p)
    from that show "spaces ws'"
      by simp
  qed
  ultimately show ?thesis
    unfolding none using line by blast
qed

section \<open>What a file declares\<close>

text \<open>
  The entry a line declares (class name with its underscores rewritten, and solution name),
  the line the loader logs for it, and the entries of a list of lines.
\<close>

definition entry_of :: "string \<Rightarrow> (string \<times> string) option" where
  "entry_of line = map_option (\<lambda>(word, solution). (underscores_to_spaces word, solution)) (parse_line line)"

definition entries_of :: "string list \<Rightarrow> (string \<times> string) list" where
  "entries_of ls = List.map_filter entry_of ls"

definition log_of :: "string \<Rightarrow> out_line" where
  "log_of line = (case entry_of line of Some (obj_class, solution) \<Rightarrow> class_line obj_class solution
                  | None \<Rightarrow> bad_line line)"

definition u16_entry :: "string \<times> string \<Rightarrow> u16string \<times> u16string" where
  "u16_entry e = (toU16 (fst e), toU16 (snd e))"

definition type_pair :: "string \<times> string \<Rightarrow> u16string \<times> bool" where
  "type_pair e = (toU16 (snd e), False)"

lemma u16_entry_simp [simp]: "u16_entry (c, s) = (toU16 c, toU16 s)"
  by (simp add: u16_entry_def)

lemma type_pair_simp [simp]: "type_pair (c, s) = (toU16 s, False)"
  by (simp add: type_pair_def)

lemma entries_of_simps [simp]:
  "entries_of [] = []"
  "entries_of (l # ls) = (case entry_of l of None \<Rightarrow> entries_of ls | Some e \<Rightarrow> e # entries_of ls)"
  by (simp_all add: entries_of_def map_filter_simps split: option.splits)

lemma entries_of_append [simp]: "entries_of (ls @ ls') = entries_of ls @ entries_of ls'"
  by (induction ls) (simp_all split: option.splits)

lemma entries_of_Nil_iff: "entries_of ls = [] \<longleftrightarrow> (\<forall>l \<in> set ls. parse_line l = None)"
  by (induction ls) (auto simp: entry_of_def split: option.splits)

lemma log_of_bad: "parse_line l = None \<Longrightarrow> log_of l = bad_line l"
  by (simp add: log_of_def entry_of_def)

text \<open>One turn of the loop, in terms of the entry the line declares.\<close>

lemma load_line_eq:
  "load_line line st =
     st\<lparr>cfg_type_pairs := cfg_type_pairs st @ map type_pair (entries_of [line]),
        cfg_out := cfg_out st @ [log_of line],
        cfg_object_to_solution :=
          smap_assign_list (map u16_entry (entries_of [line])) (cfg_object_to_solution st)\<rparr>"
  by (cases "parse_line line")
    (auto simp: load_line_def entry_of_def log_of_def Let_def)

lemma fold_load_line:
  "fold load_line ls st =
     st\<lparr>cfg_type_pairs := cfg_type_pairs st @ map type_pair (entries_of ls),
        cfg_out := cfg_out st @ map log_of ls,
        cfg_object_to_solution :=
          smap_assign_list (map u16_entry (entries_of ls)) (cfg_object_to_solution st)\<rparr>"
proof (induction ls arbitrary: st)
  case Nil
  show ?case by simp
next
  case (Cons l ls)
  show ?case
    by (simp add: Cons.IH load_line_eq [of l] split: option.splits)
qed

lemma load_lines_eq:
  "load_lines content st =
     st\<lparr>cfg_type_pairs := cfg_type_pairs st @ map type_pair (entries_of (getlines content)),
        cfg_out := cfg_out st @ map log_of (getlines content),
        cfg_object_to_solution :=
          smap_assign_list (map u16_entry (entries_of (getlines content)))
            (cfg_object_to_solution st)\<rparr>"
  by (simp add: load_lines_fold fold_load_line)

text \<open>The loader as a whole: the three ways it can end.\<close>

lemma load_config_unreadable: "load_config path None con = Inl (1, con @ [open_error path])"
  by (simp add: load_config_def)

lemma load_config_no_types:
  "entries_of (getlines content) = [] \<Longrightarrow>
   load_config path (Some content) con =
     Inl (1, con @ map log_of (getlines content) @ [no_types_error])"
  by (simp add: load_config_def load_lines_eq loader_init_def)

lemma load_config_loaded:
  "entries_of (getlines content) \<noteq> [] \<Longrightarrow>
   load_config path (Some content) con =
     Inr \<lparr>cfg_type_pairs = map type_pair (entries_of (getlines content)),
          cfg_object_to_solution =
            smap_assign_list (map u16_entry (entries_of (getlines content))) [],
          cfg_out = con @ map log_of (getlines content)\<rparr>"
  by (simp add: load_config_def load_lines_eq loader_init_def)

lemma load_config_Inr_iff:
  "load_config path file con = Inr st \<longleftrightarrow>
     (\<exists>content. file = Some content \<and> entries_of (getlines content) \<noteq> [] \<and>
        st = \<lparr>cfg_type_pairs = map type_pair (entries_of (getlines content)),
              cfg_object_to_solution =
                smap_assign_list (map u16_entry (entries_of (getlines content))) [],
              cfg_out = con @ map log_of (getlines content)\<rparr>)"
proof (cases "file")
  case None
  then show ?thesis
    by (simp add: load_config_unreadable)
next
  case (Some content)
  then show ?thesis
    by (cases "entries_of (getlines content) = []")
      (auto simp: load_config_no_types load_config_loaded)
qed

lemma load_config_Inl_code: "load_config path file con = Inl (code, con') \<Longrightarrow> code = 1"
  by (auto simp: load_config_def Let_def split: option.splits if_splits)

section \<open>The invariant of the loaded tables\<close>

text \<open>
  What the rest of \<^verbatim>\<open>main\<close> relies on: the class table is sorted by key, holds at least
  one class, every solution name in it is a registered type, every registered type is
  non-transient, no class name holds an underscore and no name is empty.
\<close>

definition loader_inv :: "loader_state \<Rightarrow> bool" where
  "loader_inv st \<longleftrightarrow>
     smap_inv (cfg_object_to_solution st) \<and>
     (\<forall>(cls, soln) \<in> set (cfg_object_to_solution st).
        (soln, False) \<in> set (cfg_type_pairs st) \<and> cls \<noteq> [] \<and> soln \<noteq> [] \<and>
        widen CHR ''_'' \<notin> set cls) \<and>
     (\<forall>p \<in> set (cfg_type_pairs st). \<not> snd p)"

lemma widen_inj [simp]: "widen c = widen d \<longleftrightarrow> c = d"
  by (metis narrow_widen)

lemma entry_of_Some:
  assumes "entry_of l = Some (c, s)"
  shows "c \<noteq> []" and "CHR ''_'' \<notin> set c" and "is_word s"
proof -
  from assms obtain w where w: "parse_line l = Some (w, s)" and c: "c = underscores_to_spaces w"
    by (auto simp: entry_of_def)
  from parse_line_Some [OF w] have "is_word w" and "is_word s"
    by auto
  then show "c \<noteq> []" and "is_word s"
    by (simp_all add: c underscores_to_spaces_def is_word_def)
  show "CHR ''_'' \<notin> set c"
    by (auto simp: c underscores_to_spaces_def)
qed

lemma entries_of_mem: "e \<in> set (entries_of ls) \<Longrightarrow> \<exists>l \<in> set ls. entry_of l = Some e"
  by (induction ls) (auto split: option.splits)

lemma loaded_inv:
  "loader_inv \<lparr>cfg_type_pairs = map type_pair (entries_of ls),
     cfg_object_to_solution = smap_assign_list (map u16_entry (entries_of ls)) [],
     cfg_out = con\<rparr>"
proof -
  have "(soln, False) \<in> type_pair ` set (entries_of ls) \<and> cls \<noteq> [] \<and> soln \<noteq> [] \<and>
      widen CHR ''_'' \<notin> set cls"
    if mem: "(cls, soln) \<in> set (smap_assign_list (map u16_entry (entries_of ls)) [])" for cls soln
  proof -
    from mem set_smap_assign_list [of "map u16_entry (entries_of ls)" "[]"]
    obtain e where e: "e \<in> set (entries_of ls)" and eq: "(cls, soln) = u16_entry e"
      by auto
    obtain c s where cs: "e = (c, s)"
      by (cases e)
    from entries_of_mem [OF e] obtain l where "entry_of l = Some (c, s)"
      by (auto simp: cs)
    from entry_of_Some [OF this] eq e show ?thesis
      by (auto simp: cs toU16_def is_word_def intro!: rev_image_eqI [of "(c, s)"])
  qed
  then show ?thesis
    by (auto simp: loader_inv_def smap_assign_list_inv type_pair_def)
qed

lemma load_config_inv: "load_config path file con = Inr st \<Longrightarrow> loader_inv st"
  by (auto simp: load_config_Inr_iff loaded_inv)

section \<open>Writing a configuration\<close>

text \<open>
  The inverse of the loader: a class is written with its spaces as underscores, one entry
  per line. An entry can be written if its class name is not empty and holds no underscore
  and no whitespace but spaces, and its solution name is a word.
\<close>

definition spaces_to_underscores :: "string \<Rightarrow> string" where
  "spaces_to_underscores s = map (\<lambda>c. if c = CHR '' '' then CHR ''_'' else c) s"

definition config_line :: "string \<times> string \<Rightarrow> string" where
  "config_line e = spaces_to_underscores (fst e) @ '' '' @ snd e"

definition print_config :: "(string \<times> string) list \<Rightarrow> string" where
  "print_config es = unlines (map config_line es)"

definition wf_entry :: "string \<times> string \<Rightarrow> bool" where
  "wf_entry e \<longleftrightarrow>
     fst e \<noteq> [] \<and> (\<forall>x \<in> set (fst e). is_space x \<longrightarrow> x = CHR '' '') \<and>
     CHR ''_'' \<notin> set (fst e) \<and> is_word (snd e)"

lemma underscores_spaces_inverse:
  "CHR ''_'' \<notin> set s \<Longrightarrow> underscores_to_spaces (spaces_to_underscores s) = s"
  by (induction s) (auto simp: underscores_to_spaces_def spaces_to_underscores_def)

lemma underscore_for_space:
  "is_space x \<longrightarrow> x = CHR '' '' \<Longrightarrow> \<not> is_space (if x = CHR '' '' then CHR ''_'' else x)"
  by (cases "x = CHR '' ''") simp_all

lemma spaces_to_underscores_no_space:
  assumes "\<forall>x \<in> set s. is_space x \<longrightarrow> x = CHR '' ''"
  shows "\<forall>c \<in> set (spaces_to_underscores s). \<not> is_space c"
proof
  fix c
  assume "c \<in> set (spaces_to_underscores s)"
  then have "c \<in> (\<lambda>x. if x = CHR '' '' then CHR ''_'' else x) ` set s"
    by (simp only: spaces_to_underscores_def set_map)
  then obtain x where "x \<in> set s" and "c = (if x = CHR '' '' then CHR ''_'' else x)"
    by (rule imageE)
  with assms underscore_for_space [of x] show "\<not> is_space c"
    by blast
qed

lemma is_word_spaces_to_underscores:
  assumes "s \<noteq> []" and "\<forall>x \<in> set s. is_space x \<longrightarrow> x = CHR '' ''"
  shows "is_word (spaces_to_underscores s)"
  unfolding is_word_def using assms(1) spaces_to_underscores_no_space [OF assms(2)]
  by (simp add: spaces_to_underscores_def)

lemma entry_of_config_line:
  assumes "wf_entry e"
  shows "entry_of (config_line e) = Some e"
proof -
  obtain c s where e: "e = (c, s)"
    by (cases e)
  from assms have word: "is_word (spaces_to_underscores c)" and s: "is_word s"
    and c: "CHR ''_'' \<notin> set c"
    by (simp_all add: e wf_entry_def is_word_spaces_to_underscores)
  from word s have "parse_line ([] @ spaces_to_underscores c @ '' '' @ s @ []) =
      Some (spaces_to_underscores c, s)"
    by (intro parse_line_words) simp_all
  with c show ?thesis
    by (simp add: e entry_of_def config_line_def underscores_spaces_inverse)
qed

lemma config_line_no_newline:
  assumes "wf_entry e"
  shows "CHR ''\<newline>'' \<notin> set (config_line e)"
proof -
  from assms have "is_word (spaces_to_underscores (fst e))" and "is_word (snd e)"
    by (simp_all add: wf_entry_def is_word_spaces_to_underscores)
  then show ?thesis
    using is_space_newline by (auto simp: config_line_def is_word_def simp del: is_space_newline)
qed

lemma entries_of_config_lines:
  "\<forall>e \<in> set es. wf_entry e \<Longrightarrow> entries_of (map config_line es) = es"
  by (induction es) (simp_all add: entry_of_config_line)

lemma entries_of_print_config:
  assumes "\<forall>e \<in> set es. wf_entry e"
  shows "entries_of (getlines (print_config es)) = es"
proof -
  from assms have "getlines (print_config es) = map config_line es"
    unfolding print_config_def by (intro getlines_unlines) (auto simp: config_line_no_newline)
  with assms show ?thesis
    by (simp add: entries_of_config_lines)
qed

section \<open>Properties of the loader\<close>

definition mug_config :: string where
  "mug_config = ''mug switch_state\<newline>''"

lemma getlines_mug_config: "getlines mug_config = [''mug switch_state'']"
  unfolding mug_config_def by code_simp

lemma entry_of_mug: "entry_of ''mug switch_state'' = Some (''mug'', ''switch_state'')"
  by code_simp

lemma entries_of_mug_config [simp]:
  "entries_of (getlines mug_config) = [(''mug'', ''switch_state'')]"
  by (simp add: getlines_mug_config entry_of_mug)

text \<open>
  Property C11. When the loader lets \<^verbatim>\<open>main\<close> go on, the class table represents the
  entries of the file with the last line for a class winning, every well-formed line has
  added one type registration in file order (also a line that repeats a class), and the
  console shows one line per line of the file.
\<close>

theorem loaded_table_last_line_wins:
  assumes "load_config path (Some content) con = Inr st"
  shows "smap_find k (cfg_object_to_solution st) =
       map_of (rev (map u16_entry (entries_of (getlines content)))) k \<and>
     cfg_type_pairs st = map type_pair (entries_of (getlines content)) \<and>
     cfg_out st = con @ map log_of (getlines content)"
proof -
  from assms have st: "st = \<lparr>cfg_type_pairs = map type_pair (entries_of (getlines content)),
      cfg_object_to_solution = smap_assign_list (map u16_entry (entries_of (getlines content))) [],
      cfg_out = con @ map log_of (getlines content)\<rparr>"
    by (simp add: load_config_Inr_iff)
  have "smap_inv (cfg_object_to_solution st)"
    by (simp add: st smap_assign_list_inv)
  then show ?thesis
    by (simp add: smap_find_abs) (simp add: st smap_assign_list_abs)
qed

theorem loaded_table_last_line_wins_witness:
  "\<exists>st. load_config ''3000'' (Some mug_config) [] = Inr st \<and>
     smap_find (toU16 ''mug'') (cfg_object_to_solution st) = Some (toU16 ''switch_state'') \<and>
     cfg_type_pairs st = [(toU16 ''switch_state'', False)] \<and>
     cfg_out st = [class_line ''mug'' ''switch_state'']"
  using loaded_table_last_line_wins [of "''3000''" mug_config "[]" _ "toU16 ''mug''"]
  by (simp add: load_config_loaded getlines_mug_config log_of_def entry_of_mug)

text \<open>
  Property C23. The tables the loader hands on satisfy the invariant the rest of the
  program relies on: the class table is sorted and not empty, each of its solution names is
  a registered non-transient type, and no name is empty or holds an underscore.
\<close>

theorem load_config_establishes_inv:
  assumes "load_config path file con = Inr st"
  shows "loader_inv st \<and> \<not> smap_empty (cfg_object_to_solution st)"
  using assms by (auto simp: load_config_Inr_iff loaded_inv)

theorem load_config_establishes_inv_witness:
  "loader_inv \<lparr>cfg_type_pairs = [(toU16 ''switch_state'', False)],
      cfg_object_to_solution = [(toU16 ''mug'', toU16 ''switch_state'')],
      cfg_out = [class_line ''mug'' ''switch_state'']\<rparr> \<and>
   \<not> smap_empty (cfg_object_to_solution
      \<lparr>cfg_type_pairs = [(toU16 ''switch_state'', False)],
       cfg_object_to_solution = [(toU16 ''mug'', toU16 ''switch_state'')],
       cfg_out = [class_line ''mug'' ''switch_state'']\<rparr>)"
  using load_config_establishes_inv [of "''3000''" "Some mug_config" "[]"]
  by (simp add: load_config_loaded getlines_mug_config log_of_def entry_of_mug)

text \<open>
  Property C22. The loader ends the program exactly if the file cannot be opened or no line
  of it holds two words; the exit code is 1 in both cases, and the console shows the open
  error, or one complaint per line of the file followed by the final message.
\<close>

theorem load_config_exit_codes:
  "load_config path file con = Inl (code, con') \<longleftrightarrow>
     code = 1 \<and>
     (file = None \<and> con' = con @ [open_error path] \<or>
      (\<exists>content. file = Some content \<and> (\<forall>l \<in> set (getlines content). parse_line l = None) \<and>
         con' = con @ map bad_line (getlines content) @ [no_types_error]))"
proof (cases "file")
  case None
  then show ?thesis
    by (auto simp: load_config_unreadable)
next
  case (Some content)
  have "map log_of (getlines content) = map bad_line (getlines content)"
    if "\<forall>l \<in> set (getlines content). parse_line l = None"
    using that by (simp add: log_of_bad)
  with Some show ?thesis
    by (cases "entries_of (getlines content) = []")
      (auto simp: load_config_no_types load_config_loaded entries_of_Nil_iff)
qed

theorem load_config_exit_codes_witness:
  "load_config ''3000'' (Some ''mug\<newline>'') [] =
     Inl (1, [bad_line ''mug'', no_types_error])"
proof -
  have "getlines ''mug\<newline>'' = [''mug'']" and "parse_line ''mug'' = None"
    by code_simp+
  with load_config_exit_codes [of "''3000''" "Some ''mug\<newline>''" "[]" 1
      "[bad_line ''mug'', no_types_error]"]
  show ?thesis
    by simp
qed

text \<open>
  Property C24. Writing a list of entries as a configuration file and loading it gives the
  entries back: the loader accepts the file, the class table represents the entries with
  later ones overriding earlier ones, and the type registrations are the solution names in
  order.
\<close>

theorem print_load_round_trip:
  assumes "\<forall>e \<in> set es. wf_entry e" and "es \<noteq> []"
  shows "\<exists>st. load_config path (Some (print_config es)) con = Inr st \<and>
     smap_abs (cfg_object_to_solution st) = map_of (rev (map u16_entry es)) \<and>
     cfg_type_pairs st = map type_pair es"
  using assms
  by (simp add: load_config_loaded entries_of_print_config smap_assign_list_abs)

theorem print_load_round_trip_witness:
  "\<exists>st. load_config ''3000'' (Some (print_config [(''coffee mug'', ''switch_state'')])) [] = Inr st \<and>
     smap_abs (cfg_object_to_solution st) =
       map_of (rev (map u16_entry [(''coffee mug'', ''switch_state'')])) \<and>
     cfg_type_pairs st = map type_pair [(''coffee mug'', ''switch_state'')]"
proof -
  have "wf_entry (''coffee mug'', ''switch_state'')"
    by code_simp
  with print_load_round_trip [of "[(''coffee mug'', ''switch_state'')]" "''3000''" "[]"]
  show ?thesis
    by simp
qed

end
