(* ===== verification/Regex.thy ===== *)
theory Regex
  imports U16_String
begin

text \<open>
  The filters the program hands to the world model are POSIX extended regular expressions,
  as the comment at source lines 214 to 216 says; the world model accepts a URI if the
  expression matches all of it. This theory gives the fragment of that syntax the program
  can produce: ordinary characters, \<^verbatim>\<open>.\<close>, a backslash before a character, grouping,
  alternation and the postfix operators \<^verbatim>\<open>*\<close>, \<^verbatim>\<open>+\<close> and \<^verbatim>\<open>?\<close>. Bracket expressions,
  intervals and anchors are refused by the parser.

  \<open>ere_parse\<close> reads an expression in one pass with a stack of open groups;
  \<open>matches\<close> decides a match by derivatives. The reference semantics is the language
  \<open>lang\<close> of an expression, and \<open>matches_lang\<close> states that the matcher decides it.
\<close>

section \<open>Expressions and their matcher\<close>

datatype 'a rexp =
    Zero
  | Eps
  | Atom 'a
  | Any
  | Plus "'a rexp" "'a rexp"
  | Times "'a rexp" "'a rexp"
  | Star "'a rexp"

primrec nullable :: "'a rexp \<Rightarrow> bool" where
  "nullable Zero = False"
| "nullable Eps = True"
| "nullable (Atom a) = False"
| "nullable Any = False"
| "nullable (Plus r s) = (nullable r \<or> nullable s)"
| "nullable (Times r s) = (nullable r \<and> nullable s)"
| "nullable (Star r) = True"

primrec deriv :: "'a \<Rightarrow> 'a rexp \<Rightarrow> 'a rexp" where
  "deriv c Zero = Zero"
| "deriv c Eps = Zero"
| "deriv c (Atom a) = (if a = c then Eps else Zero)"
| "deriv c Any = Eps"
| "deriv c (Plus r s) = Plus (deriv c r) (deriv c s)"
| "deriv c (Times r s) =
     (if nullable r then Plus (Times (deriv c r) s) (deriv c s) else Times (deriv c r) s)"
| "deriv c (Star r) = Times (deriv c r) (Star r)"

primrec derivs :: "'a list \<Rightarrow> 'a rexp \<Rightarrow> 'a rexp" where
  "derivs [] r = r"
| "derivs (c # s) r = derivs s (deriv c r)"

definition matches :: "'a rexp \<Rightarrow> 'a list \<Rightarrow> bool" where
  "matches r s = nullable (derivs s r)"

section \<open>The parser\<close>

text \<open>
  A frame of the stack is an open group: the alternatives of it that are complete, and the
  factors of the alternative being read. The flag of the state says that the last
  character was a backslash.
\<close>

type_synonym frame = "char16 rexp list \<times> char16 rexp list"

type_synonym pstate = "bool \<times> frame list"

definition seq_of :: "'a rexp list \<Rightarrow> 'a rexp" where
  "seq_of rs = foldr Times rs Eps"

fun alt_of :: "'a rexp list \<Rightarrow> 'a rexp" where
  "alt_of [] = Zero"
| "alt_of [r] = r"
| "alt_of (r # rs) = Plus r (alt_of rs)"

definition close_frame :: "frame \<Rightarrow> char16 rexp" where
  "close_frame f = alt_of (fst f @ [seq_of (snd f)])"

definition push_factor :: "char16 rexp \<Rightarrow> frame list \<Rightarrow> pstate option" where
  "push_factor r stack =
     (case stack of
        [] \<Rightarrow> None
      | (alts, fs) # rest \<Rightarrow> Some (False, (alts, fs @ [r]) # rest))"

definition postfix_op :: "(char16 rexp \<Rightarrow> char16 rexp) \<Rightarrow> frame list \<Rightarrow> pstate option" where
  "postfix_op f stack =
     (case stack of
        [] \<Rightarrow> None
      | (alts, fs) # rest \<Rightarrow>
          if fs = [] then None else Some (False, (alts, butlast fs @ [f (last fs)]) # rest))"

definition ch :: "char \<Rightarrow> char16" where
  "ch c = ucast (byte_of_char c)"

definition unsupported :: "char16 set" where
  "unsupported = set (map ch ''{}[]^$'')"

definition parse_step :: "char16 \<Rightarrow> pstate \<Rightarrow> pstate option" where
  "parse_step c st =
     (let (escaped, stack) = st in
      if escaped then push_factor (Atom c) stack
      else if c = ch (CHR 0x5C) then Some (True, stack)
      else if c = ch CHR ''('' then Some (False, ([], []) # stack)
      else if c = ch CHR '')'' then
        (case stack of
           f # (alts, fs) # rest \<Rightarrow> Some (False, (alts, fs @ [close_frame f]) # rest)
         | _ \<Rightarrow> None)
      else if c = ch CHR ''|'' then
        (case stack of
           [] \<Rightarrow> None
         | (alts, fs) # rest \<Rightarrow> Some (False, (alts @ [seq_of fs], []) # rest))
      else if c = ch CHR ''*'' then postfix_op Star stack
      else if c = ch CHR ''+'' then postfix_op (\<lambda>r. Times r (Star r)) stack
      else if c = ch CHR ''?'' then postfix_op (\<lambda>r. Plus r Eps) stack
      else if c = ch CHR ''.'' then push_factor Any stack
      else if c \<in> unsupported then None
      else push_factor (Atom c) stack)"

fun parse_from :: "u16string \<Rightarrow> pstate \<Rightarrow> char16 rexp option" where
  "parse_from [] st =
     (case st of
        (False, [f]) \<Rightarrow> Some (close_frame f)
      | _ \<Rightarrow> None)"
| "parse_from (c # s) st =
     (case parse_step c st of
        None \<Rightarrow> None
      | Some st' \<Rightarrow> parse_from s st')"

definition ere_parse :: "u16string \<Rightarrow> char16 rexp option" where
  "ere_parse pat = parse_from pat (False, [([], [])])"

text \<open>
  The world model's test of a URI against a filter. An expression that cannot be read
  selects nothing.
\<close>

definition ere_match :: "u16string \<Rightarrow> u16string \<Rightarrow> bool" where
  "ere_match pat s = (case ere_parse pat of None \<Rightarrow> False | Some r \<Rightarrow> matches r s)"

lemmas regex_defs [owl_defs] =
  matches_def seq_of_def close_frame_def push_factor_def postfix_op_def ch_def unsupported_def
  parse_step_def ere_parse_def ere_match_def

section \<open>Languages\<close>

definition conc :: "'a list set \<Rightarrow> 'a list set \<Rightarrow> 'a list set" where
  "conc A B = {xs @ ys | xs ys. xs \<in> A \<and> ys \<in> B}"

inductive_set star :: "'a list set \<Rightarrow> 'a list set" for A :: "'a list set" where
  star_Nil [simp, intro!]: "[] \<in> star A"
| star_append [intro]: "u \<in> A \<Longrightarrow> v \<in> star A \<Longrightarrow> u @ v \<in> star A"

primrec lang :: "'a rexp \<Rightarrow> 'a list set" where
  "lang Zero = {}"
| "lang Eps = {[]}"
| "lang (Atom a) = {[a]}"
| "lang Any = range (\<lambda>a. [a])"
| "lang (Plus r s) = lang r \<union> lang s"
| "lang (Times r s) = conc (lang r) (lang s)"
| "lang (Star r) = star (lang r)"

definition Deriv :: "'a \<Rightarrow> 'a list set \<Rightarrow> 'a list set" where
  "Deriv c L = {xs. c # xs \<in> L}"

lemma conc_iff: "zs \<in> conc A B \<longleftrightarrow> (\<exists>xs ys. zs = xs @ ys \<and> xs \<in> A \<and> ys \<in> B)"
  by (auto simp: conc_def)

lemma concI [intro]: "xs \<in> A \<Longrightarrow> ys \<in> B \<Longrightarrow> xs @ ys \<in> conc A B"
  by (auto simp: conc_def)

lemma concE [elim]:
  assumes "zs \<in> conc A B"
  obtains xs ys where "zs = xs @ ys" and "xs \<in> A" and "ys \<in> B"
  using assms by (auto simp: conc_def)

lemma conc_simps [simp]:
  "conc {} B = {}"
  "conc A {} = {}"
  "conc {[]} B = B"
  "conc A {[]} = A"
  by (auto simp: conc_def)

lemma conc_assoc: "conc (conc A B) C = conc A (conc B C)"
  by (auto simp: conc_iff) (metis append.assoc)+

lemma conc_Un_distrib: "conc (A \<union> B) C = conc A C \<union> conc B C"
  by (auto simp: conc_iff)

lemma Nil_in_conc [simp]: "[] \<in> conc A B \<longleftrightarrow> [] \<in> A \<and> [] \<in> B"
  by (auto simp: conc_iff)

lemma Deriv_simps [simp]:
  "Deriv c {} = {}"
  "Deriv c {[]} = {}"
  "Deriv c {[a]} = (if a = c then {[]} else {})"
  "Deriv c (A \<union> B) = Deriv c A \<union> Deriv c B"
  by (auto simp: Deriv_def)

lemma Deriv_Any [simp]: "Deriv c (range (\<lambda>a. [a])) = {[]}"
  by (auto simp: Deriv_def)

lemma Deriv_conc:
  "Deriv c (conc A B) = conc (Deriv c A) B \<union> (if [] \<in> A then Deriv c B else {})"
  by (auto simp: Deriv_def conc_iff Cons_eq_append_conv) blast+

lemma star_nonempty_decomp:
  assumes "x \<in> star A" and "x \<noteq> []"
  shows "\<exists>u v. x = u @ v \<and> u \<noteq> [] \<and> u \<in> A \<and> v \<in> star A"
  using assms
proof (induction rule: star.induct)
  case star_Nil
  then show ?case by simp
next
  case (star_append u v)
  then show ?case
    by (cases "u = []") auto
qed

lemma Deriv_star: "Deriv c (star A) = conc (Deriv c A) (star A)"
proof (intro set_eqI iffI)
  fix xs
  assume "xs \<in> Deriv c (star A)"
  then have "c # xs \<in> star A"
    by (simp add: Deriv_def)
  from star_nonempty_decomp [OF this] obtain u v where
    "c # xs = u @ v" "u \<noteq> []" "u \<in> A" "v \<in> star A"
    by auto
  then obtain u' where "u = c # u'" and "xs = u' @ v"
    by (cases u) auto
  with \<open>u \<in> A\<close> \<open>v \<in> star A\<close> show "xs \<in> conc (Deriv c A) (star A)"
    by (auto simp: Deriv_def)
next
  fix xs
  assume "xs \<in> conc (Deriv c A) (star A)"
  then obtain u v where "xs = u @ v" "c # u \<in> A" "v \<in> star A"
    by (auto simp: Deriv_def)
  then have "(c # u) @ v \<in> star A"
    by (intro star_append)
  with \<open>xs = u @ v\<close> show "xs \<in> Deriv c (star A)"
    by (simp add: Deriv_def)
qed

section \<open>The matcher decides the language\<close>

lemma nullable_iff: "nullable r \<longleftrightarrow> [] \<in> lang r"
  by (induction r) auto

lemma lang_deriv: "lang (deriv c r) = Deriv c (lang r)"
  by (induction r) (simp_all add: Deriv_conc Deriv_star nullable_iff)

lemma lang_derivs: "[] \<in> lang (derivs s r) \<longleftrightarrow> s \<in> lang r"
  by (induction s arbitrary: r) (simp_all add: lang_deriv Deriv_def)

lemma matches_lang: "matches r s \<longleftrightarrow> s \<in> lang r"
  by (simp add: matches_def nullable_iff lang_derivs)

section \<open>Languages of sequences and alternatives\<close>

lemma lang_seq_of_simps [simp]:
  "lang (seq_of []) = {[]}"
  "lang (seq_of (r # rs)) = conc (lang r) (lang (seq_of rs))"
  by (simp_all add: seq_of_def)

lemma lang_seq_of_append [simp]:
  "lang (seq_of (rs @ ss)) = conc (lang (seq_of rs)) (lang (seq_of ss))"
  by (induction rs) (simp_all add: conc_assoc)

lemma conc_singletons [simp]: "conc {u} {v} = {u @ v}"
  by (simp add: conc_def)

lemma lang_seq_of_atoms [simp]: "lang (seq_of (map Atom w)) = {w}"
  by (induction w) simp_all

lemma lang_alt_of [simp]: "lang (alt_of rs) = (\<Union>r \<in> set rs. lang r)"
  by (induction rs rule: alt_of.induct) auto

lemma star_Any [simp]: "star (range (\<lambda>a. [a])) = UNIV"
proof -
  have "xs \<in> star (range (\<lambda>a. [a]))" for xs :: "'a list"
  proof (induction xs)
    case Nil
    show ?case by simp
  next
    case (Cons x xs)
    have "[x] @ xs \<in> star (range (\<lambda>a. [a]))"
      using Cons by (intro star_append) auto
    then show ?case
      by simp
  qed
  then show ?thesis
    by auto
qed

lemma conc_UNIV_iff: "zs \<in> conc UNIV (conc {w} UNIV) \<longleftrightarrow> sublist w zs"
  by (auto simp: conc_iff sublist_def)

lemma conc_singleton_left [simp]: "conc {u} (conc {v} A) = conc {u @ v} A"
  by (simp flip: conc_assoc)

lemma conc_UN_left: "conc (\<Union>x \<in> X. {f x}) A = (\<Union>x \<in> X. conc {f x} A)"
  by (auto simp: conc_iff)

lemma conc_UN_right: "conc A (\<Union>x \<in> X. B x) = (\<Union>x \<in> X. conc A (B x))"
  by (auto simp: conc_iff)

section \<open>Steps of the parser\<close>

text \<open>The characters with a meaning of their own; every other character stands for itself.\<close>

definition special :: "char16 set" where
  "special = set (map ch [CHR 0x5C, CHR ''('', CHR '')'', CHR ''|'', CHR ''*'', CHR ''+'',
     CHR ''?'', CHR ''.'', CHR ''{'', CHR ''}'', CHR ''['', CHR '']'', CHR ''^'', CHR ''$''])"

definition plain :: "u16string \<Rightarrow> bool" where
  "plain w \<longleftrightarrow> (\<forall>c \<in> set w. c \<notin> special)"

lemma ch_inj [simp]: "ch c = ch d \<longleftrightarrow> c = d"
proof
  assume "ch c = ch d"
  then have "(ucast (ch c) :: byte) = ucast (ch d)"
    by simp
  then show "c = d"
    by (simp add: ch_def ucast_ucast_byte)
qed simp

lemma u16_lit_ch: "u16_lit s = map ch s"
  by (simp add: u16_lit_def ch_def)

lemma plain_simps [simp]:
  "plain []"
  "plain (c # w) \<longleftrightarrow> c \<notin> special \<and> plain w"
  "plain (v @ w) \<longleftrightarrow> plain v \<and> plain w"
  by (auto simp: plain_def)

lemma parse_step_escaped [simp]:
  "parse_step c (True, (alts, fs) # rest) = Some (False, (alts, fs @ [Atom c]) # rest)"
  by (simp add: parse_step_def push_factor_def)

lemma parse_step_backslash [simp]:
  "parse_step (ch (CHR 0x5C)) (False, stack) = Some (True, stack)"
  by (simp add: parse_step_def)

lemma parse_step_open [simp]:
  "parse_step (ch CHR ''('') (False, stack) = Some (False, ([], []) # stack)"
  by (simp add: parse_step_def)

lemma parse_step_close [simp]:
  "parse_step (ch CHR '')'') (False, f # (alts, fs) # rest) =
     Some (False, (alts, fs @ [close_frame f]) # rest)"
  by (simp add: parse_step_def)

lemma parse_step_bar [simp]:
  "parse_step (ch CHR ''|'') (False, (alts, fs) # rest) = Some (False, (alts @ [seq_of fs], []) # rest)"
  by (simp add: parse_step_def)

lemma parse_step_star [simp]:
  "parse_step (ch CHR ''*'') (False, (alts, fs) # rest) =
     (if fs = [] then None else Some (False, (alts, butlast fs @ [Star (last fs)]) # rest))"
  by (simp add: parse_step_def postfix_op_def)

lemma parse_step_dot [simp]:
  "parse_step (ch CHR ''.'') (False, (alts, fs) # rest) = Some (False, (alts, fs @ [Any]) # rest)"
  by (simp add: parse_step_def push_factor_def)

lemma parse_step_plain:
  "c \<notin> special \<Longrightarrow>
   parse_step c (False, (alts, fs) # rest) = Some (False, (alts, fs @ [Atom c]) # rest)"
  by (simp add: parse_step_def push_factor_def special_def unsupported_def)

lemma parse_from_append:
  "parse_from (v @ w) st = (case fold (\<lambda>c st. Option.bind st (parse_step c)) v (Some st) of
      None \<Rightarrow> None | Some st' \<Rightarrow> parse_from w st')"
proof (induction v arbitrary: st)
  case Nil
  show ?case by simp
next
  case (Cons c v)
  have none: "fold (\<lambda>c st. Option.bind st (parse_step c)) v None = None"
    by (induction v) simp_all
  show ?case
    by (cases "parse_step c st") (simp_all add: Cons.IH none)
qed

text \<open>A run of ordinary characters adds one factor per character to the open alternative.\<close>

lemma parse_from_plain:
  "plain w \<Longrightarrow>
   parse_from (w @ s) (False, (alts, fs) # rest) = parse_from s (False, (alts, fs @ map Atom w) # rest)"
  by (induction w arbitrary: fs) (simp_all add: parse_step_plain)

end
