(* ===== verification/Pattern_Matcher.thy ===== *)
theory Pattern_Matcher
  imports Std_Map Regex
begin

text \<open>
  The URI filter \<^verbatim>\<open>main\<close> builds from the class table (source lines 180 to 194):
  \<^verbatim>\<open>.*\.class\..*\<close> for one class, \<^verbatim>\<open>.*\.(class1|class2|...)\..*\<close> otherwise, the class
  names joined in key order. \<open>desired_ids\<close> is the string the code builds; the theorems
  read it with the parser of theory \<open>Regex\<close> and state which URIs it selects.
\<close>

section \<open>The filter\<close>

text \<open>The literals \<^verbatim>\<open>u".*\\."\<close> and \<^verbatim>\<open>u"\\..*"\<close>.\<close>

definition any_prefix :: u16string where
  "any_prefix = u16_lit [CHR ''.'', CHR ''*'', CHR 0x5C, CHR ''.'']"

definition any_suffix :: u16string where
  "any_suffix = u16_lit [CHR 0x5C, CHR ''.'', CHR ''.'', CHR ''*'']"

text \<open>
  The loop of source lines 186 to 192 over the rest of the table; \<open>is_first\<close> is the
  test \<^verbatim>\<open>I != object_to_solution.begin()\<close>.
\<close>

fun add_classes :: "bool \<Rightarrow> (u16string \<times> u16string) list \<Rightarrow> u16string \<Rightarrow> u16string" where
  "add_classes is_first [] ids = ids"
| "add_classes is_first ((cls, soln) # rest) ids =
     add_classes False rest ((if is_first then ids else ids @ u16_lit ''|'') @ cls)"

definition desired_ids :: "(u16string, u16string) std_map \<Rightarrow> u16string" where
  "desired_ids o2s =
     (let ids = any_prefix
      in if smap_size o2s = 1 then any_prefix @ fst (hd o2s) @ any_suffix
         else add_classes True o2s (ids @ u16_lit ''('') @ u16_lit '')'' @ any_suffix)"

lemmas pattern_defs [owl_defs] = any_prefix_def any_suffix_def desired_ids_def

section \<open>The shape of the filter\<close>

fun join_bar :: "u16string list \<Rightarrow> u16string" where
  "join_bar [] = []"
| "join_bar [k] = k"
| "join_bar (k # ks) = k @ u16_lit ''|'' @ join_bar ks"

definition bar_each :: "u16string list \<Rightarrow> u16string" where
  "bar_each ks = concat (map (\<lambda>k. u16_lit ''|'' @ k) ks)"

lemma bar_each_simps [simp]:
  "bar_each [] = []"
  "bar_each (k # ks) = u16_lit ''|'' @ k @ bar_each ks"
  by (simp_all add: bar_each_def)

lemma join_bar_Cons: "join_bar (k # ks) = k @ bar_each ks"
  by (induction ks arbitrary: k) simp_all

lemma add_classes_rest: "add_classes False m ids = ids @ bar_each (smap_keys m)"
  by (induction m arbitrary: ids) auto

lemma add_classes_eq: "add_classes True m ids = ids @ join_bar (smap_keys m)"
  by (cases m) (auto simp: add_classes_rest join_bar_Cons)

text \<open>The filter for one class and for any other number of classes.\<close>

lemma desired_ids_single: "desired_ids [(cls, soln)] = any_prefix @ cls @ any_suffix"
  by (simp add: desired_ids_def smap_size_def)

lemma desired_ids_many:
  "length m \<noteq> 1 \<Longrightarrow>
   desired_ids m = any_prefix @ u16_lit ''('' @ join_bar (smap_keys m) @ u16_lit '')'' @ any_suffix"
  by (simp add: desired_ids_def smap_size_def add_classes_eq)

section \<open>Reading the filter\<close>

lemma parse_any_prefix:
  "parse_from (any_prefix @ s) (False, (alts, fs) # rest) =
     parse_from s (False, (alts, fs @ [Star Any, Atom (ch CHR ''.'')]) # rest)"
  by (simp add: any_prefix_def u16_lit_ch)

lemma parse_any_suffix:
  "parse_from (any_suffix @ s) (False, (alts, fs) # rest) =
     parse_from s (False, (alts, fs @ [Atom (ch CHR ''.''), Star Any]) # rest)"
  by (simp add: any_suffix_def u16_lit_ch butlast_append)

text \<open>The frame after the alternatives \<^verbatim>\<open>|k1|k2...\<close> have been read.\<close>

definition bars :: "u16string list \<Rightarrow> frame \<Rightarrow> frame" where
  "bars ks f = fold (\<lambda>k f. (fst f @ [seq_of (snd f)], map Atom k)) ks f"

lemma bars_simps [simp]:
  "bars [] f = f"
  "bars (k # ks) (alts, fs) = bars ks (alts @ [seq_of fs], map Atom k)"
  by (simp_all add: bars_def)

lemma parse_bar_each:
  "\<forall>k \<in> set ks. plain k \<Longrightarrow>
   parse_from (bar_each ks @ s) (False, (alts, fs) # rest) = parse_from s (False, bars ks (alts, fs) # rest)"
  by (induction ks arbitrary: alts fs) (simp_all add: u16_lit_ch parse_from_plain)

lemma lang_close_frame: "lang (close_frame (alts, fs)) = (\<Union>r \<in> set alts. lang r) \<union> lang (seq_of fs)"
  by (simp add: close_frame_def Un_commute)

lemma lang_close_bars:
  "lang (close_frame (bars ks (alts, fs))) = (\<Union>r \<in> set alts. lang r) \<union> lang (seq_of fs) \<union> set ks"
  by (induction ks arbitrary: alts fs) (auto simp: lang_close_frame)

text \<open>The expression the filter denotes, for one class and for several.\<close>

definition segment_rexp :: "char16 rexp \<Rightarrow> char16 rexp" where
  "segment_rexp r = seq_of [Star Any, Atom (ch CHR ''.''), r, Atom (ch CHR ''.''), Star Any]"

lemma lang_segment_rexp:
  "uri \<in> lang (segment_rexp r) \<longleftrightarrow> (\<exists>k \<in> lang r. sublist (u16_lit ''.'' @ k @ u16_lit ''.'') uri)"
proof -
  have "uri \<in> lang (segment_rexp r) \<longleftrightarrow>
      (\<exists>pre k suf. k \<in> lang r \<and> uri = pre @ ch CHR ''.'' # k @ ch CHR ''.'' # suf)"
    unfolding segment_rexp_def by (simp add: conc_iff) blast
  also have "\<dots> \<longleftrightarrow> (\<exists>k \<in> lang r. sublist (u16_lit ''.'' @ k @ u16_lit ''.'') uri)"
    by (simp add: sublist_def u16_lit_ch) blast
  finally show ?thesis .
qed

lemma parse_desired_single:
  assumes "plain cls"
  shows "\<exists>r. ere_parse (desired_ids [(cls, soln)]) = Some r \<and> lang r = lang (segment_rexp (seq_of (map Atom cls)))"
proof -
  have "ere_parse (desired_ids [(cls, soln)]) =
      Some (seq_of ([Star Any, Atom (ch CHR ''.'')] @ map Atom cls @ [Atom (ch CHR ''.''), Star Any]))"
    using assms
    by (simp add: desired_ids_single ere_parse_def parse_any_prefix parse_from_plain
        parse_any_suffix [of "[]", simplified] close_frame_def)
  moreover have "lang (seq_of ([Star Any, Atom (ch CHR ''.'')] @ map Atom cls @ [Atom (ch CHR ''.''), Star Any])) =
      lang (segment_rexp (seq_of (map Atom cls)))"
    by (simp add: segment_rexp_def)
  ultimately show ?thesis
    by blast
qed

text \<open>A group of alternatives without metacharacters between the prefix and the suffix.\<close>

lemma parse_group:
  assumes "ps \<noteq> []" and "\<forall>p \<in> set ps. plain p"
  shows "\<exists>g. ere_parse (any_prefix @ u16_lit ''('' @ join_bar ps @ u16_lit '')'' @ any_suffix) =
       Some (segment_rexp g) \<and> lang g = set ps"
proof -
  from assms(1) obtain k ks where ps: "ps = k # ks"
    by (cases ps) auto
  let ?g = "close_frame (bars ks ([], map Atom k))"
  from assms(2) have plain: "plain k" "\<forall>k \<in> set ks. plain k"
    by (simp_all add: ps)
  have "ere_parse (any_prefix @ u16_lit ''('' @ join_bar ps @ u16_lit '')'' @ any_suffix) =
      parse_from (u16_lit ''('' @ k @ bar_each ks @ u16_lit '')'' @ any_suffix)
        (False, [([], [Star Any, Atom (ch CHR ''.'')])])"
    by (simp add: ere_parse_def parse_any_prefix ps join_bar_Cons)
  also have "\<dots> = parse_from (u16_lit '')'' @ any_suffix)
      (False, [bars ks ([], map Atom k), ([], [Star Any, Atom (ch CHR ''.'')])])"
    using plain by (simp add: u16_lit_ch parse_from_plain [of k _ "[]" "[]", simplified] parse_bar_each)
  also have "\<dots> = Some (segment_rexp ?g)"
    by (simp add: u16_lit_ch parse_any_suffix [of "[]", simplified] close_frame_def [of "([], _)"]
        segment_rexp_def)
  finally have "ere_parse (any_prefix @ u16_lit ''('' @ join_bar ps @ u16_lit '')'' @ any_suffix) =
      Some (segment_rexp ?g)" .
  moreover have "lang ?g = set ps"
    by (simp add: lang_close_bars ps)
  ultimately show ?thesis
    by blast
qed

lemma parse_desired_many:
  assumes "length m \<noteq> 1" and "m \<noteq> []" and "\<forall>k \<in> set (smap_keys m). plain k"
  shows "\<exists>r. ere_parse (desired_ids m) = Some r \<and> (\<exists>g. r = segment_rexp g \<and> lang g = set (smap_keys m))"
proof -
  from assms(2) have "smap_keys m \<noteq> []"
    by (cases m) (simp_all add: smap_keys_def)
  from parse_group [OF this assms(3)] assms(1) show ?thesis
    by (auto simp: desired_ids_many)
qed

section \<open>What the filter selects\<close>

text \<open>
  For a table that is not empty and whose class names hold no character with a meaning in
  the syntax, the filter accepts a URI exactly if some class name is a segment of it
  between two dots.
\<close>

lemma desired_ids_selects:
  assumes "m \<noteq> []" and "\<forall>k \<in> set (smap_keys m). plain k"
  shows "ere_match (desired_ids m) uri \<longleftrightarrow>
     (\<exists>k \<in> set (smap_keys m). sublist (u16_lit ''.'' @ k @ u16_lit ''.'') uri)"
proof (cases "length m = 1")
  case True
  then obtain cls soln where m: "m = [(cls, soln)]"
    by (cases m) auto
  from assms(2) have "plain cls"
    by (simp add: m)
  from parse_desired_single [OF this, of soln] show ?thesis
    by (auto simp: m ere_match_def matches_lang lang_segment_rexp)
next
  case False
  from parse_desired_many [OF False assms] show ?thesis
    by (auto simp: ere_match_def matches_lang lang_segment_rexp)
qed

section \<open>Class names that hold bars\<close>

text \<open>
  The loader accepts any word as a class name. The matcher reads a bar in a name as an
  alternation, and the filter for a single class has no parentheses around the name, so
  the alternation is at the top of the expression: with the parts \<open>p1\<close>, ..., \<open>pn\<close> of the
  name between its bars, the filter \<^verbatim>\<open>.*\.p1|p2|...|pn\..*\<close> accepts the strings that end
  with \<^verbatim>\<open>.p1\<close>, the strings \<open>p2\<close>, ..., \<open>p(n-1)\<close>, and the strings that begin with
  \<^verbatim>\<open>pn.\<close>. \<open>split_bar\<close> gives the parts of a name.
\<close>

fun split_bar :: "u16string \<Rightarrow> u16string list" where
  "split_bar [] = [[]]"
| "split_bar (c # cs) =
     (if c = ch CHR ''|'' then [] # split_bar cs
      else (c # hd (split_bar cs)) # tl (split_bar cs))"

lemma split_bar_not_Nil [simp]: "split_bar w \<noteq> []"
  by (induction w) simp_all

lemma bar_each_join: "ks \<noteq> [] \<Longrightarrow> bar_each ks = u16_lit ''|'' @ join_bar ks"
  by (cases ks) (simp_all add: join_bar_Cons)

lemma join_bar_split [simp]: "join_bar (split_bar w) = w"
proof (induction w)
  case Nil
  show ?case by simp
next
  case (Cons c w)
  obtain k ks where parts: "split_bar w = k # ks"
    by (cases "split_bar w") simp_all
  with Cons show ?case
    by (simp add: join_bar_Cons [of "[]"] join_bar_Cons [of "c # k"] bar_each_join u16_lit_ch)
      (simp add: join_bar_Cons)
qed

lemma split_bar_single_iff: "tl (split_bar w) = [] \<longleftrightarrow> ch CHR ''|'' \<notin> set w"
  by (induction w) auto

lemma split_bar_plain: "(\<forall>k \<in> set (split_bar w). plain k) \<longleftrightarrow> (\<forall>c \<in> set w. c = ch CHR ''|'' \<or> c \<notin> special)"
proof (induction w)
  case Nil
  show ?case by simp
next
  case (Cons c w)
  obtain k ks where parts: "split_bar w = k # ks"
    by (cases "split_bar w") simp_all
  have "ch CHR ''|'' \<in> special"
    by (simp add: special_def)
  with Cons parts show ?case
    by auto
qed

lemma bars_last:
  "ks \<noteq> [] \<Longrightarrow>
   bars ks (alts, fs) = (alts @ seq_of fs # map (\<lambda>k. seq_of (map Atom k)) (butlast ks), map Atom (last ks))"
  by (induction ks arbitrary: alts fs) auto

lemma conc_UNIV_suffix: "zs \<in> conc UNIV {w} \<longleftrightarrow> suffix w zs"
  by (auto simp: conc_iff suffix_def)

lemma conc_UNIV_prefix: "zs \<in> conc {w} UNIV \<longleftrightarrow> prefix w zs"
  by (auto simp: conc_iff prefix_def)

lemma parse_desired_bar:
  assumes parts: "split_bar cls = k # ks" and ks: "ks \<noteq> []" and plain: "\<forall>k \<in> set (split_bar cls). plain k"
  shows "ere_parse (desired_ids [(cls, soln)]) =
     Some (close_frame
       (seq_of ([Star Any, Atom (ch CHR ''.'')] @ map Atom k) # map (\<lambda>k. seq_of (map Atom k)) (butlast ks),
        map Atom (last ks) @ [Atom (ch CHR ''.''), Star Any]))"
proof -
  have cls: "cls = k @ bar_each ks"
    using join_bar_split [of cls] by (simp add: parts join_bar_Cons)
  from plain have "plain k" "\<forall>k \<in> set ks. plain k"
    by (simp_all add: parts)
  then show ?thesis
    by (simp add: desired_ids_single ere_parse_def parse_any_prefix cls parse_from_plain parse_bar_each
        bars_last [OF ks] parse_any_suffix [of "[]", simplified])
qed

lemma desired_ids_bar_selects:
  assumes "ch CHR ''|'' \<in> set cls" and "\<forall>k \<in> set (split_bar cls). plain k"
  shows "ere_match (desired_ids [(cls, soln)]) uri \<longleftrightarrow>
     suffix (u16_lit ''.'' @ hd (split_bar cls)) uri \<or>
     uri \<in> set (butlast (tl (split_bar cls))) \<or>
     prefix (last (split_bar cls) @ u16_lit ''.'') uri"
proof -
  obtain k ks where parts: "split_bar cls = k # ks"
    by (cases "split_bar cls") simp_all
  with assms(1) have ks: "ks \<noteq> []"
    using split_bar_single_iff [of cls] by auto
  have "conc UNIV (conc {[ch CHR ''.'']} {k}) = conc UNIV {ch CHR ''.'' # k}"
    by simp
  then show ?thesis
    by (simp add: ere_match_def parse_desired_bar [OF parts ks assms(2)] matches_lang lang_close_frame
        parts ks u16_lit_ch conc_UNIV_suffix conc_UNIV_prefix flip: conc_assoc)
qed

lemma prefix_snoc_iff:
  assumes "d \<notin> set w"
  shows "prefix (w @ [d]) y \<longleftrightarrow> d \<in> set y \<and> takeWhile (\<lambda>c. c \<noteq> d) y = w"
proof
  assume "prefix (w @ [d]) y"
  then obtain z where "y = w @ d # z"
    by (auto simp: prefix_def)
  moreover have "takeWhile (\<lambda>c. c \<noteq> d) (w @ d # z) = w @ takeWhile (\<lambda>c. c \<noteq> d) (d # z)"
    using assms by (intro takeWhile_append2) auto
  ultimately show "d \<in> set y \<and> takeWhile (\<lambda>c. c \<noteq> d) y = w"
    by simp
next
  assume r: "d \<in> set y \<and> takeWhile (\<lambda>c. c \<noteq> d) y = w"
  then have "dropWhile (\<lambda>c. c \<noteq> d) y \<noteq> []"
    by auto
  then obtain z where "dropWhile (\<lambda>c. c \<noteq> d) y = d # z"
    using hd_dropWhile [of "\<lambda>c. c \<noteq> d" y] by (cases "dropWhile (\<lambda>c. c \<noteq> d) y") auto
  with r have "y = w @ d # z"
    using takeWhile_dropWhile_id [of "\<lambda>c. c \<noteq> d" y] by simp
  then show "prefix (w @ [d]) y"
    by (simp add: prefix_def)
qed

lemma prefix_snoc_append:
  assumes "d \<notin> set w"
  shows "prefix (w @ [d]) (pre @ d # rest) \<longleftrightarrow> prefix (w @ [d]) (pre @ [d])"
proof -
  have "takeWhile (\<lambda>c. c \<noteq> d) ((pre @ [d]) @ rest) = takeWhile (\<lambda>c. c \<noteq> d) (pre @ [d])"
    by (rule takeWhile_append1 [of d]) simp_all
  then have "takeWhile (\<lambda>c. c \<noteq> d) (pre @ d # rest) = takeWhile (\<lambda>c. c \<noteq> d) (pre @ [d])"
    by simp
  then show ?thesis
    by (simp only: prefix_snoc_iff [OF assms]) simp
qed

lemma suffix_Cons_append:
  "d \<notin> set w \<Longrightarrow> suffix (d # w) (rest @ d # suf) \<longleftrightarrow> suffix (d # w) (d # suf)"
  using prefix_snoc_append [of d "rev w" "rev suf" "rev rest"] by (simp add: suffix_to_prefix)

lemma dot_special [simp]: "ch CHR ''.'' \<in> special" "ch CHR ''|'' \<in> special"
  by (simp_all add: special_def)

lemma plain_no_special: "plain w \<Longrightarrow> c \<in> special \<Longrightarrow> c \<notin> set w"
  by (auto simp: plain_def)

lemma split_bar_parts_plain:
  "\<forall>k \<in> set (split_bar w). plain k \<Longrightarrow> plain (hd (split_bar w)) \<and> plain (last (split_bar w))"
  by (simp add: hd_in_set)

text \<open>
  The URIs \<^verbatim>\<open>pre.name.suf\<close> are the ones the callback reports on. The filter accepts such
  a URI only if it begins with the last part of the name and a dot or ends with a dot and
  the first part.
\<close>

lemma desired_ids_bar_segment:
  assumes "ch CHR ''|'' \<in> set cls" and "\<forall>k \<in> set (split_bar cls). plain k"
  shows "ere_match (desired_ids [(cls, soln)]) (pre @ u16_lit ''.'' @ cls @ u16_lit ''.'' @ suf) \<longleftrightarrow>
     prefix (last (split_bar cls) @ u16_lit ''.'') (pre @ u16_lit ''.'') \<or>
     suffix (u16_lit ''.'' @ hd (split_bar cls)) (u16_lit ''.'' @ suf)"
proof -
  let ?uri = "pre @ u16_lit ''.'' @ cls @ u16_lit ''.'' @ suf"
  from split_bar_parts_plain [OF assms(2)]
  have hd: "ch CHR ''.'' \<notin> set (hd (split_bar cls))" and last: "ch CHR ''.'' \<notin> set (last (split_bar cls))"
    by (simp_all add: plain_no_special)
  have "?uri \<notin> set (butlast (tl (split_bar cls)))"
  proof
    assume "?uri \<in> set (butlast (tl (split_bar cls)))"
    then have "?uri \<in> set (split_bar cls)"
      by (meson in_set_butlastD list.set_sel(2) split_bar_not_Nil tl_Nil butlast.simps(1) empty_iff empty_set)
    with assms(2) have "plain ?uri"
      by blast
    then show False
      by (simp add: u16_lit_ch)
  qed
  moreover have "prefix (last (split_bar cls) @ u16_lit ''.'') ?uri \<longleftrightarrow>
      prefix (last (split_bar cls) @ u16_lit ''.'') (pre @ u16_lit ''.'')"
    using prefix_snoc_append [OF last, of pre "cls @ u16_lit ''.'' @ suf"] by (simp add: u16_lit_ch)
  moreover have "suffix (u16_lit ''.'' @ hd (split_bar cls)) ?uri \<longleftrightarrow>
      suffix (u16_lit ''.'' @ hd (split_bar cls)) (u16_lit ''.'' @ suf)"
    using suffix_Cons_append [OF hd, of "pre @ u16_lit ''.'' @ cls" suf] by (simp add: u16_lit_ch)
  ultimately show ?thesis
    by (simp add: desired_ids_bar_selects [OF assms]) blast
qed

text \<open>
  In a table of several classes the names stand in a group, so a bar in a name separates
  two alternatives of the group: the filter selects the URIs that hold a part of a name
  between two dots.
\<close>

lemma join_bar_append:
  "ps \<noteq> [] \<Longrightarrow> qs \<noteq> [] \<Longrightarrow> join_bar (ps @ qs) = join_bar ps @ u16_lit ''|'' @ join_bar qs"
  by (induction ps rule: join_bar.induct) (simp_all add: join_bar_Cons bar_each_join)

lemma join_bar_parts: "join_bar (concat (map split_bar ks)) = join_bar ks"
proof (induction ks rule: join_bar.induct)
  case 1
  show ?case by simp
next
  case (2 k)
  show ?case by simp
next
  case (3 k k' ks)
  have "concat (map split_bar (k' # ks)) \<noteq> []"
    by simp
  with 3 show ?case
    by (simp add: join_bar_append del: join_bar.simps(3)) simp
qed

lemma desired_ids_parts_select:
  assumes "length m \<noteq> 1" and "m \<noteq> []" and "\<forall>k \<in> set (smap_keys m). \<forall>p \<in> set (split_bar k). plain p"
  shows "ere_match (desired_ids m) uri \<longleftrightarrow>
     (\<exists>k \<in> set (smap_keys m). \<exists>p \<in> set (split_bar k). sublist (u16_lit ''.'' @ p @ u16_lit ''.'') uri)"
proof -
  let ?ps = "concat (map split_bar (smap_keys m))"
  from assms(2) have "?ps \<noteq> []"
    by (cases m) (simp_all add: smap_keys_def)
  moreover from assms(3) have "\<forall>p \<in> set ?ps. plain p"
    by auto
  ultimately obtain g where
    "ere_parse (any_prefix @ u16_lit ''('' @ join_bar ?ps @ u16_lit '')'' @ any_suffix) = Some (segment_rexp g)"
    and "lang g = set ?ps"
    using parse_group by blast
  with assms(1) show ?thesis
    by (auto simp: desired_ids_many join_bar_parts ere_match_def matches_lang lang_segment_rexp)
qed

text \<open>A segment without a dot occurs in a URI of one segment only as that segment.\<close>

lemma sublist_one_segment:
  assumes p: "d \<notin> set p" and k: "d \<notin> set k"
  shows "sublist (d # p @ [d]) (d # k @ [d]) \<longleftrightarrow> p = k"
proof
  assume "sublist (d # p @ [d]) (d # k @ [d])"
  then obtain xs ys where eq: "d # k @ [d] = xs @ (d # p @ [d]) @ ys"
    by (auto simp: sublist_def)
  from p k have none: "filter (\<lambda>c. c = d) p = []" "filter (\<lambda>c. c = d) k = []"
    by (auto simp: filter_empty_conv)
  from arg_cong [OF eq, of "\<lambda>zs. length (filter (\<lambda>c. c = d) zs)"]
  have "filter (\<lambda>c. c = d) xs = [] \<and> filter (\<lambda>c. c = d) ys = []"
    by (simp add: none)
  then have xs: "d \<notin> set xs" and ys: "d \<notin> set ys"
    by (auto simp: filter_empty_conv)
  from eq xs have "xs = []"
    by (cases xs) auto
  with eq have "k @ [d] = (p @ [d]) @ ys"
    by simp
  with ys have "ys = []"
    by (cases ys rule: rev_cases) auto
  with \<open>k @ [d] = (p @ [d]) @ ys\<close> show "p = k"
    by simp
qed simp

lemma no_dot_in_name: "\<forall>p \<in> set (split_bar k). plain p \<Longrightarrow> ch CHR ''.'' \<notin> set k"
  by (auto simp: split_bar_plain)

text \<open>The name of a class with a bar is no part of any name, so it is not selected.\<close>

lemma desired_ids_parts_reject:
  assumes "length m \<noteq> 1" and "m \<noteq> []"
    and parts: "\<forall>k \<in> set (smap_keys m). \<forall>p \<in> set (split_bar k). plain p"
    and k: "k \<in> set (smap_keys m)" and bar: "ch CHR ''|'' \<in> set k"
  shows "\<not> ere_match (desired_ids m) (u16_lit ''.'' @ k @ u16_lit ''.'')"
proof
  assume "ere_match (desired_ids m) (u16_lit ''.'' @ k @ u16_lit ''.'')"
  then obtain k' p where "k' \<in> set (smap_keys m)" and "p \<in> set (split_bar k')"
    and sub: "sublist (u16_lit ''.'' @ p @ u16_lit ''.'') (u16_lit ''.'' @ k @ u16_lit ''.'')"
    by (auto simp: desired_ids_parts_select [OF assms(1-3)])
  with parts have "plain p"
    by blast
  then have p: "ch CHR ''.'' \<notin> set p" "ch CHR ''|'' \<notin> set p"
    by (simp_all add: plain_no_special)
  from parts k have "ch CHR ''.'' \<notin> set k"
    by (intro no_dot_in_name) blast
  with sub p(1) have "p = k"
    by (simp add: u16_lit_ch sublist_one_segment)
  with bar p(2) show False
    by simp
qed

definition mug_table :: "(u16string, u16string) std_map" where
  "mug_table = [(u16_lit ''mug'', u16_lit ''switch_state'')]"

definition two_table :: "(u16string, u16string) std_map" where
  "two_table = [(u16_lit ''door'', u16_lit ''closed''), (u16_lit ''mug'', u16_lit ''switch_state'')]"

text \<open>
  Property C32. The filter is the fixed prefix \<^verbatim>\<open>.*\.\<close>, then the class name if the table
  holds exactly one class and otherwise the class names in key order, separated by bars,
  in parentheses, then the fixed suffix \<^verbatim>\<open>\..*\<close>.
\<close>

theorem desired_ids_shape:
  "desired_ids m =
     any_prefix @
     (if smap_size m = 1 then fst (hd m)
      else u16_lit ''('' @ join_bar (smap_keys m) @ u16_lit '')'') @
     any_suffix"
  by (simp add: desired_ids_def add_classes_eq)

theorem desired_ids_shape_witness:
  "desired_ids mug_table = u16_lit ([CHR ''.'', CHR ''*'', CHR 0x5C] @ ''.mug'' @ [CHR 0x5C] @ ''..*'') \<and>
   desired_ids two_table =
     u16_lit ([CHR ''.'', CHR ''*'', CHR 0x5C] @ ''.(door|mug)'' @ [CHR 0x5C] @ ''..*'')"
  using desired_ids_shape [of mug_table] desired_ids_shape [of two_table]
  by (simp add: mug_table_def two_table_def smap_size_def any_prefix_def any_suffix_def u16_lit_def)

end
