(* ===== verification/Client_Query.thy ===== *)
theory Client_Query
  imports World_Model Regex
begin

text \<open>
  The client side of \<^verbatim>\<open>main\<close>: the snapshot request with the loop that prints its result
  (source lines 221 to 236) and the streaming request with the loop that consumes it
  (source lines 243 to 263).

  \<^verbatim>\<open>ClientWorldConnection\<close>, \<^verbatim>\<open>Response\<close> and \<^verbatim>\<open>StepResponse\<close> belong to the Owl library. The
  model keeps what the program can observe of them: whether the connection is up, what
  the world model holds, and which changes it will push. A world model answers a request
  with the entities whose URI matches the URI filter, each with those of its attributes
  whose name matches one of the attribute filters; an entity with no such attribute is in
  the answer with an empty list. \<^verbatim>\<open>Response::get\<close> returns the answer, throws if the
  connection has failed, and does not return if nothing arrives. A stream is the list of
  the pushes to come and what follows them: the end of the stream (the store ends it, the
  connection closes, or the request is cancelled), the same push for ever, or silence.
\<close>

section \<open>The connection and its requests\<close>

datatype link = Up | Down string | Silent

datatype stream_tail = Ends | Repeats WorldState | Blocks

record client_conn =
  cc_connected :: bool
  cc_link :: link
  cc_world :: WorldState
  cc_updates :: "WorldState list"
  cc_tail :: stream_tail

datatype response = Ready WorldState | Broken string | Never

record step_response =
  sr_script :: "WorldState list"
  sr_tail :: stream_tail

definition select_attrs :: "u16string list \<Rightarrow> Attribute list \<Rightarrow> Attribute list" where
  "select_attrs pats attrs = filter (\<lambda>a. \<exists>p \<in> set pats. ere_match p (attr_name a)) attrs"

definition query :: "u16string \<Rightarrow> u16string list \<Rightarrow> WorldState \<Rightarrow> WorldState" where
  "query uri_pat attr_pats world =
     map (\<lambda>(uri, attrs). (uri, select_attrs attr_pats attrs))
       (filter (\<lambda>(uri, attrs). ere_match uri_pat uri) world)"

definition currentSnapshotRequest :: "u16string \<Rightarrow> u16string list \<Rightarrow> client_conn \<Rightarrow> response" where
  "currentSnapshotRequest uri_pat attr_pats conn =
     (case cc_link conn of
        Up \<Rightarrow> Ready (query uri_pat attr_pats (cc_world conn))
      | Down msg \<Rightarrow> Broken msg
      | Silent \<Rightarrow> Never)"

text \<open>\<^verbatim>\<open>r.get()\<close>: \<open>None\<close> if the call never returns.\<close>

definition get :: "response \<Rightarrow> WorldState result option" where
  "get r = (case r of Ready ws \<Rightarrow> Some (Inr ws) | Broken msg \<Rightarrow> Some (Inl (Runtime_error msg))
            | Never \<Rightarrow> None)"

definition streamRequest ::
  "u16string \<Rightarrow> u16string list \<Rightarrow> grail_time \<Rightarrow> client_conn \<Rightarrow> step_response" where
  "streamRequest uri_pat attr_pats interval conn =
     (case cc_link conn of
        Up \<Rightarrow> \<lparr>sr_script = map (query uri_pat attr_pats) (cc_updates conn),
                sr_tail = (case cc_tail conn of
                             Repeats ws \<Rightarrow> Repeats (query uri_pat attr_pats ws)
                           | t \<Rightarrow> t)\<rparr>
      | Down msg \<Rightarrow> \<lparr>sr_script = [], sr_tail = Ends\<rparr>
      | Silent \<Rightarrow> \<lparr>sr_script = [], sr_tail = Blocks\<rparr>)"

text \<open>\<^verbatim>\<open>sr.hasNext()\<close> waits until a push or the end is known; \<^verbatim>\<open>sr.next()\<close> takes the push.\<close>

definition hasNext :: "step_response \<Rightarrow> bool option" where
  "hasNext sr =
     (if sr_script sr \<noteq> [] then Some True
      else case sr_tail sr of Ends \<Rightarrow> Some False | Repeats ws \<Rightarrow> Some True | Blocks \<Rightarrow> None)"

definition next_state :: "step_response \<Rightarrow> WorldState \<times> step_response" where
  "next_state sr =
     (case sr_script sr of
        ws # rest \<Rightarrow> (ws, sr\<lparr>sr_script := rest\<rparr>)
      | [] \<Rightarrow> (case sr_tail sr of Repeats ws \<Rightarrow> (ws, sr) | _ \<Rightarrow> ([], sr)))"

section \<open>Printing a world state\<close>

definition found_line :: "URI \<Rightarrow> out_line" where
  "found_line uri = Cout (''Found uri '' @ [CHR 0x27] @ toString uri @ '' with attributes:\<newline>'')"

definition attr_lines :: "Attribute \<Rightarrow> out_line list" where
  "attr_lines attr =
     [Cout ([CHR 0x09] @ toString (attr_name attr) @ '' is '' @
            show_nat (length (attr_data attr)) @ '' bytes long\<newline>''),
      Cout ([CHR 0x09] @ toString (attr_name attr) @ '' was created by '' @
            toString (attr_origin attr) @ '' at time '' @
            show_time (attr_creation_date attr) @ ''\<newline>'')]"

text \<open>The body and the loop of source lines 230 to 236.\<close>

definition print_object :: "URI \<times> Attribute list \<Rightarrow> out_line list" where
  "print_object obj = found_line (fst obj) # concat (map attr_lines (snd obj))"

definition print_snapshot :: "WorldState \<Rightarrow> out_line list" where
  "print_snapshot state = concat (map print_object state)"

text \<open>The body and the loop of source lines 251 to 262.\<close>

definition empty_line :: "URI \<Rightarrow> out_line" where
  "empty_line uri = Cerr (toString uri @ '' is an empty object.\<newline>'')"

definition print_update :: "URI \<times> Attribute list \<Rightarrow> out_line list" where
  "print_update I =
     (if snd I = [] then [empty_line (fst I)]
      else found_line (fst I) # concat (map attr_lines (snd I)))"

definition print_world :: "WorldState \<Rightarrow> out_line list" where
  "print_world ws = concat (map print_update ws)"

section \<open>The snapshot and the stream\<close>

definition searching_line :: out_line where
  "searching_line = Cout ''Searching for all URIs and attributes\<newline>''"

text \<open>Source lines 221 to 236.\<close>

definition snapshot :: "client_conn \<Rightarrow> console \<Rightarrow> (unit result \<times> console) option" where
  "snapshot cwc con =
     (let con1 = con @ [searching_line];
          r = currentSnapshotRequest (u16_lit ''.*'') [u16_lit ''.*''] cwc
      in case get r of
           None \<Rightarrow> None
         | Some (Inl err) \<Rightarrow> Some (Inl err, con1)
         | Some (Inr state) \<Rightarrow> Some (Inr (), con1 @ print_snapshot state))"

text \<open>The loop of source lines 246 to 263; it has no exit but the end of the stream.\<close>

partial_function (option) stream_loop :: "step_response \<Rightarrow> console \<Rightarrow> (step_response \<times> console) option"
where
  "stream_loop sr con =
     (case hasNext sr of
        None \<Rightarrow> None
      | Some has \<Rightarrow>
          if has
          then (case next_state sr of (ws, sr') \<Rightarrow> stream_loop sr' (con @ print_world ws))
          else Some (sr, con))"

text \<open>The literals of source line 244.\<close>

definition mug_pattern :: u16string where
  "mug_pattern = u16_lit ''.*mug.*''"

definition offset_pattern :: u16string where
  "offset_pattern = u16_lit (''location'' @ [CHR 0x5C] @ ''..offset'')"

text \<open>Source lines 243 to 263.\<close>

definition stream :: "client_conn \<Rightarrow> console \<Rightarrow> (step_response \<times> console) option" where
  "stream cwc con =
     (let interval = 1000;
          sr = streamRequest mug_pattern [offset_pattern] interval cwc
      in stream_loop sr con)"

lemmas client_defs [owl_defs] =
  select_attrs_def query_def currentSnapshotRequest_def get_def streamRequest_def hasNext_def
  next_state_def found_line_def attr_lines_def print_object_def print_snapshot_def
  empty_line_def print_update_def print_world_def searching_line_def snapshot_def
  mug_pattern_def offset_pattern_def stream_def

section \<open>The filters of the two requests\<close>

lemma ere_parse_any: "ere_parse (u16_lit ''.*'') = Some (alt_of [seq_of [Star Any]])"
  by (simp add: ere_parse_def u16_lit_ch close_frame_def)

lemma ere_match_any [simp]: "ere_match (u16_lit ''.*'') s"
  by (simp add: ere_match_def ere_parse_any matches_lang)

text \<open>\<^verbatim>\<open>.*mug.*\<close> accepts a URI that holds \<^verbatim>\<open>mug\<close> anywhere, also inside a longer name.\<close>

lemma ere_match_mug_pattern: "ere_match mug_pattern uri \<longleftrightarrow> sublist (u16_lit ''mug'') uri"
proof -
  have "plain (map ch ''mug'')"
    by (simp add: special_def)
  then have "ere_parse mug_pattern =
      Some (seq_of ([Star Any] @ map Atom (map ch ''mug'') @ [Star Any]))"
    using parse_from_plain [of "map ch ''mug''" "map ch ''.*''" "[]" "[Star Any]" "[]"]
    by (simp add: mug_pattern_def ere_parse_def u16_lit_ch close_frame_def)
  then show ?thesis
    by (simp add: ere_match_def matches_lang conc_UNIV_iff u16_lit_ch del: map_map list.map)
qed

text \<open>
  \<^verbatim>\<open>location\..offset\<close> accepts the names \<^verbatim>\<open>location.\<close>, one character, \<^verbatim>\<open>offset\<close>.
\<close>

lemma ere_match_offset_pattern:
  "ere_match offset_pattern name \<longleftrightarrow>
     (\<exists>c. name = u16_lit ''location.'' @ [c] @ u16_lit ''offset'')"
proof -
  have plain: "plain (map ch ''location'')" "plain (map ch ''offset'')"
    by (simp_all add: special_def)
  have "ere_parse offset_pattern =
      parse_from (map ch ''location'' @ map ch ([CHR 0x5C] @ ''..'') @ map ch ''offset'' @ [])
        (False, [([], [])])"
    by (simp add: offset_pattern_def ere_parse_def u16_lit_ch)
  also have "\<dots> = Some (seq_of (map Atom (map ch ''location'') @ [Atom (ch CHR ''.''), Any] @
      map Atom (map ch ''offset'')))"
    unfolding parse_from_plain [OF plain(1)]
    by (simp add: parse_from_plain [OF plain(2)] close_frame_def del: map_map list.map)
      (simp add: parse_from_plain [OF plain(2), of "[]", simplified] close_frame_def)
  finally have "ere_match offset_pattern name \<longleftrightarrow>
      name \<in> conc {map ch ''location''} (conc {[ch CHR ''.'']} (conc (range (\<lambda>a. [a])) {map ch ''offset''}))"
    by (simp add: ere_match_def matches_lang del: map_map list.map conc_singleton_left)
  also have "\<dots> \<longleftrightarrow> (\<exists>c. name = u16_lit ''location.'' @ [c] @ u16_lit ''offset'')"
    by (auto simp: conc_iff u16_lit_ch)
  finally show ?thesis .
qed

lemma select_attrs_any [simp]: "select_attrs [u16_lit ''.*''] attrs = attrs"
  by (simp add: select_attrs_def)

lemma query_any [simp]: "query (u16_lit ''.*'') [u16_lit ''.*''] world = world"
  by (simp add: query_def case_prod_beta)

section \<open>Printed lines\<close>

lemma length_attr_lines [simp]: "length (attr_lines attr) = 2"
  by (simp add: attr_lines_def)

lemma attr_lines_cout [simp]: "filter is_cout (attr_lines attr) = attr_lines attr"
  by (simp add: attr_lines_def)

lemma length_print_object: "length (print_object obj) = Suc (2 * length (snd obj))"
  by (simp add: print_object_def length_concat comp_def sum_list_triv)

text \<open>
  The two loops differ on an entity without attributes: the snapshot loop prints its
  heading on standard output, the stream loop reports it on standard error.
\<close>

lemma print_update_eq: "print_update obj = (if snd obj = [] then [empty_line (fst obj)] else print_object obj)"
  by (simp add: print_update_def print_object_def)

lemma print_object_Nil: "print_object (uri, []) = [found_line uri]"
  by (simp add: print_object_def)

lemma print_world_simps [simp]:
  "print_world [] = []"
  "print_world (obj # ws) = print_update obj @ print_world ws"
  "print_world (ws @ ws') = print_world ws @ print_world ws'"
  by (simp_all add: print_world_def)

lemma print_snapshot_simps [simp]:
  "print_snapshot [] = []"
  "print_snapshot (obj # ws) = print_object obj @ print_snapshot ws"
  "print_snapshot (ws @ ws') = print_snapshot ws @ print_snapshot ws'"
  by (simp_all add: print_snapshot_def)

lemma cerr_print_world:
  "cerr_lines (print_world ws) = [toString uri @ '' is an empty object.\<newline>''. (uri, attrs) \<leftarrow> ws, attrs = []]"
proof (induction ws)
  case Nil
  show ?case by (simp add: cerr_lines_def)
next
  case (Cons obj ws)
  have "cerr_lines (found_line (fst obj) # concat (map attr_lines (snd obj))) = []"
    by (simp add: cerr_lines_def found_line_def attr_lines_def)
  with Cons show ?case
    by (cases obj) (simp add: cerr_lines_def print_update_def empty_line_def)
qed

section \<open>The stream loop\<close>

lemma stream_loop_push:
  "sr_script sr = ws # rest \<Longrightarrow>
   stream_loop sr con = stream_loop (sr\<lparr>sr_script := rest\<rparr>) (con @ print_world ws)"
  by (subst stream_loop.simps) (simp add: hasNext_def next_state_def)

lemma stream_loop_end:
  "sr_script sr = [] \<Longrightarrow> sr_tail sr = Ends \<Longrightarrow> stream_loop sr con = Some (sr, con)"
  by (subst stream_loop.simps) (simp add: hasNext_def)

lemma stream_loop_blocks:
  "sr_script sr = [] \<Longrightarrow> sr_tail sr = Blocks \<Longrightarrow> stream_loop sr con = None"
  by (subst stream_loop.simps) (simp add: hasNext_def)

text \<open>The loop returns only from a stream that ends.\<close>

lemma next_state_tail [simp]: "sr_tail (snd (next_state sr)) = sr_tail sr"
  by (simp add: next_state_def split: list.splits stream_tail.splits)

lemma hasNext_False_iff: "hasNext sr = Some False \<longleftrightarrow> sr_script sr = [] \<and> sr_tail sr = Ends"
  by (simp add: hasNext_def split: stream_tail.splits)

lemma stream_loop_Some_ends:
  assumes ret: "stream_loop sr con = Some res"
  shows "sr_tail sr = Ends"
proof (rule stream_loop.raw_induct [where P = "\<lambda>sr con res. sr_tail sr = Ends", OF _ ret])
  fix f sr con res
  assume IH: "\<And>sr con res. f sr con = Some res \<Longrightarrow> sr_tail sr = Ends"
    and body: "(case hasNext sr of
        None \<Rightarrow> None
      | Some has \<Rightarrow>
          if has
          then (case next_state sr of (ws, sr') \<Rightarrow> f sr' (con @ print_world ws))
          else Some (sr, con)) = Some res"
  show "sr_tail sr = Ends"
  proof (cases "hasNext sr = Some True")
    case True
    with body have "f (snd (next_state sr)) (con @ print_world (fst (next_state sr))) = Some res"
      by (simp add: case_prod_beta)
    then have "sr_tail (snd (next_state sr)) = Ends"
      by (rule IH)
    then show ?thesis
      by simp
  next
    case False
    with body have "hasNext sr = Some False"
      by (cases "hasNext sr") (auto split: if_splits)
    then show ?thesis
      by (simp add: hasNext_False_iff)
  qed
qed

lemma stream_loop_script:
  "sr_script sr = script \<Longrightarrow> sr_tail sr = Ends \<Longrightarrow>
   stream_loop sr con = Some (sr\<lparr>sr_script := []\<rparr>, con @ concat (map print_world script))"
proof (induction script arbitrary: sr con)
  case Nil
  then show ?case
    by (simp add: stream_loop_end)
next
  case (Cons ws rest)
  from Cons.prems have "stream_loop sr con = stream_loop (sr\<lparr>sr_script := rest\<rparr>) (con @ print_world ws)"
    by (simp add: stream_loop_push)
  also have "\<dots> = Some (sr\<lparr>sr_script := []\<rparr>, con @ concat (map print_world (ws # rest)))"
    using Cons.IH [of "sr\<lparr>sr_script := rest\<rparr>" "con @ print_world ws"] Cons.prems by simp
  finally show ?case .
qed

section \<open>What the stream request delivers\<close>

text \<open>
  The view of one push that the stream request of \<^verbatim>\<open>main\<close> asks for: the entities with
  \<^verbatim>\<open>mug\<close> somewhere in their URI, each with its attributes named \<^verbatim>\<open>location.\<close>, one
  character, \<^verbatim>\<open>offset\<close>.
\<close>

definition is_offset :: "u16string \<Rightarrow> bool" where
  "is_offset name \<longleftrightarrow>
     prefix (u16_lit ''location.'') name \<and>
     (case drop (length (u16_lit ''location.'')) name of
        [] \<Rightarrow> False
      | c # rest \<Rightarrow> rest = u16_lit ''offset'')"

definition mug_view :: "WorldState \<Rightarrow> WorldState" where
  "mug_view ws =
     map (\<lambda>(uri, attrs). (uri, filter (\<lambda>a. is_offset (attr_name a)) attrs))
       (filter (\<lambda>(uri, attrs). u16_find uri (u16_lit ''mug'') \<noteq> None) ws)"

lemma is_offset_iff: "is_offset name \<longleftrightarrow> (\<exists>c. name = u16_lit ''location.'' @ [c] @ u16_lit ''offset'')"
  by (auto simp: is_offset_def prefix_def split: list.splits)

lemma query_mug: "query mug_pattern [offset_pattern] ws = mug_view ws"
  by (simp add: query_def mug_view_def select_attrs_def ere_match_mug_pattern
      ere_match_offset_pattern is_offset_iff u16_find_None_iff)

lemma stream_loop_not_ends: "sr_tail sr \<noteq> Ends \<Longrightarrow> stream_loop sr con = None"
  using stream_loop_Some_ends [of sr con] by (cases "stream_loop sr con") auto

text \<open>The stream step, for each state of the connection.\<close>

lemma stream_eq:
  "stream cwc con =
     (case cc_link cwc of
        Up \<Rightarrow>
          if cc_tail cwc = Ends
          then Some (\<lparr>sr_script = [], sr_tail = Ends\<rparr>,
                 con @ concat (map (\<lambda>ws. print_world (mug_view ws)) (cc_updates cwc)))
          else None
      | Down msg \<Rightarrow> Some (\<lparr>sr_script = [], sr_tail = Ends\<rparr>, con)
      | Silent \<Rightarrow> None)"
proof (cases "cc_link cwc")
  case Up
  show ?thesis
  proof (cases "cc_tail cwc = Ends")
    case True
    with Up show ?thesis
      by (simp add: stream_def streamRequest_def stream_loop_script query_mug comp_def)
  next
    case False
    with Up have "sr_tail (streamRequest mug_pattern [offset_pattern] 1000 cwc) \<noteq> Ends"
      by (simp add: streamRequest_def split: stream_tail.splits)
    with Up False show ?thesis
      by (simp add: stream_def stream_loop_not_ends)
  qed
next
  case (Down msg)
  then show ?thesis
    by (simp add: stream_def streamRequest_def stream_loop_end)
next
  case Silent
  then show ?thesis
    by (simp add: stream_def streamRequest_def stream_loop_blocks)
qed

section \<open>Properties of the client\<close>

definition client0 :: "link \<Rightarrow> WorldState \<Rightarrow> WorldState list \<Rightarrow> stream_tail \<Rightarrow> client_conn" where
  "client0 l world updates tail =
     \<lparr>cc_connected = True, cc_link = l, cc_world = world, cc_updates = updates, cc_tail = tail\<rparr>"

definition cup_attr :: Attribute where
  "cup_attr = \<lparr>attr_name = u16_lit ''location.xoffset'', attr_data = [1, 2],
     attr_creation_date = 7, attr_origin = u16_lit ''grail''\<rparr>"

definition lone_world :: WorldState where
  "lone_world = [(u16_lit ''room1.mug.mug42'', [])]"

lemma client0_simps [simp]:
  "cc_connected (client0 l world updates tail)"
  "cc_link (client0 l world updates tail) = l"
  "cc_world (client0 l world updates tail) = world"
  "cc_updates (client0 l world updates tail) = updates"
  "cc_tail (client0 l world updates tail) = tail"
  by (simp_all add: client0_def)

text \<open>
  Property C27. The snapshot step prints its announcement and then, if the connection
  delivers, one heading per entity of the world model, also for an entity without
  attributes, with two lines per attribute; if the connection has failed the error leaves
  \<^verbatim>\<open>main\<close> after the announcement; if nothing arrives the step does not return.
\<close>

theorem snapshot_outcomes:
  "snapshot cwc con =
     (case cc_link cwc of
        Up \<Rightarrow> Some (Inr (), con @ searching_line # print_snapshot (cc_world cwc))
      | Down msg \<Rightarrow> Some (Inl (Runtime_error msg), con @ [searching_line])
      | Silent \<Rightarrow> None)"
  by (simp add: snapshot_def currentSnapshotRequest_def get_def split: link.splits)

theorem snapshot_outcomes_witness:
  "snapshot (client0 Up lone_world [] Ends) [] =
     Some (Inr (), [searching_line, found_line (u16_lit ''room1.mug.mug42'')])"
  using snapshot_outcomes [of "client0 Up lone_world [] Ends" "[]"]
  by (simp add: lone_world_def print_object_Nil)

text \<open>
  Property C13. The stream loop returns exactly if the stream ends; against a store that
  pushes for ever, or a connection that has gone silent, it never returns.
\<close>

theorem stream_loop_returns_iff_ends:
  "(\<exists>res. stream_loop sr con = Some res) \<longleftrightarrow> sr_tail sr = Ends"
  using stream_loop_Some_ends [of sr con] stream_loop_script [of sr "sr_script sr" con]
  by auto

theorem stream_loop_returns_iff_ends_witness:
  "(\<exists>res. stream_loop \<lparr>sr_script = [lone_world], sr_tail = Ends\<rparr> [] = Some res) \<and>
   (\<nexists>res. stream_loop \<lparr>sr_script = [lone_world], sr_tail = Repeats lone_world\<rparr> [] = Some res)"
  using stream_loop_returns_iff_ends [of "\<lparr>sr_script = [lone_world], sr_tail = Ends\<rparr>" "[]"]
    stream_loop_returns_iff_ends [of "\<lparr>sr_script = [lone_world], sr_tail = Repeats lone_world\<rparr>" "[]"]
  by simp

text \<open>
  Property C26. When the stream ends, the loop has consumed every push, in order, and has
  printed for each push and each entity of it either the complaint about an empty object on
  standard error or the heading and two lines per attribute on standard output.
\<close>

theorem stream_loop_prints_pushes:
  assumes "sr_tail sr = Ends"
  shows "stream_loop sr con =
     Some (sr\<lparr>sr_script := []\<rparr>, con @ concat (map print_world (sr_script sr)))"
  using assms by (simp add: stream_loop_script)

theorem stream_loop_prints_pushes_witness:
  "stream_loop \<lparr>sr_script = [lone_world, [(u16_lit ''mug'', [cup_attr])]], sr_tail = Ends\<rparr> [] =
     Some (\<lparr>sr_script = [], sr_tail = Ends\<rparr>,
       empty_line (u16_lit ''room1.mug.mug42'') # found_line (u16_lit ''mug'') # attr_lines cup_attr)"
  using stream_loop_prints_pushes
    [of "\<lparr>sr_script = [lone_world, [(u16_lit ''mug'', [cup_attr])]], sr_tail = Ends\<rparr>" "[]"]
  by (simp add: lone_world_def print_update_def cup_attr_def)

text \<open>
  Property C28. The stream step of \<^verbatim>\<open>main\<close>, on a connection that is up and whose stream
  ends, prints the view of each push that its two filters select: entities with \<^verbatim>\<open>mug\<close>
  anywhere in the URI (also inside a longer name) and their attributes named
  \<^verbatim>\<open>location.\<close>, one character, \<^verbatim>\<open>offset\<close>; the class table plays no part in it.
\<close>

theorem stream_prints_mug_view:
  assumes "cc_link cwc = Up" and "cc_tail cwc = Ends"
  shows "\<exists>sr. stream cwc con =
     Some (sr, con @ concat (map (\<lambda>ws. print_world (mug_view ws)) (cc_updates cwc)))"
  using assms by (simp add: stream_eq)

theorem stream_prints_mug_view_witness:
  "\<exists>sr. stream (client0 Up [] [[(u16_lit ''a.mugshot.b'', [cup_attr])]] Ends) [] =
     Some (sr, found_line (u16_lit ''a.mugshot.b'') # attr_lines cup_attr)"
proof -
  have "mug_view [(u16_lit ''a.mugshot.b'', [cup_attr])] = [(u16_lit ''a.mugshot.b'', [cup_attr])]"
    by code_simp
  with stream_prints_mug_view [of "client0 Up [] [[(u16_lit ''a.mugshot.b'', [cup_attr])]] Ends" "[]"]
  show ?thesis
    by (simp add: print_update_def cup_attr_def)
qed

end
