(* ===== verification/Main_Program.thy ===== *)
theory Main_Program
  imports Config_Loader Pattern_Matcher Client_Query Solver_Run
begin

text \<open>
  \<^verbatim>\<open>main\<close> (source lines 55 to 265) as one function of the argument vector and the
  environment: the files, the solver connection and the client connection the program will
  find. Its result is the way it ends (a \<^verbatim>\<open>return\<close> with its code, or an exception that
  nothing catches) and the console of the main thread; \<open>None\<close> is a run that never ends.

  The source refers to \<^verbatim>\<open>solver_port\<close>, \<^verbatim>\<open>servers\<close> and \<^verbatim>\<open>cwm\<close>, which it does not declare,
  and declares \<^verbatim>\<open>interval\<close> twice. The model reads \<^verbatim>\<open>cwm\<close> as the client connection \<^verbatim>\<open>cwc\<close>
  and takes the solver connection and the aggregator's servers from the environment. The
  samples that the aggregator delivers from line 175 on are the subject of theory
  \<open>Solver_Run\<close>; \<open>main_solver\<close> is the state \<^verbatim>\<open>main\<close> hands to it.
\<close>

section \<open>Arguments\<close>

datatype stoi_error = Invalid_argument | Out_of_range

definition is_digit :: "char \<Rightarrow> bool" where
  "is_digit c \<longleftrightarrow> 48 \<le> (of_char c :: nat) \<and> (of_char c :: nat) \<le> 57"

definition digits_value :: "string \<Rightarrow> int" where
  "digits_value ds = foldl (\<lambda>v c. 10 * v + (int (of_char c) - 48)) 0 ds"

text \<open>
  \<^verbatim>\<open>std::stoi\<close>: leading whitespace, an optional sign, then the longest run of digits; no
  digit is \<^verbatim>\<open>std::invalid_argument\<close>, a value outside \<^verbatim>\<open>int\<close> is \<^verbatim>\<open>std::out_of_range\<close>.
\<close>

definition stoi :: "string \<Rightarrow> stoi_error + int" where
  "stoi str =
     (let s = dropWhile is_space str;
          negative = (s \<noteq> [] \<and> hd s = CHR ''-'');
          signed = (s \<noteq> [] \<and> (hd s = CHR ''-'' \<or> hd s = CHR ''+''));
          ds = takeWhile is_digit (if signed then tl s else s);
          v = (if negative then - digits_value ds else digits_value ds)
      in if ds = [] then Inl Invalid_argument
         else if v < - (2 ^ 31) \<or> 2 ^ 31 - 1 < v then Inl Out_of_range
         else Inr v)"

section \<open>The environment and the result\<close>

record env =
  env_files :: "(string \<times> string) list"
  env_solver :: solver_conn
  env_client :: client_conn
  env_clock :: readings

text \<open>
  The ways \<^verbatim>\<open>main\<close> ends: a \<^verbatim>\<open>return\<close> with its code, or an exception that nothing
  catches, on which the runtime ends the program. What the runtime then writes to standard
  error is a matter of the implementation and is not part of the console of the model.
\<close>

datatype outcome = Returned int | Terminated

definition usage_error :: out_line where
  "usage_error = Cerr
     ''This program needs two arguments: the ip address and client port of a world model\<newline>''"

definition solver_connecting :: out_line where
  "solver_connecting = Cerr ''Trying to connect to world model as a solver.\<newline>''"

definition solver_failed :: out_line where
  "solver_failed = Cerr ''Could not connect to the world model as a solver - aborting.\<newline>''"

definition client_connecting :: out_line where
  "client_connecting = Cerr ''Trying to connect to world model as a client.\<newline>''"

definition client_failed :: out_line where
  "client_failed = Cerr ''Problem connecting to world model. Exiting\<newline>''"

text \<open>
  \<^verbatim>\<open>SolverWorldModel swm(wm_ip, solver_port, type_pairs, toU16(origin))\<close>: the connection
  the environment provides, with the types and the origin registered.
\<close>

definition SolverWorldModel ::
  "solver_conn \<Rightarrow> (u16string \<times> bool) list \<Rightarrow> u16string \<Rightarrow> solver_conn" where
  "SolverWorldModel link types origin = link\<lparr>sc_types := types, sc_origin := origin\<rparr>"

text \<open>
  The state the callback captures when the aggregator is started (source line 175): the
  class table of the loader, the two empty tables, the connection made at source line 112
  with the origin of line 66, the console so far, and the clock of the environment.
\<close>

definition main_solver :: "loader_state \<Rightarrow> env \<Rightarrow> solver_state" where
  "main_solver ld e =
     init_solver (cfg_object_to_solution ld)
       (SolverWorldModel (env_solver e) (cfg_type_pairs ld) (toU16 ''binary_state_solver''))
       (cfg_out ld @ [solver_connecting]) (env_clock e)"

text \<open>Source lines 178 to 263: the filter, the client connection, the snapshot, the stream.\<close>

definition client_part :: "loader_state \<Rightarrow> env \<Rightarrow> console \<Rightarrow> (outcome \<times> console) option" where
  "client_part ld e con =
     (let desired = desired_ids (cfg_object_to_solution ld);
          attributes = [u16_lit ''sensor.switch.*''];
          interval = 1000 :: grail_time;
          con1 = con @ [client_connecting];
          cwc = env_client e
      in if \<not> cc_connected cwc then Some (Returned 0, con1 @ [client_failed])
         else case snapshot cwc con1 of
                None \<Rightarrow> None
              | Some (Inl err, con2) \<Rightarrow> Some (Terminated, con2)
              | Some (Inr u, con2) \<Rightarrow>
                  (case stream cwc con2 of
                     None \<Rightarrow> None
                   | Some (sr, con3) \<Rightarrow> Some (Returned 0, con3)))"

definition main :: "string list \<Rightarrow> env \<Rightarrow> (outcome \<times> console) option" where
  "main arg_vector e =
     (let arg_count = length arg_vector
      in if arg_count \<noteq> 3 then Some (Returned 0, [usage_error])
         else
           let wm_ip = arg_vector ! 1
           in case stoi (arg_vector ! 2) of
                Inl err \<Rightarrow> Some (Terminated, [])
              | Inr client_port \<Rightarrow>
                  let path = arg_vector ! (arg_count - 1)
                  in case load_config path (map_of (env_files e) path) [] of
                       Inl (code, con) \<Rightarrow> Some (Returned code, con)
                     | Inr ld \<Rightarrow>
                         let st = main_solver ld e
                         in if \<not> sc_connected (swm st)
                            then Some (Returned 0, out st @ [solver_failed])
                            else client_part ld e (out st))"

lemmas main_defs [owl_defs] =
  is_digit_def digits_value_def stoi_def usage_error_def solver_connecting_def solver_failed_def
  client_connecting_def client_failed_def SolverWorldModel_def main_solver_def client_part_def
  main_def

section \<open>Reading the port\<close>

lemma of_char_digit_char [simp]: "d < 10 \<Longrightarrow> of_char (digit_char d) = 48 + d"
  by (simp add: digit_char_def)

lemma is_digit_digit_char [simp]: "d < 10 \<Longrightarrow> is_digit (digit_char d)"
  by (simp add: is_digit_def)

lemma digit_char_neq: "d < 10 \<Longrightarrow> (of_char c :: nat) < 48 \<Longrightarrow> digit_char d \<noteq> c"
proof
  assume "d < 10" and "(of_char c :: nat) < 48" and "digit_char d = c"
  then have "(of_char (digit_char d) :: nat) < 48"
    by simp
  with \<open>d < 10\<close> show False
    by simp
qed

lemma not_space_digit_char [simp]: "d < 10 \<Longrightarrow> \<not> is_space (digit_char d)"
  by (auto simp: is_space_def dest!: digit_char_neq [THEN notE, rotated 2])

lemma digit_char_not_sign [simp]:
  "d < 10 \<Longrightarrow> digit_char d \<noteq> CHR ''-''" "d < 10 \<Longrightarrow> digit_char d \<noteq> CHR ''+''"
  by (simp_all add: digit_char_neq)

lemma digits_value_snoc [simp]: "digits_value (ds @ [c]) = 10 * digits_value ds + (int (of_char c) - 48)"
  by (simp add: digits_value_def)

lemma digits_value_show_nat: "digits_value (show_nat n) = int n"
proof (induction n rule: show_nat.induct)
  case (1 n)
  show ?case
  proof (cases "n < 10")
    case True
    then show ?thesis
      by (subst show_nat.simps) (simp add: digits_value_def)
  next
    case False
    with "1.IH" have "digits_value (show_nat (n div 10)) = int (n div 10)"
      by simp
    with False show ?thesis
      by (subst show_nat.simps) (simp add: zdiv_int zmod_int)
  qed
qed

lemma show_nat_all_digits:
  assumes "c \<in> set (show_nat n)"
  shows "is_digit c" and "\<not> is_space c" and "c \<noteq> CHR ''-''" and "c \<noteq> CHR ''+''"
proof -
  from show_nat_digits [OF assms] obtain d where "d < 10" and "c = digit_char d"
    by blast
  then show "is_digit c" and "\<not> is_space c" and "c \<noteq> CHR ''-''" and "c \<noteq> CHR ''+''"
    by simp_all
qed

text \<open>A port written in decimal is read back as the number it denotes.\<close>

lemma stoi_show_nat:
  assumes "n < 2 ^ 31"
  shows "stoi (show_nat n) = Inr (int n)"
proof -
  let ?s = "show_nat n"
  have ne: "?s \<noteq> []"
    by simp
  then have hd: "hd ?s \<in> set ?s"
    by simp
  have dw: "dropWhile is_space ?s = ?s"
    using show_nat_all_digits(2) [OF hd] ne by (cases ?s) auto
  have sign: "hd ?s \<noteq> CHR ''-''" "hd ?s \<noteq> CHR ''+''"
    using show_nat_all_digits(3,4) [OF hd] by simp_all
  have tw: "takeWhile is_digit ?s = ?s"
    by (simp add: show_nat_all_digits(1))
  from assms have "int n \<le> 2 ^ 31 - 1"
    by (simp flip: zle_diff1_eq)
  with ne sign show ?thesis
    unfolding stoi_def Let_def dw by (simp only: if_False simp_thms tw digits_value_show_nat) simp
qed

section \<open>The ways \<^verbatim>\<open>main\<close> ends\<close>

text \<open>The part of \<^verbatim>\<open>main\<close> after the solver connection, for each state of the client connection.\<close>

definition client_output :: "client_conn \<Rightarrow> console" where
  "client_output cwc =
     client_connecting # searching_line # print_snapshot (cc_world cwc) @
     concat (map (\<lambda>ws. print_world (mug_view ws)) (cc_updates cwc))"

lemma client_part_eq:
  "client_part ld e con =
     (if \<not> cc_connected (env_client e) then Some (Returned 0, con @ [client_connecting, client_failed])
      else case cc_link (env_client e) of
             Up \<Rightarrow> if cc_tail (env_client e) = Ends
                   then Some (Returned 0, con @ client_output (env_client e))
                   else None
           | Down msg \<Rightarrow> Some (Terminated, con @ [client_connecting, searching_line])
           | Silent \<Rightarrow> None)"
  by (simp add: client_part_def Let_def snapshot_def currentSnapshotRequest_def get_def stream_eq
      client_output_def split: link.splits)

text \<open>\<^verbatim>\<open>main\<close> after its arguments have been accepted.\<close>

definition after_load :: "loader_state \<Rightarrow> env \<Rightarrow> (outcome \<times> console) option" where
  "after_load ld e =
     (if \<not> sc_connected (env_solver e)
      then Some (Returned 0, cfg_out ld @ [solver_connecting, solver_failed])
      else client_part ld e (cfg_out ld @ [solver_connecting]))"

lemma main_eq:
  assumes "length arg_vector = 3" and "stoi (arg_vector ! 2) = Inr port"
  shows "main arg_vector e =
     (case load_config (arg_vector ! 2) (map_of (env_files e) (arg_vector ! 2)) [] of
        Inl (code, con) \<Rightarrow> Some (Returned code, con)
      | Inr ld \<Rightarrow> after_load ld e)"
  using assms
  by (simp add: main_def Let_def main_solver_def init_solver_def SolverWorldModel_def after_load_def
      split: sum.splits)

lemma main_usage: "length arg_vector \<noteq> 3 \<Longrightarrow> main arg_vector e = Some (Returned 0, [usage_error])"
  by (simp add: main_def)

lemma main_bad_port:
  "length arg_vector = 3 \<Longrightarrow> stoi (arg_vector ! 2) = Inl err \<Longrightarrow>
   main arg_vector e = Some (Terminated, [])"
  by (simp add: main_def)

lemma after_load_code: "after_load ld e = Some (Returned code, con) \<Longrightarrow> code = 0"
  by (auto simp: after_load_def client_part_eq split: if_splits link.splits)

text \<open>Whatever happens after the loader, the console shows at least two lines.\<close>

lemma after_load_console: "after_load ld e = Some (r, con) \<Longrightarrow> 2 \<le> length con"
  by (auto simp: after_load_def client_part_eq client_output_def split: if_splits link.splits)

lemma main_loaded_cases:
  assumes "length arg_vector = 3" and "stoi (arg_vector ! 2) = Inr port"
    and "main arg_vector e = Some (r, con)"
  shows "r = Returned 1 \<or> 2 \<le> length con"
proof (cases "load_config (arg_vector ! 2) (map_of (env_files e) (arg_vector ! 2)) []")
  case (Inl p)
  with assms show ?thesis
    by (cases p) (auto simp: main_eq dest: load_config_Inl_code)
next
  case (Inr ld)
  with assms show ?thesis
    by (auto simp: main_eq dest: after_load_console)
qed

section \<open>Properties of \<^verbatim>\<open>main\<close>\<close>

definition env0 :: "(string \<times> string) list \<Rightarrow> solver_conn \<Rightarrow> client_conn \<Rightarrow> env" where
  "env0 files sc cc = \<lparr>env_files = files, env_solver = sc, env_client = cc, env_clock = (1000, [])\<rparr>"

definition args0 :: "string list" where
  "args0 = [''query_world'', ''localhost'', ''7010'']"

lemma env0_simps [simp]:
  "env_files (env0 files sc cc) = files"
  "env_solver (env0 files sc cc) = sc"
  "env_client (env0 files sc cc) = cc"
  "env_clock (env0 files sc cc) = (1000, [])"
  by (simp_all add: env0_def)

lemma args0_simps [simp]: "length args0 = 3" "args0 ! 2 = ''7010''" "stoi ''7010'' = Inr 7010"
  by (simp_all add: args0_def) code_simp

lemma load_mug_config:
  "load_config path (Some mug_config) [] =
     Inr \<lparr>cfg_type_pairs = [(toU16 ''switch_state'', False)],
          cfg_object_to_solution = [(toU16 ''mug'', toU16 ''switch_state'')],
          cfg_out = [class_line ''mug'' ''switch_state'']\<rparr>"
  by (simp add: load_config_loaded getlines_mug_config log_of_def entry_of_mug)

text \<open>
  Property C33. \<^verbatim>\<open>main\<close> returns 0 with the usage message as its whole console exactly if
  the number of arguments is not two; it then touches no file and no connection. In
  particular an invocation with an address, a port and a configuration path is refused.
\<close>

theorem main_usage_error:
  "main arg_vector e = Some (Returned 0, [usage_error]) \<longleftrightarrow> length arg_vector \<noteq> 3"
proof (cases "length arg_vector = 3")
  case False
  then show ?thesis
    by (simp add: main_usage)
next
  case True
  show ?thesis
  proof (cases "stoi (arg_vector ! 2)")
    case (Inl err)
    with True show ?thesis
      by (simp add: main_bad_port)
  next
    case (Inr port)
    with True main_loaded_cases [of arg_vector port e "Returned 0" "[usage_error]"] show ?thesis
      by auto
  qed
qed

theorem main_usage_error_witness:
  "main [''query_world'', ''localhost'', ''7010'', ''mug.conf'']
     (env0 [(''mug.conf'', mug_config)] (conn0 [] Sent) (client0 Up [] [] Ends)) =
   Some (Returned 0, [usage_error])"
  using main_usage_error [of "[''query_world'', ''localhost'', ''7010'', ''mug.conf'']"]
  by simp

text \<open>
  Property C17. The configuration is read from the file named by the last argument, which
  is the port: if no file has the port's digits as its name, \<^verbatim>\<open>main\<close> reports that it
  cannot open that file and returns 1, whatever other files exist.
\<close>

theorem main_reads_config_named_by_port:
  assumes "length arg_vector = 3" and "stoi (arg_vector ! 2) = Inr port"
    and "map_of (env_files e) (arg_vector ! 2) = None"
  shows "main arg_vector e = Some (Returned 1, [open_error (arg_vector ! 2)])"
  using assms by (simp add: main_eq load_config_unreadable)

theorem main_reads_config_named_by_port_witness:
  "main args0 (env0 [(''mug.conf'', mug_config)] (conn0 [] Sent) (client0 Up [] [] Ends)) =
   Some (Returned 1, [open_error ''7010''])"
  using main_reads_config_named_by_port
    [of args0 7010 "env0 [(''mug.conf'', mug_config)] (conn0 [] Sent) (client0 Up [] [] Ends)"]
  by simp

text \<open>
  Property C12. \<^verbatim>\<open>main\<close> returns no code but 0 and 1, and it returns 1 exactly if the
  arguments were accepted and the loader ended the program, with the loader's console.
\<close>

theorem main_exit_codes:
  "(main arg_vector e = Some (Returned code, con) \<longrightarrow> code = 0 \<or> code = 1) \<and>
   (main arg_vector e = Some (Returned 1, con) \<longleftrightarrow>
      length arg_vector = 3 \<and> (\<exists>port. stoi (arg_vector ! 2) = Inr port) \<and>
      load_config (arg_vector ! 2) (map_of (env_files e) (arg_vector ! 2)) [] = Inl (1, con))"
proof (cases "length arg_vector = 3")
  case False
  then show ?thesis
    by (simp add: main_usage)
next
  case True
  show ?thesis
  proof (cases "stoi (arg_vector ! 2)")
    case (Inl err)
    with True show ?thesis
      by (simp add: main_bad_port)
  next
    case (Inr port)
    let ?r = "load_config (arg_vector ! 2) (map_of (env_files e) (arg_vector ! 2)) []"
    show ?thesis
    proof (cases ?r)
      case (Inl p)
      moreover from Inl have "fst p = 1"
        by (cases p) (auto dest: load_config_Inl_code)
      ultimately show ?thesis
        using True Inr by (cases p) (auto simp: main_eq)
    next
      case ld: (Inr ld)
      with True Inr show ?thesis
        by (auto simp: main_eq dest: after_load_code)
    qed
  qed
qed

theorem main_exit_codes_witness:
  "main args0 (env0 [(''7010'', ''mug\<newline>'')] (conn0 [] Sent) (client0 Up [] [] Ends)) =
     Some (Returned 1, [bad_line ''mug'', no_types_error])"
proof -
  have "load_config ''7010'' (Some ''mug\<newline>'') [] = Inl (1, [bad_line ''mug'', no_types_error])"
    by code_simp
  with main_exit_codes [of args0 "env0 [(''7010'', ''mug\<newline>'')] (conn0 [] Sent) (client0 Up [] [] Ends)"
      1 "[bad_line ''mug'', no_types_error]"]
  show ?thesis
    by simp
qed

text \<open>
  Property C18. A run in which everything succeeds: the arguments are accepted, the loader
  accepts the file, both connections are up and the stream ends. \<^verbatim>\<open>main\<close> returns 0, and
  its console is the loader's log, the two connection announcements, the announcement of
  the snapshot, the snapshot, and the selected view of every push of the stream.
\<close>

theorem main_complete_run:
  assumes "length arg_vector = 3" and "stoi (arg_vector ! 2) = Inr port"
    and "load_config (arg_vector ! 2) (map_of (env_files e) (arg_vector ! 2)) [] = Inr ld"
    and "sc_connected (env_solver e)" and "cc_connected (env_client e)"
    and "cc_link (env_client e) = Up" and "cc_tail (env_client e) = Ends"
  shows "main arg_vector e =
     Some (Returned 0, cfg_out ld @ solver_connecting # client_output (env_client e))"
  using assms by (simp add: main_eq after_load_def client_part_eq)

theorem main_complete_run_witness:
  "main args0 (env0 [(''7010'', mug_config)] (conn0 [] Sent) (client0 Up lone_world [] Ends)) =
     Some (Returned 0,
       [class_line ''mug'' ''switch_state'', solver_connecting, client_connecting, searching_line,
        found_line (u16_lit ''room1.mug.mug42'')])"
  using main_complete_run [of args0 7010
      "env0 [(''7010'', mug_config)] (conn0 [] Sent) (client0 Up lone_world [] Ends)"]
  by (simp add: load_mug_config client_output_def lone_world_def print_object_Nil)

text \<open>
  Property C19. \<^verbatim>\<open>main\<close> fails to end in exactly one situation: it has reached the client
  requests with both connections up, and either nothing arrives on the client connection
  or the stream does not end.
\<close>

theorem main_returns_iff:
  "main arg_vector e = None \<longleftrightarrow>
     length arg_vector = 3 \<and> (\<exists>port. stoi (arg_vector ! 2) = Inr port) \<and>
     (\<exists>ld. load_config (arg_vector ! 2) (map_of (env_files e) (arg_vector ! 2)) [] = Inr ld) \<and>
     sc_connected (env_solver e) \<and> cc_connected (env_client e) \<and>
     (cc_link (env_client e) = Silent \<or>
      cc_link (env_client e) = Up \<and> cc_tail (env_client e) \<noteq> Ends)"
proof (cases "length arg_vector = 3")
  case False
  then show ?thesis
    by (simp add: main_usage)
next
  case True
  show ?thesis
  proof (cases "stoi (arg_vector ! 2)")
    case (Inl err)
    with True show ?thesis
      by (simp add: main_bad_port)
  next
    case (Inr port)
    with True show ?thesis
      by (cases "load_config (arg_vector ! 2) (map_of (env_files e) (arg_vector ! 2)) []")
        (auto simp: main_eq after_load_def client_part_eq split: link.splits)
  qed
qed

theorem main_returns_iff_witness:
  "main args0 (env0 [(''7010'', mug_config)] (conn0 [] Sent)
     (client0 Up lone_world [] (Repeats lone_world))) = None"
  using main_returns_iff [of args0 "env0 [(''7010'', mug_config)] (conn0 [] Sent)
     (client0 Up lone_world [] (Repeats lone_world))"]
  by (simp add: load_mug_config)

text \<open>
  Property C34. The program is ended by an uncaught exception before anything is printed
  exactly if there are two arguments and \<^verbatim>\<open>std::stoi\<close> cannot convert the port; the
  configuration is then not opened.
\<close>

theorem main_bad_port_terminates:
  "main arg_vector e = Some (Terminated, []) \<longleftrightarrow>
     length arg_vector = 3 \<and> (\<exists>err. stoi (arg_vector ! 2) = Inl err)"
proof (cases "length arg_vector = 3")
  case False
  then show ?thesis
    by (simp add: main_usage)
next
  case True
  show ?thesis
  proof (cases "stoi (arg_vector ! 2)")
    case (Inl err)
    with True show ?thesis
      by (simp add: main_bad_port)
  next
    case (Inr port)
    with True main_loaded_cases [of arg_vector port e Terminated "[]"] show ?thesis
      by auto
  qed
qed

theorem main_bad_port_terminates_witness:
  "main [''query_world'', ''localhost'', ''mug.conf'']
     (env0 [(''mug.conf'', mug_config)] (conn0 [] Sent) (client0 Up [] [] Ends)) =
   Some (Terminated, [])"
proof -
  have "stoi ''mug.conf'' = Inl Invalid_argument"
    by code_simp
  with main_bad_port_terminates [of "[''query_world'', ''localhost'', ''mug.conf'']"]
  show ?thesis
    by simp
qed

text \<open>
  Property C35. If the solver connection or the client connection is not up after the
  configuration was loaded, \<^verbatim>\<open>main\<close> returns 0 and the last line of its console is the
  complaint about that connection; the client connection is not tried if the solver
  connection failed.
\<close>

theorem main_connect_failure_exits_zero:
  assumes "length arg_vector = 3" and "stoi (arg_vector ! 2) = Inr port"
    and "load_config (arg_vector ! 2) (map_of (env_files e) (arg_vector ! 2)) [] = Inr ld"
    and "\<not> sc_connected (env_solver e) \<or> \<not> cc_connected (env_client e)"
  shows "main arg_vector e =
     Some (Returned 0, cfg_out ld @
       (if \<not> sc_connected (env_solver e) then [solver_connecting, solver_failed]
        else [solver_connecting, client_connecting, client_failed]))"
  using assms by (auto simp: main_eq after_load_def client_part_eq)

theorem main_connect_failure_exits_zero_witness:
  "main args0 (env0 [(''7010'', mug_config)] ((conn0 [] Sent)\<lparr>sc_connected := False\<rparr>)
      (client0 Up lone_world [] Ends)) =
     Some (Returned 0, [class_line ''mug'' ''switch_state'', solver_connecting, solver_failed])"
  using main_connect_failure_exits_zero [of args0 7010
      "env0 [(''7010'', mug_config)] ((conn0 [] Sent)\<lparr>sc_connected := False\<rparr>)
        (client0 Up lone_world [] Ends)"]
  by (simp add: load_mug_config)

end
