(* ===== verification/Spec2Isabelle.thy ===== *)
theory Spec2Isabelle
  imports
    Owl_Prelude
    Std_Map
    U16_String
    World_Model
    Update_Dispatcher
    Solver_Callback
    Solver_Run
    Config_Loader
    Regex
    Pattern_Matcher
    Client_Query
    Main_Program
begin

text \<open>
  \<^bold>\<open>A verification development for the Owl Platform example \<^verbatim>\<open>src/src/query_world.cpp\<close>.\<close>

  \<^bold>\<open>The program.\<close> \<^verbatim>\<open>query_world.cpp\<close> is one \<^verbatim>\<open>main\<close> function and two string helpers. It
  reads a configuration file of \<^verbatim>\<open>class_name solution_name\<close> lines into the ordered table
  \<^verbatim>\<open>object_to_solution\<close>, connects to a world model as a solver, and installs a packet
  callback. The callback derives a switch state from each raw sample, suppresses values
  it has already reported for the sample's URI (the table \<^verbatim>\<open>switch_state\<close>), and pushes
  one attribute update per registered class that occurs in the URI, retrying while the
  connection reports a transient send failure. \<^verbatim>\<open>main\<close> then builds a regular expression
  for the URIs of interest from the class names, connects as a client, prints a snapshot
  of the world model, and prints the states a streaming request delivers.

  \<^bold>\<open>Theories and what they model.\<close>
  \<^item> \<^theory_text>\<open>Owl_Prelude\<close>: machine types (\<open>byte\<close>, \<open>char16\<close>, \<open>u16string\<close>), the
    exception type \<open>exn\<close> (a \<^verbatim>\<open>std::runtime_error\<close>, which the handler at source line 152
    catches, or an exception of another type, which it does not) with results
    \<open>exn + 'a\<close>, the console as a list of tagged lines, the fact collections
    \<open>owl_defs\<close>, \<open>owl_inv\<close>, \<open>owl_frame\<close>, and shared lemmas on casts, sublists and
    the two streams of the console.
  \<^item> \<^theory_text>\<open>Std_Map\<close>: \<^verbatim>\<open>std::map\<close> as the list of its entries in key order
    (\<open>smap_find\<close>, \<open>smap_assign\<close>, \<open>smap_index\<close>), its invariant \<open>smap_inv\<close> and
    the refinement of partial functions through \<open>smap_abs\<close>.
  \<^item> \<^theory_text>\<open>U16_String\<close>: \<^verbatim>\<open>toU16\<close> and \<^verbatim>\<open>toString\<close> (source lines 47 to 53) with their
    round trips, and \<^verbatim>\<open>std::u16string::find\<close> with its correctness against \<open>sublist\<close>.
  \<^item> \<^theory_text>\<open>World_Model\<close>: the records \<open>Attribute\<close>, \<open>AttrUpdate\<close>, \<open>SampleData\<close>,
    the type \<open>WorldState\<close>, the buffer helpers, the clock (\<open>getGRAILTime\<close> over the
    readings the clock will give) and decimal printing.
  \<^item> \<^theory_text>\<open>Config_Loader\<close>: the loader of source lines 79 to 109. \<open>getline\<close> and
    \<open>read_word\<close> are the two stream operations, \<open>load_line\<close> the body of the loop,
    \<open>load_lines\<close> the loop (a \<^theory_text>\<open>function\<close> that terminates because each
    \<open>getline\<close> shortens the rest of the file) and \<open>load_config\<close> the whole with its
    two fatal errors. The lemmas characterise the accepted lines, give the tables and the
    console in closed form, establish the invariant \<open>loader_inv\<close>, and show that a
    printed table is read back.
  \<^item> \<^theory_text>\<open>Update_Dispatcher\<close>: the solver connection as a script of call outcomes, and
    the retry loop of source lines 146 to 163 as the partial function
    \<open>send_with_retry\<close>; its closed-form contract \<open>dispatch_spec\<close> and the theorem that
    the loop implements it; when it returns, after how many calls, and that it never
    returns against a connection that always reports the transient error.
  \<^item> \<^theory_text>\<open>Solver_Callback\<close>: the state the callback captures (\<open>solver_state\<close>), the
    change tracker (\<open>should_report\<close>, \<open>track\<close>, source lines 137 and 138) with its
    abstract contract \<open>shouldReport_spec\<close>, and the callback itself
    (\<open>packet_callback\<close>, source lines 127 to 174) with the loop over the classes
    (\<open>report_loop\<close>, lines 140 to 170), which reads the clock once for each update it
    makes. \<open>report_loop_induct\<close> is the induction over the turns of the loop that the
    lemmas on its result share.
  \<^item> \<^theory_text>\<open>Solver_Run\<close>: the solver as a state machine. The events are the deliveries
    of samples by the aggregator, which the program performs, and two events of its
    environment: entries into \<^verbatim>\<open>tx_to_uri\<close>, which no statement of the source makes and
    which stand for the writer the table and its mutex are declared for, and clock
    ticks. \<open>solver_step\<close> and \<open>solver_run\<close> are inductive, \<open>run_events\<close> is their
    executable form. Invariants are proved by rule induction: the accepted updates are
    well formed, the tracker agrees with what the world model was last told
    (\<open>coherent\<close>), and the per-URI machine \<open>Unknown\<close>, \<open>Known v\<close> of the design is
    respected.
  \<^item> \<^theory_text>\<open>Regex\<close>: the fragment of POSIX extended regular expressions the program can
    write, with a one-pass parser (\<open>ere_parse\<close>), a matcher by derivatives
    (\<open>matches\<close>) and the proof that the matcher decides the language \<open>lang\<close>.
  \<^item> \<^theory_text>\<open>Pattern_Matcher\<close>: the filter \<open>desired_ids\<close> of source lines 180 to 194,
    its shape, the expression the parser reads from it, and the URIs it selects, for
    class names without metacharacters and for a class name that holds bars.
  \<^item> \<^theory_text>\<open>Client_Query\<close>: the snapshot request with its printing loop (source lines
    221 to 236) and the stream request with its consumer loop (lines 243 to 263,
    \<open>stream_loop\<close>, a partial function), over a client connection that is up, failed or
    silent and a stream that ends, repeats for ever or blocks.
  \<^item> \<^theory_text>\<open>Main_Program\<close>: \<^verbatim>\<open>main\<close> as a function of the argument vector and the
    environment, composed of the loader, the solver set-up (\<open>main_solver\<close>) and the client
    part (\<open>client_part\<close>), with every way it can end.
  \<^item> This theory: the properties that span components. The filter agrees with the test of
    the callback on class names without metacharacters, and for every class name that
    holds a bar the two disagree in both directions; the scenario from the configuration
    line to the accepted update; the registration made from the file covers every update
    the solver pushes.

  \<^bold>\<open>Conventions.\<close> A handler that may throw and may not return has a result of type
  \<open>(exn + 'a) \<times> state\<close> option: \<open>None\<close> is a loop that never ends, \<open>Inl\<close> an
  exception that leaves the handler, with the state at the throw. No fuel is used: the two
  unbounded loops of the program (the retry loop and the stream loop) are
  \<^theory_text>\<open>partial_function\<close>s in the option monad, and the theorems about them state exactly
  when they return; every other loop runs over a finite list or file and is total.
  \<^verbatim>\<open>char\<close> is signed, as on x86-64, and \<^verbatim>\<open>int\<close> has 32 bits. The clock is the sequence of
  the readings it will give, kept in the field \<open>clock\<close> of the state; each call of
  \<^verbatim>\<open>getGRAILTime()\<close> takes the next one, so two updates of one callback may carry
  different dates. The readings are a finite list after which the clock stands still, and
  the script of a connection is a finite list of outcomes followed by one outcome that
  repeats: a run that ends uses finitely many of either, and a run that does not end is
  one against a connection or a stream that is constant in the end. No bound on the
  length of a run is built in. A file is the string of its characters, the file system a
  list of named files.

  \<^bold>\<open>Reading of the source.\<close> The file does not compile as it stands: it names
  \<^verbatim>\<open>solver_port\<close>, \<^verbatim>\<open>servers\<close> and \<^verbatim>\<open>cwm\<close> without declaring them, applies \<^verbatim>\<open>->\<close> to a
  reference, and declares \<^verbatim>\<open>interval\<close> twice. The development reads \<^verbatim>\<open>cwm\<close> as the client
  connection \<^verbatim>\<open>cwc\<close> and \<^verbatim>\<open>I->first\<close> as \<^verbatim>\<open>I.first\<close>, and takes the solver connection and
  the aggregator's servers from the environment.

  \<^bold>\<open>Not modelled.\<close> The wire protocol and the sockets behind \<^verbatim>\<open>SolverWorldModel\<close>,
  \<^verbatim>\<open>SolverAggregator\<close> and \<^verbatim>\<open>ClientWorldConnection\<close> are outside the repository; the
  development models what the program observes of them. The subscription rules
  (\<^verbatim>\<open>phy_to_rule\<close>) are declared by the program and never used. The main thread and the
  aggregator thread are treated one at a time: the interleaving of their lines on the
  console is not modelled, and the callback is atomic, as it runs on one thread and holds
  the mutex for its only access to shared data. An exception that leaves the callback
  ends the run of the solver in the model; what the aggregator of the library does with
  it, and what the runtime prints when an exception ends \<^verbatim>\<open>main\<close>, is not modelled.
\<close>

section \<open>The filter and the callback\<close>

lemma plain_toU16_mug: "plain (toU16 ''mug'')"
  by code_simp

text \<open>
  Property C8. The URI filter that \<^verbatim>\<open>main\<close> builds and the test in the callback agree: if
  the class table is not empty and no class name holds a character with a meaning in the
  syntax of regular expressions, the filter accepts a URI exactly if the callback owes at
  least one update for it, that is, if some class name occurs in it between two dots.
\<close>

theorem filter_selects_reported_uris:
  assumes "o2s \<noteq> []" and "\<forall>k \<in> set (smap_keys o2s). plain k"
  shows "ere_match (desired_ids o2s) uri \<longleftrightarrow> due uri switch_on clk o2s \<noteq> []"
  using assms by (simp add: desired_ids_selects due_Nil_iff class_in_uri_iff)

theorem filter_selects_reported_uris_witness:
  "ere_match (desired_ids mug_classes) mug_uri \<and>
   \<not> ere_match (desired_ids mug_classes) (toU16 ''room1.mugshot.mug42'')"
proof -
  have "\<not> class_in_uri (toU16 ''room1.mugshot.mug42'') (toU16 ''mug'')"
    by code_simp
  with filter_selects_reported_uris [of mug_classes mug_uri True "(0, [])"]
    filter_selects_reported_uris [of mug_classes "toU16 ''room1.mugshot.mug42''" True "(0, [])"]
  show ?thesis
    by (simp add: mug_classes_def plain_toU16_mug)
qed

lemma class_in_uri_segment: "class_in_uri (pre @ u16_lit ''.'' @ cls @ u16_lit ''.'' @ suf) cls"
  by (auto simp: class_in_uri_iff sublist_def)

lemma class_in_uri_holds: "class_in_uri uri cls \<Longrightarrow> set cls \<subseteq> set uri"
  using set_mono_sublist [of "u16_lit ''.'' @ cls @ u16_lit ''.''" uri] by (auto simp: class_in_uri_iff)

text \<open>
  Property C25. A bar in a class name breaks this agreement, for every such name. Let the
  table hold a single class whose name holds at least one bar and otherwise no character
  with a meaning in the syntax, and let \<open>p1\<close>, ..., \<open>pn\<close> be the parts of the name between
  its bars. The filter is then an alternation at the top of the expression: it accepts
  exactly the URIs that end with \<^verbatim>\<open>.p1\<close>, that are one of \<open>p2\<close>, ..., \<open>p(n-1)\<close>, or that
  begin with \<^verbatim>\<open>pn.\<close>. The two tests disagree in both directions. The filter accepts every
  URI \<^verbatim>\<open>x.p1\<close>, and for those without a bar in \<open>x\<close> the callback owes nothing. The callback
  owes an update for every URI \<^verbatim>\<open>pre.name.suf\<close>, and the filter accepts such a URI only if
  \<^verbatim>\<open>pre.\<close> begins with \<^verbatim>\<open>pn.\<close> or \<^verbatim>\<open>.suf\<close> ends with \<^verbatim>\<open>.p1\<close>. The witness is the class \<^verbatim>\<open>a|b\<close>,
  which the loader accepts, with the URIs \<^verbatim>\<open>x.a\<close> and \<^verbatim>\<open>r.a|b.z\<close>.
\<close>

theorem metacharacters_break_filter:
  assumes "ch CHR ''|'' \<in> set cls" and "\<forall>k \<in> set (split_bar cls). plain k"
  shows "(ere_match (desired_ids [(cls, soln)]) uri \<longleftrightarrow>
            suffix (u16_lit ''.'' @ hd (split_bar cls)) uri \<or>
            uri \<in> set (butlast (tl (split_bar cls))) \<or>
            prefix (last (split_bar cls) @ u16_lit ''.'') uri) \<and>
         (ch CHR ''|'' \<notin> set x \<longrightarrow>
            ere_match (desired_ids [(cls, soln)]) (x @ u16_lit ''.'' @ hd (split_bar cls)) \<and>
            due (x @ u16_lit ''.'' @ hd (split_bar cls)) switch_on clk [(cls, soln)] = []) \<and>
         due (pre @ u16_lit ''.'' @ cls @ u16_lit ''.'' @ suf) switch_on clk [(cls, soln)] \<noteq> [] \<and>
         (ere_match (desired_ids [(cls, soln)]) (pre @ u16_lit ''.'' @ cls @ u16_lit ''.'' @ suf) \<longleftrightarrow>
            prefix (last (split_bar cls) @ u16_lit ''.'') (pre @ u16_lit ''.'') \<or>
            suffix (u16_lit ''.'' @ hd (split_bar cls)) (u16_lit ''.'' @ suf))"
proof (intro conjI impI)
  show "ere_match (desired_ids [(cls, soln)]) uri \<longleftrightarrow>
      suffix (u16_lit ''.'' @ hd (split_bar cls)) uri \<or>
      uri \<in> set (butlast (tl (split_bar cls))) \<or>
      prefix (last (split_bar cls) @ u16_lit ''.'') uri"
    by (rule desired_ids_bar_selects [OF assms])
  show "ere_match (desired_ids [(cls, soln)]) (x @ u16_lit ''.'' @ hd (split_bar cls))"
    by (simp add: desired_ids_bar_selects [OF assms] suffix_def)
  show "due (x @ u16_lit ''.'' @ hd (split_bar cls)) switch_on clk [(cls, soln)] = []"
    if x: "ch CHR ''|'' \<notin> set x"
  proof -
    from split_bar_parts_plain [OF assms(2)] have "ch CHR ''|'' \<notin> set (hd (split_bar cls))"
      by (simp add: plain_no_special)
    with x have "ch CHR ''|'' \<notin> set (x @ u16_lit ''.'' @ hd (split_bar cls))"
      by (simp add: u16_lit_ch)
    with assms(1) have "\<not> class_in_uri (x @ u16_lit ''.'' @ hd (split_bar cls)) cls"
      using class_in_uri_holds by blast
    then show ?thesis
      by (simp add: due_Nil_iff)
  qed
  show "due (pre @ u16_lit ''.'' @ cls @ u16_lit ''.'' @ suf) switch_on clk [(cls, soln)] \<noteq> []"
    by (simp add: due_Nil_iff class_in_uri_segment)
  show "ere_match (desired_ids [(cls, soln)]) (pre @ u16_lit ''.'' @ cls @ u16_lit ''.'' @ suf) \<longleftrightarrow>
      prefix (last (split_bar cls) @ u16_lit ''.'') (pre @ u16_lit ''.'') \<or>
      suffix (u16_lit ''.'' @ hd (split_bar cls)) (u16_lit ''.'' @ suf)"
    by (rule desired_ids_bar_segment [OF assms])
qed

lemma split_bar_a_b: "split_bar (toU16 ''a|b'') = [toU16 ''a'', toU16 ''b'']"
  by code_simp

theorem metacharacters_break_filter_witness:
  "entries_of (getlines ''a|b s\<newline>'') = [(''a|b'', ''s'')] \<and>
   ere_match (desired_ids [(toU16 ''a|b'', toU16 ''s'')]) (toU16 ''x.a'') \<and>
   due (toU16 ''x.a'') True (0, []) [(toU16 ''a|b'', toU16 ''s'')] = [] \<and>
   due (toU16 ''r.a|b.z'') True (0, []) [(toU16 ''a|b'', toU16 ''s'')] \<noteq> [] \<and>
   \<not> ere_match (desired_ids [(toU16 ''a|b'', toU16 ''s'')]) (toU16 ''r.a|b.z'')"
proof -
  have bar: "ch CHR ''|'' \<in> set (toU16 ''a|b'')" and x: "ch CHR ''|'' \<notin> set (toU16 ''x'')"
    and plain: "plain (toU16 ''a'')" "plain (toU16 ''b'')"
    and line: "entries_of (getlines ''a|b s\<newline>'') = [(''a|b'', ''s'')]"
    and pre: "\<not> prefix (toU16 ''b'' @ u16_lit ''.'') (toU16 ''r'' @ u16_lit ''.'')"
    and suf: "\<not> suffix (u16_lit ''.'' @ toU16 ''a'') (u16_lit ''.'' @ toU16 ''z'')"
    by code_simp+
  have uris: "toU16 ''x.a'' = toU16 ''x'' @ u16_lit ''.'' @ toU16 ''a''"
    "toU16 ''r.a|b.z'' = toU16 ''r'' @ u16_lit ''.'' @ toU16 ''a|b'' @ u16_lit ''.'' @ toU16 ''z''"
    by code_simp+
  from metacharacters_break_filter [of "toU16 ''a|b''" "toU16 ''s''" "[]" "toU16 ''x''" True "(0, [])"
      "toU16 ''r''" "toU16 ''z''"] bar x plain pre suf line
  show ?thesis
    by (simp only: uris split_bar_a_b list.sel last.simps list.set ball_simps) simp
qed

text \<open>What the callback owes for a URI of one segment: something exactly if the segment is a class.\<close>

lemma due_one_segment:
  assumes "\<forall>k \<in> set (smap_keys m). ch CHR ''.'' \<notin> set k" and "ch CHR ''.'' \<notin> set p"
  shows "due (u16_lit ''.'' @ p @ u16_lit ''.'') switch_on clk m = [] \<longleftrightarrow> p \<notin> set (smap_keys m)"
  using assms by (auto simp: due_Nil_iff class_in_uri_iff u16_lit_ch sublist_one_segment)

text \<open>
  Property C40. In a table of several classes a bar in a class name breaks the agreement
  as well, for every such table whose names hold bars and otherwise no character with a
  meaning in the syntax. The names stand in a group, so the filter reads the parts of a
  name as alternatives of their own: it accepts exactly the URIs that hold a part of some
  class name between two dots. For every class whose name holds a bar, the callback owes
  an update for the URI \<^verbatim>\<open>.name.\<close> and the filter refuses it, and the filter accepts the URI
  \<^verbatim>\<open>.p1.\<close> of the first part of the name, for which the callback owes nothing unless that
  part is itself a class.
\<close>

theorem bars_split_names_in_group:
  assumes "length m \<noteq> 1" and "m \<noteq> []"
    and "\<forall>k \<in> set (smap_keys m). \<forall>p \<in> set (split_bar k). plain p"
  shows "(ere_match (desired_ids m) uri \<longleftrightarrow>
            (\<exists>k \<in> set (smap_keys m). \<exists>p \<in> set (split_bar k).
               sublist (u16_lit ''.'' @ p @ u16_lit ''.'') uri)) \<and>
         (\<forall>k \<in> set (smap_keys m). ch CHR ''|'' \<in> set k \<longrightarrow>
            due (u16_lit ''.'' @ k @ u16_lit ''.'') switch_on clk m \<noteq> [] \<and>
            \<not> ere_match (desired_ids m) (u16_lit ''.'' @ k @ u16_lit ''.'') \<and>
            ere_match (desired_ids m) (u16_lit ''.'' @ hd (split_bar k) @ u16_lit ''.'') \<and>
            (hd (split_bar k) \<notin> set (smap_keys m) \<longrightarrow>
               due (u16_lit ''.'' @ hd (split_bar k) @ u16_lit ''.'') switch_on clk m = []))"
proof (intro conjI ballI impI)
  note sel = desired_ids_parts_select [OF assms]
  from assms(3) have dots: "\<forall>k \<in> set (smap_keys m). ch CHR ''.'' \<notin> set k"
    using no_dot_in_name by blast
  show "ere_match (desired_ids m) uri \<longleftrightarrow>
      (\<exists>k \<in> set (smap_keys m). \<exists>p \<in> set (split_bar k). sublist (u16_lit ''.'' @ p @ u16_lit ''.'') uri)"
    by (rule sel)
  fix k
  assume k: "k \<in> set (smap_keys m)" and bar: "ch CHR ''|'' \<in> set k"
  from assms(3) k have "plain (hd (split_bar k))"
    by simp
  then have dot: "ch CHR ''.'' \<notin> set (hd (split_bar k))"
    by (simp add: plain_no_special)
  from k dots show "due (u16_lit ''.'' @ k @ u16_lit ''.'') switch_on clk m \<noteq> []"
    by (simp add: due_one_segment)
  from assms k bar show "\<not> ere_match (desired_ids m) (u16_lit ''.'' @ k @ u16_lit ''.'')"
    by (rule desired_ids_parts_reject)
  from k show "ere_match (desired_ids m) (u16_lit ''.'' @ hd (split_bar k) @ u16_lit ''.'')"
    unfolding sel by (intro bexI [of _ k] bexI [of _ "hd (split_bar k)"]) simp_all
  show "due (u16_lit ''.'' @ hd (split_bar k) @ u16_lit ''.'') switch_on clk m = []"
    if "hd (split_bar k) \<notin> set (smap_keys m)"
    using that dots dot by (simp add: due_one_segment)
qed

definition lamp_table :: "(u16string, u16string) std_map" where
  "lamp_table = [(toU16 ''lamp|light'', toU16 ''lit''), (toU16 ''mug'', toU16 ''switch_state'')]"

theorem bars_split_names_in_group_witness:
  "ere_match (desired_ids lamp_table) (toU16 ''.lamp.'') \<and>
   due (toU16 ''.lamp.'') True (0, []) lamp_table = [] \<and>
   \<not> ere_match (desired_ids lamp_table) (toU16 ''.lamp|light.'') \<and>
   due (toU16 ''.lamp|light.'') True (0, []) lamp_table \<noteq> [] \<and>
   ere_match (desired_ids lamp_table) (toU16 ''hall.light.7'')"
proof -
  have parts: "split_bar (toU16 ''lamp|light'') = [toU16 ''lamp'', toU16 ''light'']"
    "split_bar (toU16 ''mug'') = [toU16 ''mug'']"
    and plain: "plain (toU16 ''lamp'')" "plain (toU16 ''light'')" "plain (toU16 ''mug'')"
    and bar: "ch CHR ''|'' \<in> set (toU16 ''lamp|light'')"
    and new: "toU16 ''lamp'' \<noteq> toU16 ''lamp|light''" "toU16 ''lamp'' \<noteq> toU16 ''mug''"
    and uris: "toU16 ''.lamp.'' = u16_lit ''.'' @ toU16 ''lamp'' @ u16_lit ''.''"
      "toU16 ''.lamp|light.'' = u16_lit ''.'' @ toU16 ''lamp|light'' @ u16_lit ''.''"
    and sub: "sublist (u16_lit ''.'' @ toU16 ''light'' @ u16_lit ''.'') (toU16 ''hall.light.7'')"
    by code_simp+
  have hyps: "length lamp_table \<noteq> 1" "lamp_table \<noteq> []"
    "\<forall>k \<in> set (smap_keys lamp_table). \<forall>p \<in> set (split_bar k). plain p"
    by (simp_all add: lamp_table_def parts plain)
  from bars_split_names_in_group [OF hyps, of "toU16 ''hall.light.7''" True "(0, [])"]
  have sel: "ere_match (desired_ids lamp_table) (toU16 ''hall.light.7'')"
    and rest: "\<forall>k \<in> set (smap_keys lamp_table). ch CHR ''|'' \<in> set k \<longrightarrow>
      due (u16_lit ''.'' @ k @ u16_lit ''.'') True (0, []) lamp_table \<noteq> [] \<and>
      \<not> ere_match (desired_ids lamp_table) (u16_lit ''.'' @ k @ u16_lit ''.'') \<and>
      ere_match (desired_ids lamp_table) (u16_lit ''.'' @ hd (split_bar k) @ u16_lit ''.'') \<and>
      (hd (split_bar k) \<notin> set (smap_keys lamp_table) \<longrightarrow>
         due (u16_lit ''.'' @ hd (split_bar k) @ u16_lit ''.'') True (0, []) lamp_table = [])"
    using sub by (auto simp: lamp_table_def parts)
  from rest [THEN bspec, of "toU16 ''lamp|light''"] bar new sel show ?thesis
    by (simp add: lamp_table_def parts uris)
qed

section \<open>From the configuration to the update\<close>

lemma reliable_SolverWorldModel [simp]: "reliable (SolverWorldModel link types origin) \<longleftrightarrow> reliable link"
  by (simp add: reliable_def SolverWorldModel_def)

lemma main_solver_simps [simp]:
  "object_to_solution (main_solver ld e) = cfg_object_to_solution ld"
  "tx_to_uri (main_solver ld e) = []"
  "switch_state (main_solver ld e) = []"
  "clock (main_solver ld e) = env_clock e"
  "out (main_solver ld e) = cfg_out ld @ [solver_connecting]"
  "sc_types (swm (main_solver ld e)) = cfg_type_pairs ld"
  "sc_origin (swm (main_solver ld e)) = toU16 ''binary_state_solver''"
  "sc_accepted (swm (main_solver ld e)) = sc_accepted (env_solver e)"
  "reliable (swm (main_solver ld e)) \<longleftrightarrow> reliable (env_solver e)"
  by (simp_all add: main_solver_def init_solver_def) (simp_all add: SolverWorldModel_def)

lemma cfg_out_cerr: "load_config path file [] = Inr ld \<Longrightarrow> filter is_cout (cfg_out ld) = []"
  by (auto simp: load_config_Inr_iff filter_empty_conv log_of_def class_line_def bad_line_def
      split: option.splits)

text \<open>
  Property C7. The scenario of the design document, from the file to the world model: the
  configuration is the line \<^verbatim>\<open>mug switch_state\<close>, the transmitter is entered into the table
  with the URI \<^verbatim>\<open>room1.mug.mug42\<close> (by the event \<open>Discover\<close>, the writer of the table
  that the source announces and does not contain), and a sample with the byte 255 arrives
  while the connection is reliable. The callback returns normally, the connection accepts exactly one
  batch, holding the update of \<^verbatim>\<open>switch_state\<close> for that URI with the data byte 1, and
  standard output shows the line \<^verbatim>\<open>room1.mug.mug42 is switch_state\<close>.
\<close>

theorem configured_sample_is_pushed:
  assumes "load_config path (Some mug_config) [] = Inr ld"
    and "reliable (env_solver e)" and "sc_accepted (env_solver e) = []"
  shows "\<exists>st'. run_events
       [Discover (phy, tx) (toU16 ''room1.mug.mug42''),
        Sample \<lparr>sd_valid = True, sd_physical_layer = phy, sd_tx_id = tx, sd_sense_data = [255]\<rparr>]
       (main_solver ld e) = Some (Inr (), st') \<and>
     sc_accepted (swm st') =
       [[\<lparr>au_name = toU16 ''switch_state'', au_creation_date = fst (env_clock e),
          au_uri = toU16 ''room1.mug.mug42'', au_data = [1]\<rparr>]] \<and>
     cout_lines (out st') = [''room1.mug.mug42 is switch_state\<newline>'']"
proof -
  let ?s = "\<lparr>sd_valid = True, sd_physical_layer = phy, sd_tx_id = tx, sd_sense_data = [255]\<rparr>"
  let ?st = "(main_solver ld e)\<lparr>tx_to_uri := [((phy, tx), mug_uri)]\<rparr>"
  from assms(1) have ld: "cfg_object_to_solution ld = mug_classes"
    by (auto simp: load_mug_config mug_classes_def)
  have val: "switch_value ?s = Some 255"
    by (simp add: switch_value_def)
  have uri: "uri_of ?s ?st = mug_uri"
    by (simp add: uri_of_def)
  have owed: "owed ?s ?st = [make_update (toU16 ''switch_state'') (fst (env_clock e)) mug_uri True]"
    and lines: "owed_lines ?s ?st = [report_line mug_uri (toU16 ''switch_state'') True]"
    by (simp_all add: owed_def owed_lines_def novel_def val uri ld mug_classes_def)
  from assms(2) have "reliable (swm ?st)"
    by simp
  from packet_callback_reliable_effect [OF this, of ?s] obtain st' where
    ret: "packet_callback ?s ?st = Some (Inr (), st')"
    and acc: "sc_accepted (swm st') = sc_accepted (swm ?st) @ map (\<lambda>u. [u]) (owed ?s ?st)"
    and con: "filter is_cout (out st') = filter is_cout (out ?st) @ owed_lines ?s ?st"
    by blast
  have "filter is_cout (out ?st) = []"
    using cfg_out_cerr [OF assms(1)] by (simp add: solver_connecting_def)
  with con lines have "filter is_cout (out st') = [report_line mug_uri (toU16 ''switch_state'') True]"
    by simp
  then have "cout_lines (filter is_cout (out st')) = [''room1.mug.mug42 is switch_state\<newline>'']"
    by (simp only: report_line_def mug_uri_def toString_toU16 if_True cout_lines_simps) simp
  then have "cout_lines (out st') = [''room1.mug.mug42 is switch_state\<newline>'']"
    by simp
  moreover from acc owed assms(3) have "sc_accepted (swm st') =
      [[\<lparr>au_name = toU16 ''switch_state'', au_creation_date = fst (env_clock e),
         au_uri = toU16 ''room1.mug.mug42'', au_data = [1]\<rparr>]]"
    by (simp add: make_update_def pushBackVal_u8_def mug_uri_def)
  ultimately show ?thesis
    using ret by (simp add: mug_uri_def)
qed

theorem configured_sample_is_pushed_witness:
  "\<exists>st'. run_events [Discover (1, 42) (toU16 ''room1.mug.mug42''), Sample (mug_sample 255)]
       (main_solver
          \<lparr>cfg_type_pairs = [(toU16 ''switch_state'', False)],
           cfg_object_to_solution = [(toU16 ''mug'', toU16 ''switch_state'')],
           cfg_out = [class_line ''mug'' ''switch_state'']\<rparr>
          (env0 [(''7010'', mug_config)] (conn0 [] Sent) (client0 Up [] [] Ends))) =
       Some (Inr (), st') \<and>
     sc_accepted (swm st') =
       [[\<lparr>au_name = toU16 ''switch_state'', au_creation_date = 1000,
          au_uri = toU16 ''room1.mug.mug42'', au_data = [1]\<rparr>]] \<and>
     cout_lines (out st') = [''room1.mug.mug42 is switch_state\<newline>'']"
  using configured_sample_is_pushed [of "''7010''" _
      "env0 [(''7010'', mug_config)] (conn0 [] Sent) (client0 Up [] [] Ends)" 1 42]
  by (simp add: load_mug_config mug_sample_def)

text \<open>
  Property C20. The loader and the solver fit together: in every state the solver reaches
  from the state \<^verbatim>\<open>main\<close> hands to the aggregator, the tables are sorted, the registration
  of the connection is the one made from the file, and every batch the connection has
  accepted is a single update whose name is one of the registered, non-transient types.
\<close>

theorem solver_pushes_registered_types:
  assumes "load_config path file con = Inr ld" and "solver_run (main_solver ld e) es st"
    and "sc_accepted (env_solver e) = []"
  shows "solver_inv st \<and> sc_types (swm st) = cfg_type_pairs ld \<and>
     (\<forall>b \<in> set (sc_accepted (swm st)). \<exists>u. b = [u] \<and> (au_name u, False) \<in> set (sc_types (swm st)))"
proof -
  from assms(1) have inv: "loader_inv ld"
    by (rule load_config_inv)
  then have "solver_inv (main_solver ld e)"
    by (simp add: solver_inv_def loader_inv_def)
  with assms(2) have "solver_inv st"
    by (rule solver_run_inv)
  moreover from solver_run_registration [OF assms(2)] have types: "sc_types (swm st) = cfg_type_pairs ld"
    by simp
  moreover have "\<exists>u. b = [u] \<and> (au_name u, False) \<in> set (sc_types (swm st))"
    if b: "b \<in> set (sc_accepted (swm st))" for b
  proof -
    from assms(3) have "accepted_wf (main_solver ld e)"
      by (simp add: accepted_wf_def)
    with assms(2) have "accepted_wf st"
      by (rule solver_run_accepted_wf)
    with b solver_run_classes [OF assms(2)] have "wf_batch (cfg_object_to_solution ld) b"
      by (simp add: accepted_wf_def list_all_iff)
    then obtain cls soln_name now uri switch_on where
      "b = [make_update soln_name now uri switch_on]" and "(cls, soln_name) \<in> set (cfg_object_to_solution ld)"
      by (auto simp: wf_batch_def)
    with inv types show ?thesis
      by (auto simp: loader_inv_def)
  qed
  ultimately show ?thesis
    by blast
qed

theorem solver_pushes_registered_types_witness:
  "\<exists>ld st. load_config ''7010'' (Some mug_config) [] = Inr ld \<and>
     solver_run (main_solver ld (env0 [] (conn0 [] Sent) (client0 Up [] [] Ends)))
       [Discover (1, 42) mug_uri, Sample (mug_sample 255)] st \<and>
     solver_inv st \<and> sc_types (swm st) = [(toU16 ''switch_state'', False)] \<and>
     (\<forall>b \<in> set (sc_accepted (swm st)). \<exists>u. b = [u] \<and> (au_name u, False) \<in> set (sc_types (swm st)))"
proof -
  let ?e = "env0 [] (conn0 [] Sent) (client0 Up [] [] Ends)"
  obtain ld where ld: "load_config ''7010'' (Some mug_config) [] = Inr ld"
    and types: "cfg_type_pairs ld = [(toU16 ''switch_state'', False)]"
    by (simp add: load_mug_config)
  have "reliable (swm ((main_solver ld ?e)\<lparr>tx_to_uri := [((1, 42), mug_uri)]\<rparr>))"
    by simp
  from packet_callback_reliable [OF this, of "mug_sample 255"] obtain st where
    "packet_callback (mug_sample 255) ((main_solver ld ?e)\<lparr>tx_to_uri := [((1, 42), mug_uri)]\<rparr>) =
       Some (Inr (), st)"
    by blast
  then have run: "solver_run (main_solver ld ?e) [Discover (1, 42) mug_uri, Sample (mug_sample 255)] st"
    by (simp add: solver_run_events)
  have "sc_accepted (env_solver ?e) = []"
    by simp
  from solver_pushes_registered_types [OF ld run this, unfolded types]
  have res: "solver_inv st \<and> sc_types (swm st) = [(toU16 ''switch_state'', False)] \<and>
      (\<forall>b \<in> set (sc_accepted (swm st)). \<exists>u. b = [u] \<and> (au_name u, False) \<in> set (sc_types (swm st)))" .
  show ?thesis
  proof (intro exI conjI)
    show "load_config ''7010'' (Some mug_config) [] = Inr ld"
      by (rule ld)
    show "solver_run (main_solver ld ?e) [Discover (1, 42) mug_uri, Sample (mug_sample 255)] st"
      by (rule run)
    from res show "solver_inv st"
      by (rule conjunct1)
    from res show "sc_types (swm st) = [(toU16 ''switch_state'', False)]"
      by (elim conjE)
    from res show "\<forall>b \<in> set (sc_accepted (swm st)). \<exists>u. b = [u] \<and> (au_name u, False) \<in> set (sc_types (swm st))"
      by (elim conjE)
  qed
qed

end
